(* ===== verification/Prelude.thy ===== *)
theory Prelude
  imports Complex_Main
begin

text \<open>
  Shared vocabulary of the development: the collections of rules the component theories
  feed, the names of the model's basic types, and generic facts on lists and options
  that the component proofs use through \<open>simp\<close> and \<open>auto\<close>.
\<close>

named_theorems js_simps
  "evaluation rules for the models of the JavaScript built-ins"
named_theorems handler_simps
  "unfolding rules of the page's event handlers"
named_theorems inv_simps
  "unfolding rules of the invariants of the page model"

text \<open>
  Element ids, CSS class names and string values of the page are JavaScript strings,
  modelled as \<open>string\<close> (a list of \<open>char\<close>).
\<close>

type_synonym dom_id = string

text \<open>A timer queue: callbacks with the absolute time (in ms) they are due at.\<close>

type_synonym 'cb timers = "(nat \<times> 'cb) list"

subsection \<open>Timer queues\<close>

text \<open>
  \<^verbatim>\<open>setTimeout(cb, ms)\<close> registers a callback due at \<open>now + ms\<close>. The event loop
  runs the callback with the least due time and, among callbacks due at the same time,
  the one registered first. The queue is kept ordered by due time, a new callback going
  after every callback due no later than it, so that the next callback is the head.
\<close>

fun add_timer :: "nat \<times> 'cb \<Rightarrow> 'cb timers \<Rightarrow> 'cb timers" where
  "add_timer x [] = [x]"
| "add_timer x (y # ys) = (if fst x < fst y then x # y # ys else y # add_timer x ys)"

text \<open>
  A well-formed queue at time \<open>now\<close>: ordered by due time, and nothing due before
  \<open>now\<close>, so that the callbacks run in the order of their due times and the clock
  never goes back.
\<close>

definition timers_wf :: "nat \<Rightarrow> 'cb timers \<Rightarrow> bool" where
  "timers_wf now ts = (sorted (map fst ts) \<and> list_all (\<lambda>(t, cb). now \<le> t) ts)"

subsection \<open>Lists\<close>

lemma count_list_filter_le:
  "count_list (filter P xs) x \<le> count_list xs x"
  by (induction xs) auto

lemma count_list_map_le_length_filter:
  "count_list (map f xs) y = length (filter (\<lambda>x. f x = y) xs)"
  by (induction xs) auto

lemma filter_map_fst_le:
  "length (filter P xs) \<le> length xs"
  by (rule length_filter_le)

lemma length_filter_conj_le:
  "length (filter (\<lambda>x. P x \<and> Q x) xs) \<le> length (filter Q xs)"
  by (induction xs) auto

lemma foldl_append_single:
  "foldl f a (xs @ [x]) = f (foldl f a xs) x"
  by simp

lemma take_length_eq_iff:
  "take (length t) s = t \<longleftrightarrow> (\<exists>ys. s = t @ ys)"
proof
  assume "take (length t) s = t"
  then have "s = t @ drop (length t) s"
    by (metis append_take_drop_id)
  then show "\<exists>ys. s = t @ ys" ..
next
  assume "\<exists>ys. s = t @ ys"
  then show "take (length t) s = t" by auto
qed

lemma foldl_invariant:
  assumes "\<And>a x. P a \<Longrightarrow> P (f a x)" and "P a"
  shows "P (foldl f a xs)"
  using assms(2) by (induction xs arbitrary: a) (auto intro: assms(1))

lemma foldl_field:
  assumes "\<And>a x. g (f a x) = g a"
  shows "g (foldl f a xs) = g a"
  by (induction xs arbitrary: a) (simp_all add: assms)

lemma distinct_count_list_le_1: "distinct xs \<Longrightarrow> count_list xs x \<le> 1"
  by (induction xs) auto

subsection \<open>Timer queue lemmas\<close>

lemma set_add_timer [simp]: "set (add_timer x ts) = insert x (set ts)"
  by (induction ts) auto

lemma length_add_timer [simp]: "length (add_timer x ts) = Suc (length ts)"
  by (induction ts) auto

lemma add_timer_not_Nil [simp]: "add_timer x ts \<noteq> []"
  by (cases ts) auto

lemma sorted_add_timer:
  "sorted (map fst ts) \<Longrightarrow> sorted (map fst (add_timer x ts))"
  by (induction ts) (auto simp: not_less)

lemma map_snd_add_timer_count:
  "count_list (map snd (add_timer x ts)) c =
     count_list (map snd ts) c + (if snd x = c then 1 else 0)"
  by (induction ts) auto


lemma timers_wf_add:
  "timers_wf now ts \<Longrightarrow> now \<le> t \<Longrightarrow> timers_wf now (add_timer (t, cb) ts)"
  by (auto simp: timers_wf_def sorted_add_timer list_all_iff)

lemma timers_wf_pop:
  "timers_wf now ((t, cb) # rest) \<Longrightarrow> timers_wf (max t now) rest"
  by (auto simp: timers_wf_def list_all_iff)

lemma timers_wf_wait:
  "timers_wf now ts \<Longrightarrow> list_all (\<lambda>(t, cb). now + n \<le> t) ts \<Longrightarrow> timers_wf (now + n) ts"
  by (simp add: timers_wf_def)

end
