(* ===== verification/JS_Base.thy ===== *)
theory JS_Base
  imports Prelude
begin

text \<open>
  Models of the JavaScript built-ins that \<^verbatim>\<open>part.js\<close> calls, written from the
  ECMAScript and ECMA-402 definitions (they are not code of the repository):
  \<^verbatim>\<open>Math.round\<close> on the rational values the counter computes, \<open>String(n)\<close> and
  \<open>n.toLocaleString()\<close> (locale en-US) on integral numbers, \<open>toLowerCase\<close> and
  \<open>includes\<close> on strings. Each comes with the facts the components use: monotonicity of
  rounding, parsing back a printed number, and that the grouped form is the plain form
  with separators.
\<close>

subsection \<open>Math.round\<close>

text \<open>
  \<^verbatim>\<open>Math.round(x)\<close> is the integer closest to \<open>x\<close>, halves rounded up (towards
  \<open>+\<infinity>\<close>): \<open>\<lfloor>x + 1/2\<rfloor>\<close>. The counter's values are computed in IEEE doubles;
  the model computes them exactly, as rationals.
\<close>

definition js_round :: "rat \<Rightarrow> int" where
  "js_round x = \<lfloor>x + 1 / 2\<rfloor>"

subsection \<open>Decimal digits: String(n)\<close>

definition digit_char :: "nat \<Rightarrow> char" where
  "digit_char d = ''0123456789'' ! d"

text \<open>\<open>String(n)\<close> of a non-negative integral number: its decimal digits, no sign.\<close>

fun dec_string :: "nat \<Rightarrow> string" where
  "dec_string n =
     (if n < 10 then [digit_char n] else dec_string (n div 10) @ [digit_char (n mod 10)])"

text \<open>\<open>String(k)\<close> of an integral number \<open>k\<close> (\<open>-0\<close> does not arise: see the header).\<close>

definition js_int_string :: "int \<Rightarrow> string" where
  "js_int_string k = (if k < 0 then ''-'' @ dec_string (nat (- k)) else dec_string (nat k))"

text \<open>Reading digits back, the inverse used by the round-trip lemmas.\<close>

definition nat_of_dec :: "string \<Rightarrow> nat" where
  "nat_of_dec s = foldl (\<lambda>acc c. 10 * acc + (of_char c - 48)) 0 s"

subsection \<open>Number.prototype.toLocaleString, locale en-US\<close>

text \<open>
  For an integral number in the en-US locale: the digits in groups of three from the
  right, separated by commas, with a minus sign in front of a negative number. A group
  other than the first is zero-padded to three digits.
\<close>

definition digits3 :: "nat \<Rightarrow> string" where
  "digits3 m = [digit_char (m div 100 mod 10), digit_char (m div 10 mod 10), digit_char (m mod 10)]"

fun group3 :: "nat \<Rightarrow> string" where
  "group3 n = (if n < 1000 then dec_string n else group3 (n div 1000) @ '','' @ digits3 (n mod 1000))"

definition js_locale_string :: "int \<Rightarrow> string" where
  "js_locale_string k = (if k < 0 then ''-'' @ group3 (nat (- k)) else group3 (nat k))"

subsection \<open>Strings: toLowerCase and includes\<close>

text \<open>
  \<open>toLowerCase\<close> on the ASCII letters; every other character is kept. (The only
  non-ASCII characters whose lower case is ASCII are the Kelvin sign and the dotted
  capital I, and neither lower case occurs in the words the code searches for.)
\<close>

definition lower_table :: "(char \<times> char) list" where
  "lower_table = zip ''ABCDEFGHIJKLMNOPQRSTUVWXYZ'' ''abcdefghijklmnopqrstuvwxyz''"

definition js_lower_char :: "char \<Rightarrow> char" where
  "js_lower_char c = (case map_of lower_table c of Some l \<Rightarrow> l | None \<Rightarrow> c)"

definition js_lower :: "string \<Rightarrow> string" where
  "js_lower s = map js_lower_char s"

text \<open>\<open>s.includes(t)\<close>: \<open>t\<close> occurs in \<open>s\<close> at some position.\<close>

fun js_includes :: "string \<Rightarrow> string \<Rightarrow> bool" where
  "js_includes [] t = (t = [])"
| "js_includes (c # cs) t = (take (length t) (c # cs) = t \<or> js_includes cs t)"

subsection \<open>Math.round\<close>

lemma floor_numeral_div_rat [simp, js_simps]:
  "\<lfloor>(numeral a :: rat) / numeral b\<rfloor> = numeral a div numeral b"
  using floor_divide_of_int_eq [of "numeral a" "numeral b", where 'a = rat] by simp

lemma js_round_of_int [simp, js_simps]: "js_round (of_int k) = k"
proof -
  have "\<lfloor>of_int k + 1 / 2 :: rat\<rfloor> = k + \<lfloor>1 / 2 :: rat\<rfloor>"
    by (metis add.commute floor_add_int)
  moreover have "\<lfloor>1 / 2 :: rat\<rfloor> = 0"
    by (simp add: floor_eq_iff)
  ultimately show ?thesis by (simp add: js_round_def)
qed

lemma js_round_numeral [simp, js_simps]: "js_round (numeral n) = numeral n"
  using js_round_of_int [of "numeral n"] by simp

lemma js_round_neg_numeral [simp, js_simps]: "js_round (- numeral n) = - numeral n"
  using js_round_of_int [of "- numeral n"] by simp

lemma js_round_zero [simp, js_simps]: "js_round 0 = 0"
  using js_round_of_int [of 0] by simp

lemma js_round_mono: "x \<le> y \<Longrightarrow> js_round x \<le> js_round y"
  unfolding js_round_def by (intro floor_mono) simp

lemma js_round_div_int:
  assumes "0 < d"
  shows "js_round (of_int a / of_int d) = (2 * a + d) div (2 * d)"
proof -
  have "of_int a / of_int d + 1 / 2 = (of_int (2 * a + d) / of_int (2 * d) :: rat)"
    using assms by (simp add: field_simps)
  then show ?thesis
    unfolding js_round_def by (simp only: floor_divide_of_int_eq)
qed

subsection \<open>Decimal digits: String(n)\<close>

declare dec_string.simps [simp del]

lemma of_char_digit_char:
  assumes "d < 10"
  shows "of_char (digit_char d) = 48 + d"
proof -
  from assms have "d \<in> set [0..<10]" by simp
  then show ?thesis by (auto simp: digit_char_def upt_rec)
qed

lemma digit_char_is_digit:
  assumes "d < 10"
  shows "digit_char d \<in> set ''0123456789''"
  using assms unfolding digit_char_def by (intro nth_mem) simp

lemma dec_string_small [simp, js_simps]: "n < 10 \<Longrightarrow> dec_string n = [digit_char n]"
  by (simp add: dec_string.simps)

lemma dec_string_step:
  "10 \<le> n \<Longrightarrow> dec_string n = dec_string (n div 10) @ [digit_char (n mod 10)]"
  by (simp add: dec_string.simps)

lemma dec_string_numeral [js_simps]:
  "dec_string (numeral k) =
     (if numeral k < (10::nat) then [digit_char (numeral k)]
      else dec_string (numeral k div 10) @ [digit_char (numeral k mod 10)])"
  by (rule dec_string.simps)

lemma dec_string_not_Nil [simp]: "dec_string n \<noteq> []"
  by (induction n rule: dec_string.induct) (simp add: dec_string.simps)

lemma dec_string_digits: "set (dec_string n) \<subseteq> set ''0123456789''"
proof (induction n rule: dec_string.induct)
  case (1 n)
  show ?case
  proof (cases "n < 10")
    case True
    then show ?thesis using digit_char_is_digit [of n] by simp
  next
    case False
    with "1.IH" show ?thesis
      using digit_char_is_digit [of "n mod 10"] by (simp add: dec_string_step)
  qed
qed

theorem nat_of_dec_dec_string [simp]: "nat_of_dec (dec_string n) = n"
proof (induction n rule: dec_string.induct)
  case (1 n)
  show ?case
  proof (cases "n < 10")
    case True
    then show ?thesis by (simp add: nat_of_dec_def of_char_digit_char)
  next
    case False
    with "1.IH" have "nat_of_dec (dec_string (n div 10)) = n div 10" by simp
    with False show ?thesis
      by (simp add: dec_string_step nat_of_dec_def of_char_digit_char)
  qed
qed

lemma dec_string_inj: "dec_string m = dec_string n \<Longrightarrow> m = n"
  by (metis nat_of_dec_dec_string)

subsection \<open>Number.prototype.toLocaleString, locale en-US\<close>

declare group3.simps [simp del]

lemma group3_small [simp, js_simps]: "n < 1000 \<Longrightarrow> group3 n = dec_string n"
  by (simp add: group3.simps)

lemma group3_step:
  "1000 \<le> n \<Longrightarrow> group3 n = group3 (n div 1000) @ '','' @ digits3 (n mod 1000)"
  by (simp add: group3.simps)

lemma mod1000_div100: "(n::nat) mod 1000 div 100 = n div 100 mod 10"
proof -
  have "n mod 1000 = 100 * (n div 100 mod 10) + n mod 100"
    using mod_mult2_eq [of n 100 10] by simp
  then show ?thesis by simp
qed

lemma mod1000_div10: "(n::nat) mod 1000 div 10 mod 10 = n div 10 mod 10"
proof -
  have "n mod 1000 = 10 * (n div 10 mod 100) + n mod 10"
    using mod_mult2_eq [of n 10 100] by simp
  then have "n mod 1000 div 10 = n div 10 mod 100" by simp
  then show ?thesis by (simp add: mod_mod_cancel)
qed

lemma dec_string_split3:
  assumes "1000 \<le> n"
  shows "dec_string n = dec_string (n div 1000) @ digits3 (n mod 1000)"
proof -
  have a: "n div 10 div 10 = n div 100" and b: "n div 100 div 10 = n div 1000"
    by (simp_all add: div_mult2_eq)
  from assms have "10 \<le> n" "10 \<le> n div 10" "10 \<le> n div 100" by simp_all
  then have "dec_string n =
      dec_string (n div 1000) @ [digit_char (n div 100 mod 10),
        digit_char (n div 10 mod 10), digit_char (n mod 10)]"
    using a b by (simp add: dec_string_step)
  then show ?thesis
    by (simp add: digits3_def mod1000_div100 mod1000_div10 mod_mod_cancel)
qed

lemma comma_not_digit: "CHR '','' \<notin> set ''0123456789''"
  by simp

lemma filter_comma_dec_string [simp]:
  "filter (\<lambda>c. c \<noteq> CHR '','') (dec_string n) = dec_string n"
  using dec_string_digits [of n] comma_not_digit
  by (auto simp: filter_id_conv)

lemma digit_char_not_comma: "d < 10 \<Longrightarrow> digit_char d \<noteq> CHR '',''"
  by (metis comma_not_digit digit_char_is_digit)

lemma filter_comma_digits3 [simp]:
  "filter (\<lambda>c. c \<noteq> CHR '','') (digits3 m) = digits3 m"
  by (simp add: digits3_def digit_char_not_comma)

theorem group3_strip_commas:
  "filter (\<lambda>c. c \<noteq> CHR '','') (group3 n) = dec_string n"
proof (induction n rule: group3.induct)
  case (1 n)
  show ?case
  proof (cases "n < 1000")
    case True
    then show ?thesis by simp
  next
    case False
    with "1.IH" show ?thesis by (simp add: group3_step dec_string_split3)
  qed
qed

subsection \<open>Strings: toLowerCase and includes\<close>

lemma exists_infix_Cons:
  "(\<exists>xs ys. c # cs = xs @ t @ ys) \<longleftrightarrow>
     (\<exists>ys. c # cs = t @ ys) \<or> (\<exists>xs ys. cs = xs @ t @ ys)"
proof
  assume "\<exists>xs ys. c # cs = xs @ t @ ys"
  then obtain xs ys where eq: "c # cs = xs @ t @ ys" by blast
  show "(\<exists>ys. c # cs = t @ ys) \<or> (\<exists>xs ys. cs = xs @ t @ ys)"
  proof (cases xs)
    case Nil
    with eq show ?thesis by auto
  next
    case (Cons x xs')
    with eq have "cs = xs' @ t @ ys" by simp
    then show ?thesis by blast
  qed
next
  assume "(\<exists>ys. c # cs = t @ ys) \<or> (\<exists>xs ys. cs = xs @ t @ ys)"
  then show "\<exists>xs ys. c # cs = xs @ t @ ys"
  proof
    assume "\<exists>ys. c # cs = t @ ys"
    then show ?thesis by (metis append_Nil)
  next
    assume "\<exists>xs ys. cs = xs @ t @ ys"
    then show ?thesis by (metis append_Cons)
  qed
qed

theorem js_includes_iff: "js_includes s t \<longleftrightarrow> (\<exists>xs ys. s = xs @ t @ ys)"
proof (induction s)
  case Nil
  then show ?case by auto
next
  case (Cons c cs)
  then show ?case
    by (simp only: js_includes.simps take_length_eq_iff exists_infix_Cons)
qed

lemma js_includes_append_left: "js_includes s t \<Longrightarrow> js_includes (u @ s) t"
  by (auto simp: js_includes_iff) (metis append.assoc)

lemma js_includes_trans:
  assumes "js_includes a b" and "js_includes b c"
  shows "js_includes a c"
proof -
  from assms obtain xs ys us vs where "a = xs @ b @ ys" and "b = us @ c @ vs"
    by (auto simp: js_includes_iff)
  then have "a = (xs @ us) @ c @ (vs @ ys)" by simp
  then show ?thesis unfolding js_includes_iff by blast
qed

lemma js_includes_refl: "js_includes s s"
  unfolding js_includes_iff by (metis append_Nil append_Nil2)

lemma js_includes_append_right: "js_includes s t \<Longrightarrow> js_includes (s @ u) t"
  by (auto simp: js_includes_iff) (metis append.assoc)

lemma js_includes_middle: "js_includes (u @ t @ v) t"
  by (intro js_includes_append_left js_includes_append_right js_includes_refl)

lemma js_includes_concat_map: "x \<in> set xs \<Longrightarrow> js_includes (concat (map h xs)) (h x)"
proof -
  assume "x \<in> set xs"
  then obtain ys zs where "xs = ys @ x # zs" by (meson split_list)
  then show ?thesis by (simp add: js_includes_middle)
qed

end
