(* ===== verification/Animation.thy ===== *)
theory Animation
  imports JS_Base
begin

text \<open>
  The counter animation \<^verbatim>\<open>countUp(element, target, duration, suffix)\<close> of
  \<^verbatim>\<open>src/assets/view/js/part.js\<close> (lines 25--71). A call records its start time and
  requests a frame; each frame (\<^verbatim>\<open>animate\<close>) computes the progress
  \<open>min(elapsed / duration, 1)\<close>, eases it quadratically, formats the value by the
  suffix, writes it to the element and requests the next frame while the progress is
  below 1. A run of the animation is the list of texts its frames write, given the
  timestamps (\<^verbatim>\<open>Date.now()\<close>) at which the browser runs them.
\<close>

subsection \<open>One call and one frame\<close>

text \<open>The arguments of a started animation, with the start time \<^verbatim>\<open>Date.now()\<close>.\<close>

record count_up =
  cu_element :: dom_id
  cu_target :: int
  cu_duration :: int
  cu_suffix :: string
  cu_start :: int

text \<open>
  \<^verbatim>\<open>countUp\<close>: a missing element logs an error and starts nothing; otherwise the
  animation starts at \<open>now\<close>. (The unused \<^verbatim>\<open>increment\<close> of line 35 has no effect.)
\<close>

definition countUp :: "dom_id option \<Rightarrow> int \<Rightarrow> int \<Rightarrow> string \<Rightarrow> int \<Rightarrow> count_up option" where
  "countUp element target duration suffix now =
     (case element of
        None \<Rightarrow> None
      | Some e \<Rightarrow> Some \<lparr>cu_element = e, cu_target = target, cu_duration = duration,
                         cu_suffix = suffix, cu_start = now\<rparr>)"

definition progress :: "count_up \<Rightarrow> int \<Rightarrow> rat" where
  "progress cu now = min (of_int (now - cu_start cu) / of_int (cu_duration cu)) 1"

definition ease_out_quad :: "rat \<Rightarrow> rat" where
  "ease_out_quad p = 1 - (1 - p) * (1 - p)"

definition current_value :: "count_up \<Rightarrow> int \<Rightarrow> rat" where
  "current_value cu now = of_int (cu_target cu) * ease_out_quad (progress cu now)"

text \<open>The formatting chain of lines 47--59, in the code's order.\<close>

definition format_count :: "string \<Rightarrow> rat \<Rightarrow> string" where
  "format_count suffix current =
     (if suffix = ''k'' then js_int_string (js_round (current / 1000)) @ ''k''
      else if suffix = ''+'' then js_locale_string (js_round current) @ ''+''
      else if suffix = ''over'' then ''Over '' @ js_int_string (js_round current)
      else js_locale_string (js_round current))"

text \<open>One frame: the text written to \<^verbatim>\<open>element.textContent\<close>, and whether a next frame
  is requested.\<close>

definition animate :: "count_up \<Rightarrow> int \<Rightarrow> string \<times> bool" where
  "animate cu now =
     (format_count (cu_suffix cu) (current_value cu now), progress cu now < 1)"

text \<open>
  The frames of one animation, run at the given timestamps: each frame writes its text;
  the run stops after the first frame that requests no successor.
\<close>

fun run_frames :: "count_up \<Rightarrow> int list \<Rightarrow> string list" where
  "run_frames cu [] = []"
| "run_frames cu (t # ts) =
     (let (str, more) = animate cu t in str # (if more then run_frames cu ts else []))"

text \<open>What the last frame shows: the target, formatted.\<close>

definition final_text :: "count_up \<Rightarrow> string" where
  "final_text cu = format_count (cu_suffix cu) (of_int (cu_target cu))"

subsection \<open>The displayed number\<close>

text \<open>The number the frame shows before formatting: \<^verbatim>\<open>Math.round(current)\<close>.\<close>

definition frame_value :: "count_up \<Rightarrow> int \<Rightarrow> int" where
  "frame_value cu now = js_round (current_value cu now)"

subsection \<open>Progress and easing\<close>

lemma progress_le_1: "progress cu now \<le> 1"
  by (simp add: progress_def)

lemma progress_eq_1:
  assumes "0 < cu_duration cu" and "cu_start cu + cu_duration cu \<le> now"
  shows "progress cu now = 1"
proof -
  from assms have "(1::rat) \<le> of_int (now - cu_start cu) / of_int (cu_duration cu)"
    by (simp add: le_divide_eq)
  then show ?thesis by (simp add: progress_def)
qed

lemma progress_less_1:
  assumes "0 < cu_duration cu" and "now < cu_start cu + cu_duration cu"
  shows "progress cu now < 1"
proof -
  from assms have "of_int (now - cu_start cu) / of_int (cu_duration cu) < (1::rat)"
    by (simp add: divide_less_eq)
  then show ?thesis by (simp add: progress_def)
qed

lemma progress_mono: "0 < cu_duration cu \<Longrightarrow> t1 \<le> t2 \<Longrightarrow> progress cu t1 \<le> progress cu t2"
  unfolding progress_def by (intro min.mono divide_right_mono) simp_all

lemma progress_nonneg: "0 < cu_duration cu \<Longrightarrow> cu_start cu \<le> now \<Longrightarrow> 0 \<le> progress cu now"
  by (simp add: progress_def)

lemma ease_out_quad_1 [simp]: "ease_out_quad 1 = 1"
  by (simp add: ease_out_quad_def)

lemma ease_out_quad_mono:
  assumes "p \<le> q" and "q \<le> 1"
  shows "ease_out_quad p \<le> ease_out_quad q"
proof -
  from assms have "0 \<le> 1 - q" "1 - q \<le> 1 - p" by simp_all
  then have "(1 - q) * (1 - q) \<le> (1 - p) * (1 - p)"
    by (intro mult_mono) simp_all
  then show ?thesis by (simp add: ease_out_quad_def)
qed

lemma ease_out_quad_range:
  assumes "0 \<le> p" and "p \<le> 1"
  shows "0 \<le> ease_out_quad p \<and> ease_out_quad p \<le> 1"
proof -
  from assms have "0 \<le> 1 - p" "1 - p \<le> 1" by simp_all
  then have "(1 - p) * (1 - p) \<le> 1" and "0 \<le> (1 - p) * (1 - p)"
    by (simp_all add: mult_le_one)
  then show ?thesis by (simp add: ease_out_quad_def)
qed

lemma current_value_final:
  "0 < cu_duration cu \<Longrightarrow> cu_start cu + cu_duration cu \<le> now \<Longrightarrow>
   current_value cu now = of_int (cu_target cu)"
  by (simp add: current_value_def progress_eq_1)

subsection \<open>The last frame\<close>

lemma animate_final:
  assumes "0 < cu_duration cu" and "cu_start cu + cu_duration cu \<le> now"
  shows "animate cu now = (final_text cu, False)"
  using assms by (simp add: animate_def final_text_def current_value_final progress_eq_1)

lemma animate_running:
  assumes "0 < cu_duration cu" and "now < cu_start cu + cu_duration cu"
  shows "snd (animate cu now) = True"
  using assms by (simp add: animate_def progress_less_1)

subsection \<open>The displayed number\<close>

text \<open>
  While the animation runs, the shown number is an integer quotient: no rational
  arithmetic is needed to compute a frame.
\<close>

lemma ease_quotient:
  assumes "(D::int) \<noteq> 0"
  shows "of_int t * (1 - (1 - of_int e / of_int D) * (1 - of_int e / of_int D)) =
         (of_int (t * (D * D - (D - e) * (D - e))) / of_int (D * D) :: rat)"
  using assms by (simp add: field_simps)

lemma current_value_running:
  assumes "0 < cu_duration cu" and "cu_start cu \<le> now" and "now \<le> cu_start cu + cu_duration cu"
  shows "current_value cu now =
           of_int (cu_target cu * (cu_duration cu * cu_duration cu
              - (cu_duration cu - (now - cu_start cu)) * (cu_duration cu - (now - cu_start cu))))
           / of_int (cu_duration cu * cu_duration cu)"
proof -
  from assms have "of_int (now - cu_start cu) / of_int (cu_duration cu) \<le> (1::rat)"
    by (simp add: divide_le_eq)
  then have p: "progress cu now = of_int (now - cu_start cu) / of_int (cu_duration cu)"
    by (simp add: progress_def)
  have "current_value cu now = of_int (cu_target cu) *
      (1 - (1 - of_int (now - cu_start cu) / of_int (cu_duration cu)) *
           (1 - of_int (now - cu_start cu) / of_int (cu_duration cu)))"
    by (simp only: current_value_def ease_out_quad_def p)
  also have "\<dots> = of_int (cu_target cu * (cu_duration cu * cu_duration cu
              - (cu_duration cu - (now - cu_start cu)) * (cu_duration cu - (now - cu_start cu))))
           / of_int (cu_duration cu * cu_duration cu)"
    using assms(1) by (intro ease_quotient) simp
  finally show ?thesis .
qed

subsection \<open>Runs of frames\<close>

lemma run_frames_not_Nil [simp]: "run_frames cu ts = [] \<longleftrightarrow> ts = []"
  by (cases ts) (auto split: prod.splits)

lemma run_frames_Cons_final:
  "0 < cu_duration cu \<Longrightarrow> cu_start cu + cu_duration cu \<le> t \<Longrightarrow>
   run_frames cu (t # ts) = [final_text cu]"
  by (simp add: animate_final)

lemma run_frames_Cons_running:
  assumes "0 < cu_duration cu" and "t < cu_start cu + cu_duration cu"
  shows "run_frames cu (t # ts) = fst (animate cu t) # run_frames cu ts"
proof -
  obtain str where "animate cu t = (str, True)"
    using animate_running [OF assms] by (cases "animate cu t") auto
  then show ?thesis by simp
qed

declare run_frames.simps(2) [simp del]

text \<open>Once a frame at or after the end time is run, the last text is the target.\<close>

lemma run_frames_last:
  assumes "0 < cu_duration cu" and "\<exists>t \<in> set ts. cu_start cu + cu_duration cu \<le> t"
  shows "last (run_frames cu ts) = final_text cu"
  using assms(2)
proof (induction ts)
  case Nil
  then show ?case by simp
next
  case (Cons t ts)
  show ?case
  proof (cases "cu_start cu + cu_duration cu \<le> t")
    case True
    with assms(1) show ?thesis by (simp add: run_frames_Cons_final)
  next
    case False
    with Cons.prems have "\<exists>t \<in> set ts. cu_start cu + cu_duration cu \<le> t" by auto
    with Cons.IH have "last (run_frames cu ts) = final_text cu" by blast
    moreover from \<open>\<exists>t \<in> set ts. _\<close> have "ts \<noteq> []" by auto
    ultimately show ?thesis
      using False assms(1) by (simp add: run_frames_Cons_running)
  qed
qed

text \<open>Frames at strictly increasing integer times from \<open>b\<close> on: at most one per ms.\<close>

lemma run_frames_length:
  assumes "0 < cu_duration cu"
  shows "sorted_wrt (<) ts \<Longrightarrow> \<forall>t \<in> set ts. b \<le> t \<Longrightarrow>
         length (run_frames cu ts) \<le> nat (cu_start cu + cu_duration cu - b) + 1"
proof (induction ts arbitrary: b)
  case Nil
  then show ?case by simp
next
  case (Cons t ts)
  show ?case
  proof (cases "cu_start cu + cu_duration cu \<le> t")
    case True
    with assms show ?thesis by (simp add: run_frames_Cons_final)
  next
    case False
    from Cons.prems have "sorted_wrt (<) ts" and "\<forall>x \<in> set ts. t + 1 \<le> x" by auto
    with Cons.IH have "length (run_frames cu ts) \<le> nat (cu_start cu + cu_duration cu - (t + 1)) + 1"
      by blast
    moreover from Cons.prems have "b \<le> t" by simp
    ultimately show ?thesis
      using False assms by (simp add: run_frames_Cons_running)
  qed
qed

lemma sorted_less_lower_bound:
  "sorted_wrt (<) ts \<Longrightarrow> \<forall>t \<in> set ts. b \<le> t \<Longrightarrow> i < length ts \<Longrightarrow> b + int i \<le> ts ! i"
proof (induction ts arbitrary: b i)
  case Nil
  then show ?case by simp
next
  case (Cons t ts)
  show ?case
  proof (cases i)
    case 0
    with Cons.prems show ?thesis by simp
  next
    case (Suc j)
    from Cons.prems have "sorted_wrt (<) ts" "\<forall>x \<in> set ts. t + 1 \<le> x" "j < length ts" "b \<le> t"
      using Suc by auto
    with Cons.IH have "t + 1 + int j \<le> ts ! j" by blast
    with \<open>b \<le> t\<close> Suc show ?thesis by simp
  qed
qed

lemmas format_simps = format_count_def js_locale_string_def js_int_string_def group3_step
  digits3_def digit_char_def js_simps

lemma js_round_nonneg: "0 \<le> x \<Longrightarrow> 0 \<le> js_round x"
  using js_round_mono [of 0 x] by simp

subsection \<open>Properties of the animation\<close>

text \<open>
  C4: the animation ends. When the browser runs frames at strictly increasing
  millisecond timestamps from the start on, and there are more of them than the
  duration, the frame loop stops after at most \<open>duration + 1\<close> frames and its last frame
  shows the formatted target.
\<close>

theorem countUp_completes:
  assumes "0 < cu_duration cu" and "sorted_wrt (<) ts" and "\<forall>t \<in> set ts. cu_start cu \<le> t"
    and "nat (cu_duration cu) < length ts"
  shows "last (run_frames cu ts) = final_text cu \<and> length (run_frames cu ts) \<le> nat (cu_duration cu) + 1"
proof
  have "cu_start cu + int (nat (cu_duration cu)) \<le> ts ! nat (cu_duration cu)"
    using sorted_less_lower_bound [OF assms(2,3,4)] .
  with assms(1,4) have "\<exists>t \<in> set ts. cu_start cu + cu_duration cu \<le> t"
    by (metis nth_mem int_nat_eq less_le_not_le)
  with assms(1) show "last (run_frames cu ts) = final_text cu"
    by (rule run_frames_last)
  from run_frames_length [OF assms(1,2,3)] show "length (run_frames cu ts) \<le> nat (cu_duration cu) + 1"
    by simp
qed

theorem countUp_completes_witness:
  "last (run_frames \<lparr>cu_element = ''million-parts'', cu_target = 40, cu_duration = 3,
                     cu_suffix = ''over'', cu_start = 0\<rparr> [0, 1, 2, 3]) = ''Over 40''"
proof -
  have "last (run_frames \<lparr>cu_element = ''million-parts'', cu_target = 40, cu_duration = 3,
                     cu_suffix = ''over'', cu_start = 0\<rparr> [0, 1, 2, 3]) =
        final_text \<lparr>cu_element = ''million-parts'', cu_target = 40, cu_duration = 3,
                     cu_suffix = ''over'', cu_start = 0\<rparr>"
    using countUp_completes [of "\<lparr>cu_element = ''million-parts'', cu_target = 40, cu_duration = 3,
                     cu_suffix = ''over'', cu_start = 0\<rparr>" "[0, 1, 2, 3]"] by simp
  then show ?thesis by (simp add: final_text_def format_simps)
qed

text \<open>
  C20: a running frame needs no fractions. Between the start and the end time, the
  number a frame shows, \<^verbatim>\<open>Math.round(target * easeOutQuad)\<close>, is the integer quotient
  \<open>(2 t (D\<^sup>2 - (D - e)\<^sup>2) + D\<^sup>2) div 2D\<^sup>2\<close> of the target \<open>t\<close>, the duration
  \<open>D\<close> and the elapsed time \<open>e\<close>.
\<close>

theorem frame_value_int:
  assumes "0 < cu_duration cu" and "cu_start cu \<le> now" and "now \<le> cu_start cu + cu_duration cu"
  defines "e \<equiv> now - cu_start cu" and "D \<equiv> cu_duration cu"
  shows "frame_value cu now =
           (2 * (cu_target cu * (D * D - (D - e) * (D - e))) + D * D) div (2 * (D * D))"
proof -
  from assms(1) have pos: "0 < D * D" by (simp add: D_def)
  have cv: "current_value cu now = of_int (cu_target cu * (D * D - (D - e) * (D - e))) / of_int (D * D)"
    using current_value_running [OF assms(1-3)] by (simp only: e_def D_def)
  show ?thesis
    unfolding frame_value_def cv by (rule js_round_div_int [OF pos])
qed

theorem frame_value_int_witness:
  "frame_value \<lparr>cu_element = ''satisfied-customers'', cu_target = 50000, cu_duration = 2500,
                cu_suffix = ''+'', cu_start = 0\<rparr> 1250 = 37500"
  using frame_value_int [of "\<lparr>cu_element = ''satisfied-customers'', cu_target = 50000,
     cu_duration = 2500, cu_suffix = ''+'', cu_start = 0\<rparr>" 1250] by simp

text \<open>
  C22: the shown number stays within bounds. For a non-negative target and a frame at or
  after the start, the number a frame shows lies between 0 and the target.
\<close>

theorem frame_value_bounds:
  assumes "0 \<le> cu_target cu" and "0 < cu_duration cu" and "cu_start cu \<le> now"
  shows "0 \<le> frame_value cu now \<and> frame_value cu now \<le> cu_target cu"
proof -
  have p: "0 \<le> progress cu now" "progress cu now \<le> 1"
    using assms by (simp_all add: progress_nonneg progress_le_1)
  then have e: "0 \<le> ease_out_quad (progress cu now)" "ease_out_quad (progress cu now) \<le> 1"
    using ease_out_quad_range by blast+
  with assms(1) have "0 \<le> current_value cu now"
    by (simp add: current_value_def)
  moreover from e assms(1) have "current_value cu now \<le> of_int (cu_target cu)"
    unfolding current_value_def by (metis mult_left_le of_int_0_le_iff)
  ultimately have "js_round 0 \<le> js_round (current_value cu now)"
    and "js_round (current_value cu now) \<le> js_round (of_int (cu_target cu))"
    by (blast intro: js_round_mono)+
  then show ?thesis by (simp add: frame_value_def)
qed

theorem frame_value_bounds_witness:
  "0 \<le> frame_value \<lparr>cu_element = ''inventory-yards'', cu_target = 2000, cu_duration = 2500,
                     cu_suffix = ''+'', cu_start = 100\<rparr> 900 \<and>
   frame_value \<lparr>cu_element = ''inventory-yards'', cu_target = 2000, cu_duration = 2500,
                cu_suffix = ''+'', cu_start = 100\<rparr> 900 \<le> 2000"
  using frame_value_bounds [of "\<lparr>cu_element = ''inventory-yards'', cu_target = 2000,
     cu_duration = 2500, cu_suffix = ''+'', cu_start = 100\<rparr>" 900] by simp

text \<open>
  C23: the count never goes down. For a non-negative target, a later frame shows a
  number at least as large as an earlier one, whatever the timestamps.
\<close>

theorem frame_value_mono:
  assumes "0 \<le> cu_target cu" and "0 < cu_duration cu" and "t1 \<le> t2"
  shows "frame_value cu t1 \<le> frame_value cu t2"
proof -
  have "ease_out_quad (progress cu t1) \<le> ease_out_quad (progress cu t2)"
    using assms by (intro ease_out_quad_mono progress_mono progress_le_1)
  with assms(1) have "current_value cu t1 \<le> current_value cu t2"
    unfolding current_value_def by (intro mult_left_mono) simp_all
  then show ?thesis by (simp add: frame_value_def js_round_mono)
qed

theorem frame_value_mono_witness:
  "frame_value \<lparr>cu_element = ''engine-sale'', cu_target = 40000, cu_duration = 2500,
                cu_suffix = ''k'', cu_start = 0\<rparr> 1000 \<le>
   frame_value \<lparr>cu_element = ''engine-sale'', cu_target = 40000, cu_duration = 2500,
                cu_suffix = ''k'', cu_start = 0\<rparr> 2000"
  using frame_value_mono [of "\<lparr>cu_element = ''engine-sale'', cu_target = 40000,
     cu_duration = 2500, cu_suffix = ''k'', cu_start = 0\<rparr>" 1000 2000] by simp

text \<open>
  C24: the \<^verbatim>\<open>+\<close> display is the plain number with separators. For a non-negative
  value, removing the commas from what a \<^verbatim>\<open>'+'\<close> counter shows gives the decimal
  digits of \<^verbatim>\<open>Math.round(value)\<close> followed by \<^verbatim>\<open>+\<close>, and those digits read back to
  the rounded value.
\<close>

theorem plus_display_roundtrip:
  assumes "0 \<le> x"
  shows "filter (\<lambda>c. c \<noteq> CHR '','') (format_count ''+'' x) = dec_string (nat (js_round x)) @ ''+'' \<and>
         nat_of_dec (dec_string (nat (js_round x))) = nat (js_round x)"
  using js_round_nonneg [OF assms]
  by (simp add: format_count_def js_locale_string_def group3_strip_commas not_less)

theorem plus_display_roundtrip_witness:
  "filter (\<lambda>c. c \<noteq> CHR '','') (format_count ''+'' 50000) = ''50000+''"
  using plus_display_roundtrip [of 50000] by (simp add: js_simps digit_char_def)

text \<open>
  C27: the progress is not clamped below. The code takes only \<^verbatim>\<open>Math.min(..., 1)\<close>;
  for every counter with a positive target and duration, a frame run before the start time
  (\<^verbatim>\<open>Date.now()\<close> gone back, a wall-clock adjustment) has a negative progress,
  shows a negative or zero number and asks for a next frame.
\<close>

theorem clock_backwards_negative:
  "0 < cu_duration cu \<Longrightarrow> 0 < cu_target cu \<Longrightarrow> now < cu_start cu \<Longrightarrow>
   progress cu now < 0 \<and> current_value cu now < 0 \<and> frame_value cu now \<le> 0 \<and> snd (animate cu now)"
proof -
  assume d: "0 < cu_duration cu" and t: "0 < cu_target cu" and n: "now < cu_start cu"
  have "of_int (now - cu_start cu) / of_int (cu_duration cu) < (0::rat)"
    using d n by (simp add: divide_neg_pos)
  then have p: "progress cu now < 0" by (simp add: progress_def)
  have "ease_out_quad (progress cu now) < 0"
    using p by (simp add: ease_out_quad_def algebra_simps)
  then have c: "current_value cu now < 0"
    using t by (simp add: current_value_def mult_pos_neg)
  then have "frame_value cu now \<le> 0"
    unfolding frame_value_def using js_round_mono [of "current_value cu now" 0] by simp
  with p c show ?thesis by (simp add: animate_def)
qed

theorem clock_backwards_negative_witness:
  "animate \<lparr>cu_element = ''satisfied-customers'', cu_target = 50000, cu_duration = 2500,
            cu_suffix = ''+'', cu_start = 5000\<rparr> 0 = (''-400,000+'', True) \<and>
   current_value \<lparr>cu_element = ''satisfied-customers'', cu_target = 50000, cu_duration = 2500,
            cu_suffix = ''+'', cu_start = 5000\<rparr> 0 < 0"
proof -
  have "progress \<lparr>cu_element = ''satisfied-customers'', cu_target = 50000, cu_duration = 2500,
            cu_suffix = ''+'', cu_start = 5000\<rparr> 0 < 0 \<and> current_value \<lparr>cu_element = ''satisfied-customers'', cu_target = 50000, cu_duration = 2500,
            cu_suffix = ''+'', cu_start = 5000\<rparr> 0 < 0 \<and> frame_value \<lparr>cu_element = ''satisfied-customers'', cu_target = 50000, cu_duration = 2500,
            cu_suffix = ''+'', cu_start = 5000\<rparr> 0 \<le> 0 \<and> snd (animate \<lparr>cu_element = ''satisfied-customers'', cu_target = 50000, cu_duration = 2500,
            cu_suffix = ''+'', cu_start = 5000\<rparr> 0)"
    by (rule clock_backwards_negative) simp_all
  moreover have "animate \<lparr>cu_element = ''satisfied-customers'', cu_target = 50000, cu_duration = 2500,
            cu_suffix = ''+'', cu_start = 5000\<rparr> 0 = (''-400,000+'', True)"
    by (simp add: animate_def current_value_def ease_out_quad_def progress_def format_simps)
  ultimately show ?thesis by simp
qed

end
