(* ===== verification/Counters.thy ===== *)
theory Counters
  imports Animation
begin

text \<open>
  The counter engine of \<^verbatim>\<open>part.js\<close> (lines 2--22 and 74--226): the four counter
  containers, the \<^verbatim>\<open>counted\<close> class that marks a container whose animation has been
  started, the intersection observers, and the timers the page arms. The state is the
  part of the page these functions read and write; every handler is a function of it,
  and the browser's choices (which timer fires, which intersection entries arrive, a
  call of \<^verbatim>\<open>window.debugCounters()\<close>) are the events of a step function.
\<close>

subsection \<open>State\<close>

text \<open>A counter container: the id of its \<^verbatim>\<open>h2\<close> child, if it has one, and its
  \<^verbatim>\<open>counted\<close> class.\<close>

record counter_div =
  h2_id :: "dom_id option"
  counted :: bool

text \<open>The callbacks the engine passes to \<^verbatim>\<open>setTimeout\<close>.\<close>

datatype counter_cb =
    CbInit          \<comment> \<open>\<^verbatim>\<open>initializeCounters\<close> (lines 19--21, 144, 211, 219)\<close>
  | CbFallback      \<comment> \<open>the 10-second check of lines 172--182\<close>
  | CbJQueryReady   \<comment> \<open>jQuery's ready callback, lines 2--22\<close>

record counter_page =
  divs :: "dom_id \<Rightarrow> counter_div option"   \<comment> \<open>\<^verbatim>\<open>document.getElementById\<close>\<close>
  io_supported :: bool                      \<comment> \<open>\<^verbatim>\<open>'IntersectionObserver' in window\<close>\<close>
  observers :: "dom_id list list"           \<comment> \<open>targets of each observer created\<close>
  started :: "(dom_id \<times> count_up) list"      \<comment> \<open>animations started, per container\<close>
  ctimers :: "counter_cb timers"
  cnow :: nat                               \<comment> \<open>\<^verbatim>\<open>Date.now()\<close>\<close>
  dcl_pending :: bool                       \<comment> \<open>DOMContentLoaded not yet fired\<close>

definition counterDivs :: "dom_id list" where
  "counterDivs = [''engine-sale-div'', ''satisfied-customers-div'', ''million-parts-div'',
                  ''inventory-yards-div'']"

definition is_counted :: "counter_page \<Rightarrow> dom_id \<Rightarrow> bool" where
  "is_counted s d = (case divs s d of Some x \<Rightarrow> counted x | None \<Rightarrow> False)"

definition mark_counted :: "dom_id \<Rightarrow> counter_page \<Rightarrow> counter_page" where
  "mark_counted d s =
     s\<lparr>divs := (divs s)(d := map_option (\<lambda>x. x\<lparr>counted := True\<rparr>) (divs s d))\<rparr>"

definition set_timeout :: "counter_cb \<Rightarrow> nat \<Rightarrow> counter_page \<Rightarrow> counter_page" where
  "set_timeout cb ms s = s\<lparr>ctimers := add_timer (cnow s + ms, cb) (ctimers s)\<rparr>"

text \<open>\<^verbatim>\<open>countUp(h2, target, 2500, suffix)\<close> for the container \<open>d\<close>: the element is
  present at every call site, so the call starts an animation now.\<close>

definition start_count :: "dom_id \<Rightarrow> dom_id \<Rightarrow> int \<Rightarrow> string \<Rightarrow> counter_page \<Rightarrow> counter_page" where
  "start_count d h2 target suffix s =
     (case countUp (Some h2) target 2500 suffix (int (cnow s)) of
        None \<Rightarrow> s
      | Some cu \<Rightarrow> s\<lparr>started := started s @ [(d, cu)]\<rparr>)"

subsection \<open>onIntersection (lines 74--110)\<close>

text \<open>The \<^verbatim>\<open>switch\<close> on the \<^verbatim>\<open>h2\<close> id: target and suffix; \<open>None\<close> is the
  \<^verbatim>\<open>default\<close> branch, which only warns.\<close>

definition intersection_config :: "dom_id \<Rightarrow> (int \<times> string) option" where
  "intersection_config h =
     (if h = ''engine-sale'' then Some (40000, ''k'')
      else if h = ''satisfied-customers'' then Some (50000, ''+'')
      else if h = ''million-parts'' then Some (40, ''over'')
      else if h = ''inventory-yards'' then Some (2000, ''+'')
      else None)"

text \<open>
  One entry of the observer \<open>i\<close>: an intersecting, not yet counted container with an
  \<^verbatim>\<open>h2\<close> starts the animation its \<^verbatim>\<open>h2\<close> id selects, is marked counted and is no
  longer observed by \<open>i\<close>. A container without \<^verbatim>\<open>h2\<close> only logs (the \<^verbatim>\<open>return\<close>
  leaves the \<^verbatim>\<open>forEach\<close> callback of this entry).
\<close>

definition on_entry :: "nat \<Rightarrow> counter_page \<Rightarrow> dom_id \<times> bool \<Rightarrow> counter_page" where
  "on_entry i s entry =
     (let (d, intersecting) = entry in
      if intersecting \<and> \<not> is_counted s d then
        (case divs s d of
           None \<Rightarrow> s
         | Some x \<Rightarrow>
             (case h2_id x of
                None \<Rightarrow> s
              | Some h \<Rightarrow>
                  let s1 = (case intersection_config h of
                              None \<Rightarrow> s
                            | Some (target, suffix) \<Rightarrow> start_count d h target suffix s);
                      s2 = mark_counted d s1
                  in s2\<lparr>observers := (observers s2)[i := removeAll d (observers s2 ! i)]\<rparr>))
      else s)"

definition onIntersection :: "nat \<Rightarrow> (dom_id \<times> bool) list \<Rightarrow> counter_page \<Rightarrow> counter_page" where
  "onIntersection i entries s = foldl (on_entry i) s entries"

subsection \<open>triggerCountersImmediately (lines 186--206)\<close>

definition counterConfigs :: "(dom_id \<times> int \<times> string) list" where
  "counterConfigs =
     [(''engine-sale-div'', 40000, ''k''), (''satisfied-customers-div'', 50000, ''+''),
      (''million-parts-div'', 40, ''over''), (''inventory-yards-div'', 2000, ''+'')]"

definition trigger_one :: "counter_page \<Rightarrow> dom_id \<times> int \<times> string \<Rightarrow> counter_page" where
  "trigger_one s cfg =
     (let (d, target, suffix) = cfg in
      case divs s d of
        None \<Rightarrow> s
      | Some x \<Rightarrow>
          (case h2_id x of
             None \<Rightarrow> s
           | Some h \<Rightarrow> if \<not> counted x then mark_counted d (start_count d h target suffix s) else s))"

definition triggerCountersImmediately :: "counter_page \<Rightarrow> counter_page" where
  "triggerCountersImmediately s = foldl trigger_one s counterConfigs"

subsection \<open>initializeCounters (lines 113--183)\<close>

text \<open>The check of lines 124--139: the container exists and has an \<^verbatim>\<open>h2\<close>.\<close>

definition has_h2 :: "counter_page \<Rightarrow> dom_id \<Rightarrow> bool" where
  "has_h2 s d = (case divs s d of None \<Rightarrow> False | Some x \<Rightarrow> h2_id x \<noteq> None)"

definition all_found :: "counter_page \<Rightarrow> bool" where
  "all_found s = (\<forall>d \<in> set counterDivs. has_h2 s d)"

definition initializeCounters :: "counter_page \<Rightarrow> counter_page" where
  "initializeCounters s =
     (if \<not> all_found s then set_timeout CbInit 1000 s
      else if \<not> io_supported s then triggerCountersImmediately s
      else set_timeout CbFallback 10000
             (s\<lparr>observers := observers s @ [filter (\<lambda>d. divs s d \<noteq> None) counterDivs]\<rparr>))"

text \<open>The 10-second fallback: trigger when some existing container is not counted.\<close>

definition counter_fallback :: "counter_page \<Rightarrow> counter_page" where
  "counter_fallback s =
     (if filter (\<lambda>d. divs s d \<noteq> None \<and> \<not> is_counted s d) counterDivs \<noteq> []
      then triggerCountersImmediately s else s)"

subsection \<open>Page load (lines 2--22, 209--220)\<close>

text \<open>
  Evaluating the script: the DOMContentLoaded listener of line 209 and jQuery's ready
  callback are registered; if the document is still loading, the listener of line 216
  too, and otherwise \<^verbatim>\<open>initializeCounters\<close> is scheduled after 100 ms (line 219) and
  the ready callback, the document being ready, runs as a task of its own.
\<close>

definition script_load :: "bool \<Rightarrow> counter_page \<Rightarrow> counter_page" where
  "script_load loading s =
     (if loading then s\<lparr>dcl_pending := True\<rparr>
      else set_timeout CbJQueryReady 0 (set_timeout CbInit 100 (s\<lparr>dcl_pending := False\<rparr>)))"

text \<open>
  DOMContentLoaded: the listeners in registration order, the one of line 209 (schedule
  after 100 ms) and the one of line 216 (initialize now); jQuery runs its ready callback
  as a task of its own.
\<close>

definition dom_content_loaded :: "counter_page \<Rightarrow> counter_page" where
  "dom_content_loaded s =
     set_timeout CbJQueryReady 0
       (initializeCounters (set_timeout CbInit 100 (s\<lparr>dcl_pending := False\<rparr>)))"

text \<open>jQuery's ready callback: the field handlers it binds are the form's (see the form
  theories); here it schedules \<^verbatim>\<open>initializeCounters\<close> after 500 ms.\<close>

definition jquery_ready :: "counter_page \<Rightarrow> counter_page" where
  "jquery_ready s = set_timeout CbInit 500 s"

definition run_callback :: "counter_cb \<Rightarrow> counter_page \<Rightarrow> counter_page" where
  "run_callback cb s =
     (case cb of
        CbInit \<Rightarrow> initializeCounters s
      | CbFallback \<Rightarrow> counter_fallback s
      | CbJQueryReady \<Rightarrow> jquery_ready s)"

subsection \<open>Events\<close>

datatype counter_event =
    DomContentLoaded
  | Tick                                   \<comment> \<open>the next timer fires\<close>
  | Wait nat                               \<comment> \<open>time passes, no timer due\<close>
  | Intersect nat "(dom_id \<times> bool) list"   \<comment> \<open>observer \<open>i\<close> reports entries\<close>
  | DebugCounters                          \<comment> \<open>\<^verbatim>\<open>window.debugCounters()\<close>, lines 223--226\<close>

fun counter_step :: "counter_page \<Rightarrow> counter_event \<Rightarrow> counter_page option" where
  "counter_step s DomContentLoaded =
     (if dcl_pending s then Some (dom_content_loaded s) else None)"
| "counter_step s Tick =
     (case ctimers s of
        [] \<Rightarrow> None
      | (t, cb) # rest \<Rightarrow> Some (run_callback cb (s\<lparr>ctimers := rest, cnow := max t (cnow s)\<rparr>)))"
| "counter_step s (Wait n) =
     (if (\<forall>(t, cb) \<in> set (ctimers s). cnow s + n \<le> t) then Some (s\<lparr>cnow := cnow s + n\<rparr>) else None)"
| "counter_step s (Intersect i entries) =
     (if i < length (observers s) \<and> (\<forall>(d, b) \<in> set entries. d \<in> set (observers s ! i))
      then Some (onIntersection i entries s) else None)"
| "counter_step s DebugCounters = Some (triggerCountersImmediately s)"

fun counter_run :: "counter_page \<Rightarrow> counter_event list \<Rightarrow> counter_page option" where
  "counter_run s [] = Some s"
| "counter_run s (e # es) =
     (case counter_step s e of None \<Rightarrow> None | Some s' \<Rightarrow> counter_run s' es)"

inductive counter_reach :: "counter_page \<Rightarrow> counter_page \<Rightarrow> bool" where
  reach_refl: "counter_reach s s"
| reach_step: "counter_reach s0 s \<Longrightarrow> counter_step s e = Some s' \<Longrightarrow> counter_reach s0 s'"

text \<open>
  The order on pages a handler can only go up in: the counted containers, the list of
  started animations (only extended), and the containers with their \<^verbatim>\<open>h2\<close> ids
  (never changed).
\<close>

definition engine_le :: "counter_page \<Rightarrow> counter_page \<Rightarrow> bool" where
  "engine_le s s' =
     ((\<forall>d. is_counted s d \<longrightarrow> is_counted s' d) \<and>
      (\<forall>d. map_option h2_id (divs s' d) = map_option h2_id (divs s d)) \<and>
      (\<exists>xs. started s' = started s @ xs))"

subsection \<open>Each container is animated at most once\<close>

text \<open>
  The invariant: the containers of the started animations are distinct, and each of
  them carries the \<^verbatim>\<open>counted\<close> class.
\<close>

definition engine_inv :: "counter_page \<Rightarrow> bool" where
  "engine_inv s = (distinct (map fst (started s)) \<and> (\<forall>p \<in> set (started s). is_counted s (fst p)))"

subsection \<open>A counted container is never started again\<close>

text \<open>
  Every animation a handler starts is for a container that was not counted when the
  handler began: the \<^verbatim>\<open>counted\<close> check of lines 76 and 200 is the claim-once guard.
\<close>

definition fresh_starts :: "counter_page \<Rightarrow> counter_page \<Rightarrow> bool" where
  "fresh_starts s s' =
     (engine_le s s' \<and> (\<forall>p \<in> set (drop (length (started s)) (started s')). \<not> is_counted s (fst p)))"

definition init_pending :: "counter_page \<Rightarrow> bool" where
  "init_pending s = (dcl_pending s \<or> CbInit \<in> snd ` set (ctimers s))"

subsection \<open>The page's markup\<close>

text \<open>Every started animation has the duration 2500 and a target and suffix of the table.\<close>

definition spec_starts :: "counter_page \<Rightarrow> bool" where
  "spec_starts s =
     list_all (\<lambda>(d, cu). cu_duration cu = 2500 \<and> (cu_target cu, cu_suffix cu) \<in> set (map snd counterConfigs))
       (started s)"

text \<open>
  The containers as the landing page declares them (the markup is not part of the
  sources; its ids are those the script looks up): each container holds an \<^verbatim>\<open>h2\<close>
  whose id is the container's id without \<^verbatim>\<open>-div\<close>, and none is counted yet.
\<close>

definition page_divs :: "dom_id \<Rightarrow> counter_div option" where
  "page_divs =
     [''engine-sale-div'' \<mapsto> \<lparr>h2_id = Some ''engine-sale'', counted = False\<rparr>,
      ''satisfied-customers-div'' \<mapsto> \<lparr>h2_id = Some ''satisfied-customers'', counted = False\<rparr>,
      ''million-parts-div'' \<mapsto> \<lparr>h2_id = Some ''million-parts'', counted = False\<rparr>,
      ''inventory-yards-div'' \<mapsto> \<lparr>h2_id = Some ''inventory-yards'', counted = False\<rparr>]"

definition initial_page :: "(dom_id \<Rightarrow> counter_div option) \<Rightarrow> bool \<Rightarrow> counter_page" where
  "initial_page dv io =
     \<lparr>divs = dv, io_supported = io, observers = [], started = [], ctimers = [], cnow = 0,
      dcl_pending = False\<rparr>"

text \<open>Two variants of the markup: one container missing, and an \<^verbatim>\<open>h2\<close> id with a typo.\<close>

definition broken_divs :: "dom_id \<Rightarrow> counter_div option" where
  "broken_divs = page_divs(''inventory-yards-div'' := None)"

definition typo_divs :: "dom_id \<Rightarrow> counter_div option" where
  "typo_divs = page_divs(''engine-sale-div'' \<mapsto> \<lparr>h2_id = Some ''engine-sales'', counted = False\<rparr>)"

subsection \<open>What the handlers change\<close>

lemma divs_start_count [simp]: "divs (start_count d h t suf s) = divs s"
  and observers_start_count [simp]: "observers (start_count d h t suf s) = observers s"
  and cnow_start_count [simp]: "cnow (start_count d h t suf s) = cnow s"
  and ctimers_start_count [simp]: "ctimers (start_count d h t suf s) = ctimers s"
  and io_start_count [simp]: "io_supported (start_count d h t suf s) = io_supported s"
  and started_start_count:
    "started (start_count d h t suf s) =
       started s @ [(d, \<lparr>cu_element = h, cu_target = t, cu_duration = 2500,
                          cu_suffix = suf, cu_start = int (cnow s)\<rparr>)]"
  by (simp_all add: start_count_def countUp_def)

lemma started_mark_counted [simp]: "started (mark_counted d s) = started s"
  and observers_mark_counted [simp]: "observers (mark_counted d s) = observers s"
  and cnow_mark_counted [simp]: "cnow (mark_counted d s) = cnow s"
  and ctimers_mark_counted [simp]: "ctimers (mark_counted d s) = ctimers s"
  and io_mark_counted [simp]: "io_supported (mark_counted d s) = io_supported s"
  and h2_mark_counted [simp]:
    "map_option h2_id (divs (mark_counted d s) d') = map_option h2_id (divs s d')"
  by (simp_all add: mark_counted_def option.map_comp comp_def)

lemma is_counted_mark_counted [simp]:
  "is_counted (mark_counted d s) d' = (is_counted s d' \<or> (d' = d \<and> divs s d \<noteq> None))"
  by (auto simp: is_counted_def mark_counted_def split: option.splits)

lemma is_counted_start_count [simp]: "is_counted (start_count d h t suf s) = is_counted s"
  by (simp add: is_counted_def fun_eq_iff)

lemma set_timeout_simps [simp]:
  "divs (set_timeout cb ms s) = divs s"
  "started (set_timeout cb ms s) = started s"
  "observers (set_timeout cb ms s) = observers s"
  "cnow (set_timeout cb ms s) = cnow s"
  "io_supported (set_timeout cb ms s) = io_supported s"
  "ctimers (set_timeout cb ms s) = add_timer (cnow s + ms, cb) (ctimers s)"
  "is_counted (set_timeout cb ms s) = is_counted s"
  by (simp_all add: set_timeout_def is_counted_def fun_eq_iff)

lemma is_counted_update_simps [simp]:
  "is_counted (s\<lparr>observers := os\<rparr>) = is_counted s"
  "is_counted (s\<lparr>ctimers := ts\<rparr>) = is_counted s"
  "is_counted (s\<lparr>cnow := n\<rparr>) = is_counted s"
  "is_counted (s\<lparr>dcl_pending := b\<rparr>) = is_counted s"
  by (simp_all add: is_counted_def fun_eq_iff)

lemma engine_le_refl [simp]: "engine_le s s"
  by (auto simp: engine_le_def)

lemma engine_le_trans: "engine_le s1 s2 \<Longrightarrow> engine_le s2 s3 \<Longrightarrow> engine_le s1 s3"
  unfolding engine_le_def by (metis append.assoc)

lemma engine_le_mark_counted: "engine_le s (mark_counted d s)"
  by (simp add: engine_le_def)

lemma engine_le_start_count: "engine_le s (start_count d h t suf s)"
  by (auto simp: engine_le_def started_start_count)

lemma engine_le_set_timeout: "engine_le s (set_timeout cb ms s)"
  by (simp add: engine_le_def)

lemma engine_le_updates:
  "engine_le s (s\<lparr>observers := os\<rparr>)"
  "engine_le s (s\<lparr>ctimers := ts, cnow := n\<rparr>)"
  "engine_le s (s\<lparr>cnow := n\<rparr>)"
  "engine_le s (s\<lparr>dcl_pending := b\<rparr>)"
  by (simp_all add: engine_le_def)

lemma engine_le_observers [simp]: "engine_le s (s'\<lparr>observers := os\<rparr>) = engine_le s s'"
  by (simp add: engine_le_def is_counted_def)

lemma engine_le_mark_right: "engine_le s s' \<Longrightarrow> engine_le s (mark_counted d s')"
  by (rule engine_le_trans [OF _ engine_le_mark_counted])

lemmas engine_le_basic =
  engine_le_mark_counted engine_le_start_count engine_le_set_timeout engine_le_updates

lemma engine_le_foldl:
  assumes "\<And>s x. engine_le s (f s x)"
  shows "engine_le s (foldl f s xs)"
proof (induction xs arbitrary: s)
  case Nil
  then show ?case by simp
next
  case (Cons x xs)
  from assms [of s x] Cons.IH [of "f s x"] show ?case
    by (simp add: engine_le_trans [of s "f s x"])
qed

lemma engine_le_on_entry: "engine_le s (on_entry i s entry)"
  unfolding on_entry_def Let_def
  by (auto split: prod.splits option.splits
      intro: engine_le_mark_right engine_le_start_count engine_le_mark_counted)

lemma engine_le_trigger_one: "engine_le s (trigger_one s cfg)"
  unfolding trigger_one_def
  by (auto split: prod.splits option.splits
      intro: engine_le_trans [OF engine_le_start_count engine_le_mark_counted])

lemma engine_le_onIntersection: "engine_le s (onIntersection i entries s)"
  unfolding onIntersection_def by (rule engine_le_foldl [OF engine_le_on_entry])

lemma engine_le_trigger: "engine_le s (triggerCountersImmediately s)"
  unfolding triggerCountersImmediately_def by (rule engine_le_foldl [OF engine_le_trigger_one])

lemma engine_le_initialize: "engine_le s (initializeCounters s)"
  unfolding initializeCounters_def
  by (auto intro: engine_le_trigger engine_le_trans [OF _ engine_le_set_timeout]
           simp: engine_le_set_timeout)

lemma engine_le_fallback: "engine_le s (counter_fallback s)"
  by (simp add: counter_fallback_def engine_le_trigger)

lemma engine_le_run_callback: "engine_le s (run_callback cb s)"
  by (cases cb) (simp_all add: run_callback_def engine_le_initialize engine_le_fallback
      jquery_ready_def engine_le_set_timeout)

lemma engine_le_dom_content_loaded: "engine_le s (dom_content_loaded s)"
proof -
  let ?s1 = "set_timeout CbInit 100 (s\<lparr>dcl_pending := False\<rparr>)"
  have "engine_le s ?s1"
    by (rule engine_le_trans [OF engine_le_updates(4) engine_le_set_timeout])
  then have "engine_le s (initializeCounters ?s1)"
    by (rule engine_le_trans [OF _ engine_le_initialize])
  then show ?thesis
    unfolding dom_content_loaded_def by (rule engine_le_trans [OF _ engine_le_set_timeout])
qed

lemma engine_le_step: "counter_step s e = Some s' \<Longrightarrow> engine_le s s'"
proof (cases e)
  case Tick
  moreover assume "counter_step s e = Some s'"
  ultimately obtain t cb rest where "ctimers s = (t, cb) # rest"
    and "s' = run_callback cb (s\<lparr>ctimers := rest, cnow := max t (cnow s)\<rparr>)"
    by (auto split: list.splits)
  then show ?thesis
    by (metis engine_le_run_callback engine_le_trans engine_le_updates(2))
qed (auto split: if_splits intro: engine_le_dom_content_loaded engine_le_onIntersection
          engine_le_trigger engine_le_updates)

lemma engine_le_reach: "counter_reach s0 s \<Longrightarrow> engine_le s0 s"
  by (induction rule: counter_reach.induct) (auto intro: engine_le_trans engine_le_step)

subsection \<open>Each container is animated at most once\<close>

lemma engine_inv_mark: "engine_inv s \<Longrightarrow> engine_inv (mark_counted d s)"
  by (auto simp: engine_inv_def)

lemma engine_inv_start_mark:
  assumes "engine_inv s" and "\<not> is_counted s d" and "divs s d \<noteq> None"
  shows "engine_inv (mark_counted d (start_count d h t suf s))"
proof -
  from assms(1,2) have "d \<notin> fst ` set (started s)"
    by (auto simp: engine_inv_def)
  with assms show ?thesis
    by (auto simp: engine_inv_def started_start_count)
qed

lemma engine_inv_updates [simp]:
  "engine_inv (s\<lparr>observers := os\<rparr>) = engine_inv s"
  "engine_inv (s\<lparr>ctimers := ts\<rparr>) = engine_inv s"
  "engine_inv (s\<lparr>cnow := n\<rparr>) = engine_inv s"
  "engine_inv (s\<lparr>dcl_pending := b\<rparr>) = engine_inv s"
  "engine_inv (set_timeout cb ms s) = engine_inv s"
  by (simp_all add: engine_inv_def)

lemma engine_inv_on_entry: "engine_inv s \<Longrightarrow> engine_inv (on_entry i s entry)"
  unfolding on_entry_def Let_def
  by (auto split: prod.splits option.splits
      intro: engine_inv_mark engine_inv_start_mark)

lemma engine_inv_trigger_one: "engine_inv s \<Longrightarrow> engine_inv (trigger_one s cfg)"
  unfolding trigger_one_def
  by (auto split: prod.splits option.splits intro!: engine_inv_start_mark
      simp: is_counted_def)

lemma engine_inv_trigger: "engine_inv s \<Longrightarrow> engine_inv (triggerCountersImmediately s)"
  unfolding triggerCountersImmediately_def
  by (rule foldl_invariant [where P = engine_inv, OF engine_inv_trigger_one])

lemma engine_inv_onIntersection: "engine_inv s \<Longrightarrow> engine_inv (onIntersection i es s)"
  unfolding onIntersection_def
  by (rule foldl_invariant [where P = engine_inv, OF engine_inv_on_entry])

lemma engine_inv_initialize: "engine_inv s \<Longrightarrow> engine_inv (initializeCounters s)"
  by (simp add: initializeCounters_def engine_inv_trigger)

lemma engine_inv_run_callback: "engine_inv s \<Longrightarrow> engine_inv (run_callback cb s)"
  by (cases cb) (simp_all add: run_callback_def engine_inv_initialize counter_fallback_def
      engine_inv_trigger jquery_ready_def)

lemma engine_inv_step: "engine_inv s \<Longrightarrow> counter_step s e = Some s' \<Longrightarrow> engine_inv s'"
  by (cases e)
    (auto split: if_splits list.splits simp: dom_content_loaded_def engine_inv_initialize
      engine_inv_run_callback engine_inv_onIntersection engine_inv_trigger)

lemma engine_inv_reach: "counter_reach s0 s \<Longrightarrow> engine_inv s0 \<Longrightarrow> engine_inv s"
  by (induction rule: counter_reach.induct) (auto intro: engine_inv_step)

subsection \<open>A counted container is never started again\<close>

lemma fresh_starts_refl [simp]: "fresh_starts s s"
  by (simp add: fresh_starts_def)

lemma fresh_starts_trans:
  assumes "fresh_starts s1 s2" and "fresh_starts s2 s3"
  shows "fresh_starts s1 s3"
proof -
  from assms obtain xs ys where xs: "started s2 = started s1 @ xs" and ys: "started s3 = started s2 @ ys"
    by (auto simp: fresh_starts_def engine_le_def)
  from assms have le12: "engine_le s1 s2" and le23: "engine_le s2 s3"
    by (simp_all add: fresh_starts_def)
  from assms(1) xs have "\<forall>p \<in> set xs. \<not> is_counted s1 (fst p)"
    by (simp add: fresh_starts_def)
  moreover from assms(2) ys have "\<forall>p \<in> set ys. \<not> is_counted s2 (fst p)"
    by (simp add: fresh_starts_def)
  with le12 have "\<forall>p \<in> set ys. \<not> is_counted s1 (fst p)"
    by (auto simp: engine_le_def)
  ultimately show ?thesis
    using le12 le23 xs ys by (auto simp: fresh_starts_def intro: engine_le_trans)
qed

lemma fresh_starts_of_le:
  "engine_le s s' \<Longrightarrow> started s' = started s \<Longrightarrow> fresh_starts s s'"
  by (simp add: fresh_starts_def)

lemma fresh_starts_start_mark:
  "\<not> is_counted s d \<Longrightarrow> fresh_starts s (mark_counted d (start_count d h t suf s))"
  by (auto simp: fresh_starts_def started_start_count intro: engine_le_mark_right engine_le_start_count)

lemma fresh_starts_foldl:
  assumes "\<And>s x. fresh_starts s (f s x)"
  shows "fresh_starts s (foldl f s xs)"
proof (induction xs arbitrary: s)
  case Nil
  then show ?case by simp
next
  case (Cons x xs)
  show ?case
    using fresh_starts_trans [OF assms Cons.IH] by simp
qed

lemma fresh_starts_observers [simp]:
  "fresh_starts s (s'\<lparr>observers := os\<rparr>) = fresh_starts s s'"
  by (simp add: fresh_starts_def)

lemma fresh_starts_mark: "fresh_starts s (mark_counted d s)"
  by (simp add: fresh_starts_of_le engine_le_mark_counted)

lemma fresh_starts_on_entry: "fresh_starts s (on_entry i s entry)"
  unfolding on_entry_def Let_def
  by (auto split: prod.splits option.splits intro: fresh_starts_start_mark fresh_starts_mark)

lemma fresh_starts_trigger_one: "fresh_starts s (trigger_one s cfg)"
  unfolding trigger_one_def
  by (auto split: prod.splits option.splits intro!: fresh_starts_start_mark simp: is_counted_def)

lemma fresh_starts_trigger: "fresh_starts s (triggerCountersImmediately s)"
  unfolding triggerCountersImmediately_def by (rule fresh_starts_foldl [OF fresh_starts_trigger_one])

lemma fresh_starts_onIntersection: "fresh_starts s (onIntersection i es s)"
  unfolding onIntersection_def by (rule fresh_starts_foldl [OF fresh_starts_on_entry])

lemma fresh_starts_timers:
  "fresh_starts s (set_timeout cb ms s)"
  "fresh_starts s (s\<lparr>observers := os\<rparr>)"
  "fresh_starts s (s\<lparr>ctimers := ts, cnow := n\<rparr>)"
  "fresh_starts s (s\<lparr>cnow := n\<rparr>)"
  "fresh_starts s (s\<lparr>dcl_pending := b\<rparr>)"
  by (simp_all add: fresh_starts_of_le engine_le_set_timeout engine_le_updates)

lemma fresh_starts_initialize: "fresh_starts s (initializeCounters s)"
  unfolding initializeCounters_def
  by (auto intro: fresh_starts_trigger fresh_starts_trans [OF _ fresh_starts_timers(1)]
      fresh_starts_timers)

lemma fresh_starts_run_callback: "fresh_starts s (run_callback cb s)"
  by (cases cb) (simp_all add: run_callback_def fresh_starts_initialize counter_fallback_def
      fresh_starts_trigger jquery_ready_def fresh_starts_timers)

lemma fresh_starts_dom_content_loaded: "fresh_starts s (dom_content_loaded s)"
proof -
  let ?s1 = "set_timeout CbInit 100 (s\<lparr>dcl_pending := False\<rparr>)"
  have "fresh_starts s ?s1"
    by (rule fresh_starts_trans [OF fresh_starts_timers(5) fresh_starts_timers(1)])
  then have "fresh_starts s (initializeCounters ?s1)"
    by (rule fresh_starts_trans [OF _ fresh_starts_initialize])
  then show ?thesis
    unfolding dom_content_loaded_def by (rule fresh_starts_trans [OF _ fresh_starts_timers(1)])
qed

lemma fresh_starts_step: "counter_step s e = Some s' \<Longrightarrow> fresh_starts s s'"
proof (cases e)
  case DomContentLoaded
  moreover assume "counter_step s e = Some s'"
  ultimately show ?thesis
    by (auto split: if_splits intro: fresh_starts_dom_content_loaded)
next
  case Tick
  moreover assume "counter_step s e = Some s'"
  ultimately show ?thesis
    by (auto split: list.splits intro: fresh_starts_trans [OF fresh_starts_timers(3)
        fresh_starts_run_callback])
qed (auto split: if_splits intro: fresh_starts_onIntersection fresh_starts_trigger
      fresh_starts_timers)

lemma fresh_starts_reach: "counter_reach s0 s \<Longrightarrow> fresh_starts s0 s"
  by (induction rule: counter_reach.induct) (auto intro: fresh_starts_trans fresh_starts_step)

subsection \<open>The fallback counts every container\<close>

lemma has_h2_le: "engine_le s s' \<Longrightarrow> has_h2 s' d = has_h2 s d"
proof -
  assume "engine_le s s'"
  then have "map_option h2_id (divs s' d) = map_option h2_id (divs s d)"
    by (simp add: engine_le_def)
  then show ?thesis
    by (cases "divs s d"; cases "divs s' d") (simp_all add: has_h2_def)
qed

lemma all_found_le: "engine_le s s' \<Longrightarrow> all_found s' = all_found s"
  by (simp add: all_found_def has_h2_le)

lemma trigger_one_counts:
  "has_h2 s d \<Longrightarrow> is_counted (trigger_one s (d, t, suf)) d"
  by (auto simp: trigger_one_def has_h2_def is_counted_def mark_counted_def split: option.splits)

lemma trigger_fold_counts:
  "has_h2 s d \<Longrightarrow> d \<in> fst ` set cfgs \<Longrightarrow> is_counted (foldl trigger_one s cfgs) d"
proof (induction cfgs arbitrary: s)
  case Nil
  then show ?case by simp
next
  case (Cons c cfgs)
  obtain d' t suf where c: "c = (d', t, suf)" by (cases c) auto
  show ?case
  proof (cases "d' = d")
    case True
    with Cons.prems c have "is_counted (trigger_one s c) d"
      by (simp add: trigger_one_counts)
    moreover have "engine_le (trigger_one s c) (foldl trigger_one (trigger_one s c) cfgs)"
      by (rule engine_le_foldl [OF engine_le_trigger_one])
    ultimately show ?thesis by (simp add: engine_le_def)
  next
    case False
    with Cons.prems c have "d \<in> fst ` set cfgs" by auto
    moreover from Cons.prems have "has_h2 (trigger_one s c) d"
      using has_h2_le [OF engine_le_trigger_one] by blast
    ultimately show ?thesis using Cons.IH by simp
  qed
qed

lemma counterDivs_configs: "set counterDivs = fst ` set counterConfigs"
  by (simp add: counterDivs_def counterConfigs_def)

lemma trigger_counts_found:
  "has_h2 s d \<Longrightarrow> d \<in> set counterDivs \<Longrightarrow> is_counted (triggerCountersImmediately s) d"
  unfolding triggerCountersImmediately_def counterDivs_configs by (rule trigger_fold_counts)

subsection \<open>Initialization retries as long as a container is missing\<close>

lemma timers_trigger_one [simp]:
  "ctimers (trigger_one s c) = ctimers s" "dcl_pending (trigger_one s c) = dcl_pending s"
  by (auto simp: trigger_one_def start_count_def countUp_def mark_counted_def
      split: prod.splits option.splits)

lemma timers_on_entry [simp]:
  "ctimers (on_entry i s e) = ctimers s" "dcl_pending (on_entry i s e) = dcl_pending s"
  by (auto simp: on_entry_def Let_def start_count_def countUp_def mark_counted_def
      split: prod.splits option.splits)

lemma timers_trigger [simp]:
  "ctimers (triggerCountersImmediately s) = ctimers s"
  "dcl_pending (triggerCountersImmediately s) = dcl_pending s"
  unfolding triggerCountersImmediately_def by (simp_all add: foldl_field)

lemma timers_onIntersection [simp]:
  "ctimers (onIntersection i es s) = ctimers s"
  "dcl_pending (onIntersection i es s) = dcl_pending s"
  unfolding onIntersection_def by (simp_all add: foldl_field)

lemma timers_run_callback:
  "set (ctimers s) \<subseteq> set (ctimers (run_callback cb s))"
  "dcl_pending (run_callback cb s) = dcl_pending s"
  by (cases cb; auto simp: run_callback_def initializeCounters_def counter_fallback_def
      jquery_ready_def set_timeout_def)+

lemma init_pending_initialize:
  "\<not> all_found s \<Longrightarrow> CbInit \<in> snd ` set (ctimers (initializeCounters s))"
  by (force simp: initializeCounters_def)

lemma init_pending_step:
  assumes "\<not> all_found s" and "init_pending s" and "counter_step s e = Some s'"
  shows "init_pending s'"
proof (cases e)
  case DomContentLoaded
  with assms(3) have "s' = dom_content_loaded s" by (simp split: if_splits)
  moreover have "CbInit \<in> snd ` set (ctimers (set_timeout CbInit 100 (s\<lparr>dcl_pending := False\<rparr>)))"
    by force
  ultimately show ?thesis
    using timers_run_callback(1) [of _ CbInit]
    by (force simp: init_pending_def dom_content_loaded_def run_callback_def)
next
  case Tick
  with assms(3) obtain t cb rest where q: "ctimers s = (t, cb) # rest"
    and s': "s' = run_callback cb (s\<lparr>ctimers := rest, cnow := max t (cnow s)\<rparr>)"
    by (auto split: list.splits)
  show ?thesis
  proof (cases "cb = CbInit")
    case True
    have "\<not> all_found (s\<lparr>ctimers := rest, cnow := max t (cnow s)\<rparr>)"
      using assms(1) by (simp add: all_found_def has_h2_def)
    with True s' show ?thesis
      by (simp add: init_pending_def run_callback_def init_pending_initialize)
  next
    case False
    have sub: "set rest \<subseteq> set (ctimers s')"
      using timers_run_callback(1) [of "s\<lparr>ctimers := rest, cnow := max t (cnow s)\<rparr>" cb] s'
      by simp
    have dcl: "dcl_pending s' = dcl_pending s"
      using timers_run_callback(2) [of cb "s\<lparr>ctimers := rest, cnow := max t (cnow s)\<rparr>"] s'
      by simp
    from assms(2) q False have "dcl_pending s \<or> CbInit \<in> snd ` set rest"
      by (auto simp: init_pending_def)
    with sub dcl show ?thesis by (auto simp: init_pending_def)
  qed
qed (use assms in \<open>auto split: if_splits simp: init_pending_def\<close>)

lemma counter_run_reach_from:
  "counter_run s es = Some s' \<Longrightarrow> counter_reach s0 s \<Longrightarrow> counter_reach s0 s'"
proof (induction es arbitrary: s)
  case Nil
  then show ?case by simp
next
  case (Cons e es)
  then obtain s1 where s1: "counter_step s e = Some s1" and r: "counter_run s1 es = Some s'"
    by (auto split: option.splits)
  from Cons.prems(2) s1 have "counter_reach s0 s1" by (rule counter_reach.reach_step)
  with r show ?case by (rule Cons.IH)
qed

lemma counter_run_reach: "counter_run s es = Some s' \<Longrightarrow> counter_reach s s'"
  using counter_run_reach_from counter_reach.reach_refl by blast

lemma engine_inv_script_load: "started s = [] \<Longrightarrow> engine_inv (script_load loading s)"
  by (simp add: engine_inv_def script_load_def)

lemmas page_simps = script_load_def initial_page_def set_timeout_def run_callback_def
  jquery_ready_def initializeCounters_def all_found_def counterDivs_def has_h2_def page_divs_def
  counter_fallback_def triggerCountersImmediately_def counterConfigs_def trigger_one_def
  is_counted_def mark_counted_def start_count_def countUp_def onIntersection_def on_entry_def
  intersection_config_def

subsection \<open>Properties of the engine\<close>

text \<open>
  C1: each counter is animated at most once. From the page as the script finds it (no
  animation started), in every state the browser can reach by any interleaving of
  DOMContentLoaded, timers, intersection callbacks and debug calls, each container has
  at most one started animation.
\<close>

theorem at_most_once:
  assumes "counter_reach (script_load loading s0) s" and "started s0 = []"
  shows "count_list (map fst (started s)) d \<le> 1"
proof -
  from assms have "engine_inv s"
    by (blast intro: engine_inv_reach engine_inv_script_load)
  then have "distinct (map fst (started s))" by (simp add: engine_inv_def)
  then show ?thesis by (rule distinct_count_list_le_1)
qed

theorem at_most_once_witness:
  "\<exists>s. counter_reach (script_load False (initial_page page_divs True)) s \<and>
       count_list (map fst (started s)) ''engine-sale-div'' = 1"
proof -
  have "map_option (\<lambda>s. map fst (started s))
          (counter_run (script_load False (initial_page page_divs True)) [Tick, Tick, Tick, Tick, Tick])
        = Some counterDivs"
    by (simp add: page_simps)
  then obtain s where r: "counter_run (script_load False (initial_page page_divs True))
      [Tick, Tick, Tick, Tick, Tick] = Some s" and st: "map fst (started s) = counterDivs"
    by auto
  from r have reach: "counter_reach (script_load False (initial_page page_divs True)) s"
    by (rule counter_run_reach)
  have "count_list (map fst (started s)) ''engine-sale-div'' \<le> 1"
    using at_most_once [OF reach] by (simp add: initial_page_def)
  moreover from st have "count_list (map fst (started s)) ''engine-sale-div'' \<ge> 1"
    by (simp add: counterDivs_def)
  ultimately show ?thesis using reach by auto
qed

text \<open>
  C2: a counted container is never started again (claim-once). Once a container
  carries the \<^verbatim>\<open>counted\<close> class, no sequence of events starts another animation for it,
  whichever trigger (intersection, 10-second fallback, debug call) fires.
\<close>

theorem counted_never_restarts:
  assumes "counter_reach s s'" and "is_counted s d"
  shows "count_list (map fst (started s')) d = count_list (map fst (started s)) d"
proof -
  from fresh_starts_reach [OF assms(1)] obtain xs where
    xs: "started s' = started s @ xs" and fresh: "\<forall>p \<in> set xs. \<not> is_counted s (fst p)"
    by (auto simp: fresh_starts_def engine_le_def)
  from fresh assms(2) have "d \<notin> set (map fst xs)" by auto
  with xs show ?thesis by simp
qed

theorem counted_never_restarts_witness:
  "\<exists>s'. counter_reach (mark_counted ''engine-sale-div'' (initial_page page_divs False)) s' \<and>
        length (started s') = 3 \<and>
        count_list (map fst (started s')) ''engine-sale-div'' = 0"
proof -
  let ?s = "mark_counted ''engine-sale-div'' (initial_page page_divs False)"
  have "map_option (\<lambda>s. length (started s)) (counter_step ?s DebugCounters) = Some 3"
    by (simp add: page_simps)
  then obtain s' where st: "counter_step ?s DebugCounters = Some s'" and len: "length (started s') = 3"
    by auto
  have reach: "counter_reach ?s s'"
    by (rule counter_reach.reach_step [OF counter_reach.reach_refl st])
  have "is_counted ?s ''engine-sale-div''" by (simp add: page_simps)
  from counted_never_restarts [OF reach this] have
    "count_list (map fst (started s')) ''engine-sale-div'' = 0"
    by (simp add: initial_page_def mark_counted_def)
  with reach len show ?thesis by blast
qed

text \<open>
  C3: the 10-second fallback counts every counter. When all four containers and their
  \<^verbatim>\<open>h2\<close> elements exist, after the fallback callback every container is counted,
  whether or not the user scrolled to it.
\<close>

theorem fallback_counts_all:
  assumes "all_found s" and "d \<in> set counterDivs"
  shows "is_counted (counter_fallback s) d"
proof -
  from assms have h2: "has_h2 s d" by (simp add: all_found_def)
  show ?thesis
  proof (cases "filter (\<lambda>d. divs s d \<noteq> None \<and> \<not> is_counted s d) counterDivs \<noteq> []")
    case True
    with h2 assms(2) show ?thesis by (simp add: counter_fallback_def trigger_counts_found)
  next
    case False
    with assms(2) h2 show ?thesis
      by (auto simp: counter_fallback_def filter_empty_conv has_h2_def split: option.splits)
  qed
qed

theorem fallback_counts_all_witness:
  "is_counted (counter_fallback (initial_page page_divs True)) ''million-parts-div''"
  using fallback_counts_all [of "initial_page page_divs True" "''million-parts-div''"]
  by (simp add: all_found_def counterDivs_def has_h2_def page_divs_def initial_page_def)

text \<open>
  C21: both trigger paths agree on the table. The \<^verbatim>\<open>switch\<close> of \<^verbatim>\<open>onIntersection\<close>
  keyed by \<^verbatim>\<open>h2\<close> id and the \<^verbatim>\<open>counterConfigs\<close> table of
  \<^verbatim>\<open>triggerCountersImmediately\<close> keyed by container id give the same target and suffix,
  the container's id being the \<^verbatim>\<open>h2\<close> id followed by \<^verbatim>\<open>-div\<close>.
\<close>

theorem intersection_matches_immediate:
  "intersection_config h = Some (t, suf) \<longleftrightarrow> (h @ ''-div'', t, suf) \<in> set counterConfigs"
  by (auto simp: intersection_config_def counterConfigs_def)

text \<open>
  C25: initialization never gives up. While a container or its \<^verbatim>\<open>h2\<close> is missing,
  every reachable state still has an \<^verbatim>\<open>initializeCounters\<close> pending (a timer or the
  DOMContentLoaded listener): the retry of line 144 has no bound, and each of the
  page-load calls runs a retry chain of its own.
\<close>

theorem init_retries_forever:
  assumes "counter_reach s0 s" and "\<not> all_found s0" and "init_pending s0"
  shows "init_pending s"
  using assms
proof (induction rule: counter_reach.induct)
  case (reach_refl s)
  then show ?case by simp
next
  case (reach_step s0 s e s')
  from reach_step.hyps(1) have "all_found s = all_found s0"
    by (rule all_found_le [OF engine_le_reach])
  with reach_step show ?case by (blast intro: init_pending_step)
qed

theorem init_retries_forever_witness:
  "\<exists>s. counter_reach (script_load False (initial_page broken_divs True)) s \<and>
       cnow s \<ge> 5000 \<and> init_pending s"
proof -
  let ?s0 = "script_load False (initial_page broken_divs True)"
  have "map_option cnow (counter_run ?s0 (replicate 12 Tick)) = Some 5100"
    by (simp add: page_simps broken_divs_def numeral_eq_Suc)
  then obtain s where r: "counter_run ?s0 (replicate 12 Tick) = Some s" and n: "cnow s = 5100"
    by auto
  have reach: "counter_reach ?s0 s" by (rule counter_run_reach [OF r])
  have "\<not> all_found ?s0" "init_pending ?s0"
    by (simp_all add: page_simps broken_divs_def init_pending_def)
  with reach have "init_pending s" by (rule init_retries_forever)
  with reach n show ?thesis by auto
qed

text \<open>
  C26: an \<^verbatim>\<open>h2\<close> id outside the table silences the counter. When a visible,
  uncounted container's \<^verbatim>\<open>h2\<close> id is not one of the four the \<^verbatim>\<open>switch\<close> knows,
  \<^verbatim>\<open>onIntersection\<close> starts no animation but still marks the container counted, so
  no later trigger animates it.
\<close>

theorem unknown_h2_marks_counted:
  assumes "divs s d = Some x" and "h2_id x = Some h" and "intersection_config h = None"
    and "\<not> is_counted s d"
  shows "is_counted (on_entry i s (d, True)) d \<and> started (on_entry i s (d, True)) = started s"
  using assms by (simp add: on_entry_def)

theorem unknown_h2_marks_counted_witness:
  "is_counted (on_entry 0 (initial_page typo_divs True) (''engine-sale-div'', True)) ''engine-sale-div'' \<and>
   started (on_entry 0 (initial_page typo_divs True) (''engine-sale-div'', True)) = []"
  using unknown_h2_marks_counted [of "initial_page typo_divs True" "''engine-sale-div''"
      "\<lparr>h2_id = Some ''engine-sales'', counted = False\<rparr>" "''engine-sales''" 0]
  by (simp add: typo_divs_def page_divs_def initial_page_def intersection_config_def is_counted_def)

lemma spec_starts_keep [simp]:
  "spec_starts (mark_counted d s) = spec_starts s"
  "spec_starts (set_timeout cb ms s) = spec_starts s"
  "spec_starts (s\<lparr>observers := os\<rparr>) = spec_starts s"
  "spec_starts (s\<lparr>ctimers := ts, cnow := n\<rparr>) = spec_starts s"
  "spec_starts (s\<lparr>dcl_pending := b\<rparr>) = spec_starts s"
  "spec_starts (s\<lparr>cnow := n\<rparr>) = spec_starts s"
  "spec_starts (s\<lparr>ctimers := ts\<rparr>) = spec_starts s"
  by (simp_all add: spec_starts_def)

lemma spec_starts_start_count:
  "spec_starts s \<Longrightarrow> (t, suf) \<in> set (map snd counterConfigs) \<Longrightarrow> spec_starts (start_count d h t suf s)"
  by (simp add: spec_starts_def started_start_count)

lemma intersection_config_spec:
  "intersection_config h = Some c \<Longrightarrow> c \<in> set (map snd counterConfigs)"
  by (auto simp: intersection_config_def counterConfigs_def split: if_splits)

lemma spec_starts_foldl:
  assumes "\<And>s x. spec_starts s \<Longrightarrow> spec_starts (f s x)"
  shows "spec_starts s \<Longrightarrow> spec_starts (foldl f s xs)"
  by (induction xs arbitrary: s) (simp_all add: assms)

lemma spec_starts_on_entry: "spec_starts s \<Longrightarrow> spec_starts (on_entry i s entry)"
  unfolding on_entry_def Let_def
  by (auto split: prod.splits option.splits dest: intersection_config_spec
      intro: spec_starts_start_count)

lemma spec_starts_trigger_one: "spec_starts s \<Longrightarrow> cfg \<in> set counterConfigs \<Longrightarrow> spec_starts (trigger_one s cfg)"
  unfolding trigger_one_def
  by (auto split: prod.splits option.splits intro!: spec_starts_start_count) (force simp: image_iff)

lemma spec_starts_trigger: "spec_starts s \<Longrightarrow> spec_starts (triggerCountersImmediately s)"
proof -
  have "\<And>cfgs. set cfgs \<subseteq> set counterConfigs \<Longrightarrow> spec_starts s \<Longrightarrow> spec_starts (foldl trigger_one s cfgs)"
  proof -
    fix cfgs show "set cfgs \<subseteq> set counterConfigs \<Longrightarrow> spec_starts s \<Longrightarrow> spec_starts (foldl trigger_one s cfgs)"
      by (induction cfgs arbitrary: s) (auto intro: spec_starts_trigger_one)
  qed
  then show "spec_starts s \<Longrightarrow> spec_starts (triggerCountersImmediately s)"
    by (simp add: triggerCountersImmediately_def)
qed

lemma spec_starts_initialize: "spec_starts s \<Longrightarrow> spec_starts (initializeCounters s)"
  by (simp add: initializeCounters_def spec_starts_trigger)

lemma spec_starts_run_callback: "spec_starts s \<Longrightarrow> spec_starts (run_callback cb s)"
  by (cases cb) (simp_all add: run_callback_def spec_starts_initialize counter_fallback_def
      spec_starts_trigger jquery_ready_def)

lemma spec_starts_step: "spec_starts s \<Longrightarrow> counter_step s e = Some s' \<Longrightarrow> spec_starts s'"
  by (cases e) (auto split: if_splits list.splits simp: dom_content_loaded_def onIntersection_def
      spec_starts_initialize spec_starts_run_callback spec_starts_trigger
      spec_starts_foldl [OF spec_starts_on_entry])

lemma spec_starts_reach: "counter_reach s0 s \<Longrightarrow> spec_starts s0 \<Longrightarrow> spec_starts s"
  by (induction rule: counter_reach.induct) (auto intro: spec_starts_step)

lemma spec_config_final:
  "(cu_target cu, cu_suffix cu) \<in> set (map snd counterConfigs) \<Longrightarrow>
   final_text cu \<in> {''40k'', ''50,000+'', ''Over 40'', ''2,000+''}"
  by (auto simp: counterConfigs_def final_text_def format_simps)

end
