(* ===== verification/QuoteForm.thy ===== *)
theory QuoteForm
  imports JS_Base
begin

text \<open>
  The pure part of the quote form of \<^verbatim>\<open>part.js\<close>: the form data the submit handler
  reads (lines 255--266), the required-field checks with their messages and the field
  groups they mark (lines 268--312), the e-mail subject (line 321) and the HTML body of
  \<^verbatim>\<open>createEmailTableContent\<close> (lines 329--405). The body is built exactly as the
  template literal writes it, line by line with its indentation; its ten table rows are
  data (\<open>email_rows\<close>) rendered by one function, so that facts about a row are facts
  about the body.
\<close>

subsection \<open>Form data\<close>

text \<open>
  \<^verbatim>\<open>formData\<close>: the values of the form's fields at submit time. A field the page
  lacks yields \<^verbatim>\<open>undefined\<close> and an empty select \<^verbatim>\<open>null\<close>; both are falsy like the
  empty string, and the model reads them as \<open>''''\<close>.
\<close>

record quote_request =
  year :: string
  model :: string
  part_name :: string
  purchase :: string
  vin :: string
  name :: string
  email :: string
  mobile :: string
  zip_code :: string
  comment :: string

datatype field = FYear | FModel | FPartName | FPurchase | FVin | FName | FEmail | FMobile | FZip
  | FComment

fun field_value :: "quote_request \<Rightarrow> field \<Rightarrow> string" where
  "field_value d FYear = year d"
| "field_value d FModel = model d"
| "field_value d FPartName = part_name d"
| "field_value d FPurchase = purchase d"
| "field_value d FVin = vin d"
| "field_value d FName = name d"
| "field_value d FEmail = email d"
| "field_value d FMobile = mobile d"
| "field_value d FZip = zip_code d"
| "field_value d FComment = comment d"

fun set_field :: "field \<Rightarrow> string \<Rightarrow> quote_request \<Rightarrow> quote_request" where
  "set_field FYear v d = d\<lparr>year := v\<rparr>"
| "set_field FModel v d = d\<lparr>model := v\<rparr>"
| "set_field FPartName v d = d\<lparr>part_name := v\<rparr>"
| "set_field FPurchase v d = d\<lparr>purchase := v\<rparr>"
| "set_field FVin v d = d\<lparr>vin := v\<rparr>"
| "set_field FName v d = d\<lparr>name := v\<rparr>"
| "set_field FEmail v d = d\<lparr>email := v\<rparr>"
| "set_field FMobile v d = d\<lparr>mobile := v\<rparr>"
| "set_field FZip v d = d\<lparr>zip_code := v\<rparr>"
| "set_field FComment v d = d\<lparr>comment := v\<rparr>"

text \<open>The form after \<^verbatim>\<open>reset()\<close>: every field back to its empty default.\<close>

definition empty_request :: quote_request where
  "empty_request = \<lparr>year = [], model = [], part_name = [], purchase = [], vin = [], name = [],
     email = [], mobile = [], zip_code = [], comment = []\<rparr>"

subsection \<open>Field styling\<close>

text \<open>
  The \<^verbatim>\<open>border-bottom\<close> values the script writes, and the elements it writes them
  to: the wrappers \<^verbatim>\<open>.year-f\<close> and \<^verbatim>\<open>.model-f\<close>, and the \<^verbatim>\<open>.input-field\<close>
  wrapper a field's \<^verbatim>\<open>closest('.input-field')\<close> finds (one per field).
\<close>

datatype border = BorderGrey1 | BorderRed1 | BorderRed2

definition border_css :: "border \<Rightarrow> string" where
  "border_css b = (case b of BorderGrey1 \<Rightarrow> ''1px solid #ccc'' | BorderRed1 \<Rightarrow> ''1px solid red''
                   | BorderRed2 \<Rightarrow> ''2px solid red'')"

datatype group = YearF | ModelF | InputField field

subsection \<open>Validation (lines 268--318)\<close>

text \<open>\<^verbatim>\<open>!value\<close> for a string: only the empty string is falsy.\<close>

definition js_falsy :: "string \<Rightarrow> bool" where
  "js_falsy s = (s = [])"

text \<open>The seven checks in the code's order: field, message line, group marked red.\<close>

definition required_checks :: "(field \<times> string \<times> group) list" where
  "required_checks =
     [(FYear, ''Year is required.\<newline>'', YearF),
      (FModel, ''Car model is required.\<newline>'', ModelF),
      (FPartName, ''Part name is required.\<newline>'', InputField FPartName),
      (FName, ''Name is required.\<newline>'', InputField FName),
      (FEmail, ''Email is required.\<newline>'', InputField FEmail),
      (FMobile, ''Contact number is required.\<newline>'', InputField FMobile),
      (FZip, ''ZIP Code is required.\<newline>'', InputField FZip)]"

definition validation_errors :: "quote_request \<Rightarrow> (field \<times> string \<times> group) list" where
  "validation_errors d = filter (\<lambda>(f, msg, g). js_falsy (field_value d f)) required_checks"

definition is_valid :: "quote_request \<Rightarrow> bool" where
  "is_valid d = (validation_errors d = [])"

definition error_message :: "quote_request \<Rightarrow> string" where
  "error_message d = concat (map (\<lambda>(f, msg, g). msg) (validation_errors d))"

definition invalid_groups :: "quote_request \<Rightarrow> group list" where
  "invalid_groups d = map (\<lambda>(f, msg, g). g) (validation_errors d)"

text \<open>
  The checks as the handler runs them (lines 269--312): \<^verbatim>\<open>isValid\<close> starts
  \<open>true\<close> and \<^verbatim>\<open>errorMessage\<close> empty; each \<^verbatim>\<open>if (!formData.f)\<close> clears the
  flag, appends its line and marks its group.
\<close>

definition check_field ::
  "quote_request \<Rightarrow> bool \<times> string \<times> group list \<Rightarrow> field \<times> string \<times> group \<Rightarrow> bool \<times> string \<times> group list"
where
  "check_field d acc chk =
     (let (ok, msgs, marked) = acc; (f, line, g) = chk
      in if js_falsy (field_value d f) then (False, msgs @ line, marked @ [g]) else (ok, msgs, marked))"

definition validate :: "quote_request \<Rightarrow> bool \<times> string \<times> group list" where
  "validate d = foldl (check_field d) (True, [], []) required_checks"

subsection \<open>Subject and body (lines 320--322, 329--405)\<close>

definition email_subject :: "quote_request \<Rightarrow> string" where
  "email_subject d = ''New Auto Parts Quote Request - '' @ name d"

text \<open>\<^verbatim>\<open>value || fallback\<close> for a string.\<close>

definition js_or :: "string \<Rightarrow> string \<Rightarrow> string" where
  "js_or s fallback = (if js_falsy s then fallback else s)"

record email_row =
  tr_open :: string
  label_style :: string
  label :: string
  value_style :: string
  cell :: string

definition plain_row :: "string \<Rightarrow> string \<Rightarrow> email_row" where
  "plain_row l v =
     \<lparr>tr_open = ''<tr>'',
      label_style = ''border: 1px solid #ddd; padding: 12px; background-color: #f8f9fa; font-weight: bold;'',
      label = l, value_style = ''border: 1px solid #ddd; padding: 12px;'', cell = v\<rparr>"

definition vehicle_row :: "string \<Rightarrow> string \<Rightarrow> email_row" where
  "vehicle_row l v =
     \<lparr>tr_open = ''<tr style=\"background-color: #e3f2fd;\">'',
      label_style =
        ''border: 1px solid #ddd; padding: 12px; background-color: #1976d2; color: white; font-weight: bold;'',
      label = l, value_style = ''border: 1px solid #ddd; padding: 12px; font-weight: bold;'', cell = v\<rparr>"

definition email_rows :: "quote_request \<Rightarrow> email_row list" where
  "email_rows d =
     [plain_row ''Customer Name'' (js_or (name d) ''Not provided''),
      plain_row ''Email Address''
        (''<a href=\"mailto:'' @ email d @ ''\">'' @ js_or (email d) ''Not provided'' @ ''</a>''),
      plain_row ''Contact Number''
        (''<a href=\"tel:'' @ mobile d @ ''\">'' @ js_or (mobile d) ''Not provided'' @ ''</a>''),
      plain_row ''ZIP Code'' (js_or (zip_code d) ''Not provided''),
      vehicle_row ''Vehicle Year'' (js_or (year d) ''Not provided''),
      vehicle_row ''Vehicle Model'' (js_or (model d) ''Not provided''),
      vehicle_row ''Part Needed'' (js_or (part_name d) ''Not provided''),
      plain_row ''Purchase Timeline'' (js_or (purchase d) ''Not specified''),
      plain_row ''Vehicle VIN'' (js_or (vin d) ''Not provided''),
      plain_row ''Additional Comments'' (js_or (comment d) ''No additional comments'')]"

text \<open>One row as the template writes it: four lines, indented by 20 and 24 spaces.\<close>

definition row_lines :: "email_row \<Rightarrow> string list" where
  "row_lines r =
     [replicate 20 CHR '' '' @ tr_open r,
      replicate 24 CHR '' '' @ ''<td style=\"'' @ label_style r @ ''\">'' @ label r @ ''</td>'',
      replicate 24 CHR '' '' @ ''<td style=\"'' @ value_style r @ ''\">'' @ cell r @ ''</td>'',
      replicate 20 CHR '' '' @ ''</tr>'']"

definition email_header :: "string \<Rightarrow> string list" where
  "email_header date =
     [''        <div style=\"font-family: Arial, sans-serif; max-width: 600px; margin: 0 auto;\">'',
      ''            <div style=\"background-color: #04003f; color: white; padding: 20px; text-align: center;\">'',
      ''                <h2>New Auto Parts Quote Request</h2>'',
      ''                <p>Submitted on: '' @ date @ ''</p>'',
      ''            </div>'',
      ''            '',
      ''            <table style=\"width: 100%; border-collapse: collapse; margin-top: 20px; border: 1px solid #ddd;\">'',
      ''                <thead>'',
      ''                    <tr style=\"background-color: #f8f9fa;\">'',
      ''                        <th style=\"border: 1px solid #ddd; padding: 12px; text-align: left; font-weight: bold;\">Field</th>'',
      ''                        <th style=\"border: 1px solid #ddd; padding: 12px; text-align: left; font-weight: bold;\">Details</th>'',
      ''                    </tr>'',
      ''                </thead>'',
      ''                <tbody>'']"

definition email_footer :: "string list" where
  "email_footer =
     [''                </tbody>'',
      ''            </table>'',
      ''            '',
      ''            <div style=\"background-color: #f8f9fa; padding: 15px; margin-top: 20px; text-align: center;\">'',
      ''                <p><strong>Next Steps:</strong></p>'',
      ''                <p>Please contact the customer within 24 hours with a quote and availability information.</p>'',
      ''                <p style=\"color: #666; font-size: 12px;\">This email was automatically generated from the oneauto-salvage.com quote request form.</p>'',
      ''            </div>'',
      ''        </div>'']"

text \<open>
  The template literal: a newline after the opening backquote, each line followed by a
  newline, and the four spaces before the closing backquote. \<open>date\<close> is
  \<^verbatim>\<open>new Date().toLocaleDateString('en-US', ...)\<close>, an input of the model.
\<close>

definition text_lines :: "string list \<Rightarrow> string" where
  "text_lines ls = concat (map (\<lambda>l. l @ ''\<newline>'') ls)"

definition createEmailTableContent :: "quote_request \<Rightarrow> string \<Rightarrow> string" where
  "createEmailTableContent d date =
     ''\<newline>'' @ text_lines (email_header date @ concat (map row_lines (email_rows d)) @ email_footer)
     @ ''    ''"

subsection \<open>The scenario of the specification\<close>

definition jane :: quote_request where
  "jane = \<lparr>year = ''2015'', model = ''Civic'', part_name = ''Alternator'', purchase = [], vin = [],
     name = ''Jane Doe'', email = ''jane@example.com'', mobile = ''5551234567'', zip_code = ''90210'',
     comment = []\<rparr>"

subsection \<open>Validation\<close>

lemma validation_errors_eq:
  "validation_errors d = filter (\<lambda>(f, msg, g). field_value d f = []) required_checks"
  by (simp add: validation_errors_def js_falsy_def)

lemma field_value_set_field:
  "field_value (set_field f v d) f' = (if f' = f then v else field_value d f')"
  by (cases f; cases f') simp_all

lemma is_valid_fields:
  "is_valid d \<longleftrightarrow> (\<forall>(f, msg, g) \<in> set required_checks. field_value d f \<noteq> [])"
  by (auto simp: is_valid_def validation_errors_def js_falsy_def filter_empty_conv)

text \<open>With every other required field present, a missing one yields exactly its own check.\<close>

lemma single_missing_errors:
  assumes "(f, msg, g) \<in> set required_checks" "is_valid d"
  shows "validation_errors (set_field f [] d) = [(f, msg, g)]"
  using assms unfolding is_valid_fields
  by (auto simp: validation_errors_def js_falsy_def field_value_set_field required_checks_def)

lemma jane_valid: "is_valid jane" "invalid_groups jane = []"
  by (simp_all add: jane_def is_valid_def invalid_groups_def validation_errors_def required_checks_def
      js_falsy_def)

lemma required_fields:
  "map fst required_checks = [FYear, FModel, FPartName, FName, FEmail, FMobile, FZip]"
  by (simp add: required_checks_def)

subsection \<open>The body\<close>

lemma text_lines_append [simp]: "text_lines (xs @ ys) = text_lines xs @ text_lines ys"
  by (simp add: text_lines_def)

lemma text_lines_Nil [simp]: "text_lines [] = []"
  by (simp add: text_lines_def)

lemma text_lines_concat: "text_lines (concat xss) = concat (map text_lines xss)"
  by (induction xss) simp_all

lemma createEmailTableContent_split:
  "createEmailTableContent d date =
     ''\<newline>'' @ text_lines (email_header date) @
     concat (map (\<lambda>r. text_lines (row_lines r)) (email_rows d)) @ text_lines email_footer @ ''    ''"
  by (simp add: createEmailTableContent_def text_lines_concat comp_def)

lemma body_includes_row:
  assumes "r \<in> set (email_rows d)"
  shows "js_includes (createEmailTableContent d date) (text_lines (row_lines r))"
proof -
  from assms obtain xs ys where rows: "email_rows d = xs @ r # ys"
    by (meson split_list)
  show ?thesis
    unfolding createEmailTableContent_split rows js_includes_iff
    by (rule exI [where x = "''\<newline>'' @ text_lines (email_header date) @
                    concat (map (\<lambda>r. text_lines (row_lines r)) xs)"]) auto
qed

lemma row_text_includes_cell:
  "js_includes (text_lines (row_lines r)) (cell r)"
  unfolding js_includes_iff text_lines_def row_lines_def
  by (rule exI [where x = "replicate 20 CHR '' '' @ tr_open r @ ''\<newline>'' @
         replicate 24 CHR '' '' @ ''<td style=\"'' @ label_style r @ ''\">'' @ label r @ ''</td>''
         @ ''\<newline>'' @ replicate 24 CHR '' '' @ ''<td style=\"'' @ value_style r @ ''\">''"]) auto

lemma text_lines_includes: "l \<in> set ls \<Longrightarrow> js_includes (text_lines ls) l"
  unfolding text_lines_def
  by (rule js_includes_trans [OF js_includes_concat_map [where h = "\<lambda>l. l @ ''\<newline>''"]])
     (auto intro: js_includes_append_right js_includes_refl)

lemmas quote_simps = email_rows_def plain_row_def vehicle_row_def js_or_def js_falsy_def
  email_subject_def


lemma foldl_check_field:
  "foldl (check_field d) (ok, msgs, marked) cs =
     (ok \<and> filter (\<lambda>(f, line, g). js_falsy (field_value d f)) cs = [],
      msgs @ concat (map (\<lambda>(f, line, g). line) (filter (\<lambda>(f, line, g). js_falsy (field_value d f)) cs)),
      marked @ map (\<lambda>(f, line, g). g) (filter (\<lambda>(f, line, g). js_falsy (field_value d f)) cs))"
  by (induction cs arbitrary: ok msgs marked) (auto simp: check_field_def)

subsection \<open>Properties\<close>

text \<open>
  C18: the required fields are exactly year, model, part name, name, e-mail, mobile and
  ZIP code; purchase timeline, VIN and comment are never checked.
\<close>

theorem is_valid_iff:
  "is_valid d \<longleftrightarrow> year d \<noteq> [] \<and> model d \<noteq> [] \<and> part_name d \<noteq> [] \<and> name d \<noteq> [] \<and>
                   email d \<noteq> [] \<and> mobile d \<noteq> [] \<and> zip_code d \<noteq> []"
  by (simp add: is_valid_def validation_errors_def required_checks_def js_falsy_def)

text \<open>
  C10: the subject and the vehicle rows. For every request with a model and a part name,
  the subject is \<^verbatim>\<open>New Auto Parts Quote Request - \<close> followed by the name, and
  the body has a row pairing \<^verbatim>\<open>Vehicle Model\<close> with the model and one pairing
  \<^verbatim>\<open>Part Needed\<close> with the part name.
\<close>

theorem subject_and_vehicle_rows:
  assumes "model d \<noteq> []" and "part_name d \<noteq> []"
  shows "email_subject d = ''New Auto Parts Quote Request - '' @ name d \<and>
         js_includes (createEmailTableContent d date) (text_lines (row_lines (vehicle_row ''Vehicle Model'' (model d)))) \<and>
         js_includes (createEmailTableContent d date) (text_lines (row_lines (vehicle_row ''Part Needed'' (part_name d))))"
proof (intro conjI)
  show "email_subject d = ''New Auto Parts Quote Request - '' @ name d" by (simp add: email_subject_def)
  show "js_includes (createEmailTableContent d date) (text_lines (row_lines (vehicle_row ''Vehicle Model'' (model d))))"
    by (rule body_includes_row) (use assms in \<open>simp add: email_rows_def js_or_def js_falsy_def\<close>)
  show "js_includes (createEmailTableContent d date) (text_lines (row_lines (vehicle_row ''Part Needed'' (part_name d))))"
    by (rule body_includes_row) (use assms in \<open>simp add: email_rows_def js_or_def js_falsy_def\<close>)
qed

theorem subject_and_vehicle_rows_witness:
  "model jane \<noteq> [] \<and> part_name jane \<noteq> [] \<and>
   email_subject jane = ''New Auto Parts Quote Request - Jane Doe'' \<and>
   js_includes (createEmailTableContent jane ''11/9/2026'') (text_lines (row_lines (vehicle_row ''Vehicle Model'' ''Civic''))) \<and>
   js_includes (createEmailTableContent jane ''11/9/2026'') (text_lines (row_lines (vehicle_row ''Part Needed'' ''Alternator'')))"
  using subject_and_vehicle_rows [of jane "''11/9/2026''"] by (simp add: jane_def)

text \<open>
  C32: the body embeds the user's text unescaped. Whatever the comment field holds, markup
  included, is written verbatim into the cell of the comment row of the HTML e-mail.
\<close>

theorem body_embeds_raw_comment:
  "comment d \<noteq> [] \<Longrightarrow>
   js_includes (createEmailTableContent d date)
     (''<td style=\"border: 1px solid #ddd; padding: 12px;\">'' @ comment d @ ''</td>'')"
proof -
  assume c: "comment d \<noteq> []"
  let ?r = "plain_row ''Additional Comments'' (comment d)"
  have "?r \<in> set (email_rows d)" using c by (simp add: email_rows_def js_or_def js_falsy_def)
  then have "js_includes (createEmailTableContent d date) (text_lines (row_lines ?r))"
    by (rule body_includes_row)
  moreover have "js_includes (text_lines (row_lines ?r))
      (replicate 24 CHR '' '' @ ''<td style=\"border: 1px solid #ddd; padding: 12px;\">'' @ comment d @ ''</td>'')"
    by (rule text_lines_includes) (simp add: row_lines_def plain_row_def)
  ultimately show ?thesis
    by (meson js_includes_trans js_includes_middle [where u = "replicate 24 CHR '' ''" and v = "[]", simplified])
qed

theorem body_embeds_raw_comment_witness:
  "comment (jane\<lparr>comment := ''<img src=x onerror=alert(1)>''\<rparr>) \<noteq> [] \<and>
   js_includes (createEmailTableContent (jane\<lparr>comment := ''<img src=x onerror=alert(1)>''\<rparr>) ''11/9/2026'')
     (''<td style=\"border: 1px solid #ddd; padding: 12px;\">'' @ ''<img src=x onerror=alert(1)>'' @ ''</td>'')"
  using body_embeds_raw_comment [of "jane\<lparr>comment := ''<img src=x onerror=alert(1)>''\<rparr>" "''11/9/2026''"]
  by simp


text \<open>
  The handler's sequence of checks, with its flag and accumulated message, computes
  exactly the reference definitions: the flag is \<open>is_valid\<close>, the message
  \<open>error_message\<close> and the marked groups \<open>invalid_groups\<close>.
\<close>

theorem validate_equiv: "validate d = (is_valid d, error_message d, invalid_groups d)"
  by (simp add: validate_def foldl_check_field is_valid_def error_message_def invalid_groups_def
      validation_errors_def)

end
