(* ===== verification/Json.thy ===== *)
theory Json
  imports JS_Base
begin

text \<open>
  \<^verbatim>\<open>JSON.parse\<close> (ECMA-404 and ECMAScript's \<^verbatim>\<open>JSON.parse\<close>), as far as the quote
  form's response handler uses it: the JSON values, a recursive-descent parser, property
  access on a parsed value, truthiness and conversion to string. It is a model of a
  built-in, not code of the repository. Strings are byte strings: a \<^verbatim>\<open>\u\<close> escape is
  decoded to the UTF-8 bytes of its code point (a surrogate pair to its combined code
  point). A number is kept as the integer mantissa and decimal exponent of its literal,
  \<open>m \<cdot> 10\<^sup>e\<close>, without rounding to a double.

  The parser takes fuel; each call spends one unit and consumes input before recursing,
  so that \<open>2 * length s + 1\<close> units always suffice (\<open>parse_value_enough_fuel\<close>):
  \<open>json_parse\<close> fails only on a syntax error.
\<close>

subsection \<open>Values and parse results\<close>

datatype json = JNull | JBool bool | JNum int int | JStr string | JArr "json list"
  | JObj "(string \<times> json) list"

datatype 'a pres = PErr | PFuel | POk 'a

subsection \<open>Lexical parts\<close>

definition is_ws :: "char \<Rightarrow> bool" where
  "is_ws c = (c = CHR '' '' \<or> c = CHR 0x09 \<or> c = CHR 0x0A \<or> c = CHR 0x0D)"

definition skip_ws :: "string \<Rightarrow> string" where
  "skip_ws s = dropWhile is_ws s"

definition is_digit :: "char \<Rightarrow> bool" where
  "is_digit c = (48 \<le> (of_char c :: nat) \<and> (of_char c :: nat) \<le> 57)"

definition digit_val :: "char \<Rightarrow> nat" where
  "digit_val c = of_char c - 48"

definition digits_val :: "string \<Rightarrow> nat" where
  "digits_val ds = foldl (\<lambda>acc c. 10 * acc + digit_val c) 0 ds"

definition hex_val :: "char \<Rightarrow> nat option" where
  "hex_val c =
     (if is_digit c then Some (digit_val c)
      else if 97 \<le> (of_char c :: nat) \<and> (of_char c :: nat) \<le> 102 then Some (of_char c - 87)
      else if 65 \<le> (of_char c :: nat) \<and> (of_char c :: nat) \<le> 70 then Some (of_char c - 55)
      else None)"

definition hex4 :: "char \<Rightarrow> char \<Rightarrow> char \<Rightarrow> char \<Rightarrow> nat option" where
  "hex4 a b c d =
     (case (hex_val a, hex_val b, hex_val c, hex_val d) of
        (Some w, Some x, Some y, Some z) \<Rightarrow> Some (((w * 16 + x) * 16 + y) * 16 + z)
      | _ \<Rightarrow> None)"

text \<open>The UTF-8 bytes of a code point below \<open>0x110000\<close>.\<close>

definition utf8 :: "nat \<Rightarrow> string" where
  "utf8 u =
     (if u < 0x80 then [char_of u]
      else if u < 0x800 then [char_of (0xC0 + u div 64), char_of (0x80 + u mod 64)]
      else if u < 0x10000 then
        [char_of (0xE0 + u div 4096), char_of (0x80 + u div 64 mod 64), char_of (0x80 + u mod 64)]
      else [char_of (0xF0 + u div 262144), char_of (0x80 + u div 4096 mod 64),
            char_of (0x80 + u div 64 mod 64), char_of (0x80 + u mod 64)])"

definition simple_escape :: "char \<Rightarrow> char option" where
  "simple_escape e =
     (if e = CHR 0x22 then Some (CHR 0x22) else if e = CHR 0x5C then Some (CHR 0x5C)
      else if e = CHR ''/'' then Some (CHR ''/'') else if e = CHR ''b'' then Some (CHR 0x08)
      else if e = CHR ''f'' then Some (CHR 0x0C) else if e = CHR ''n'' then Some (CHR 0x0A)
      else if e = CHR ''r'' then Some (CHR 0x0D) else if e = CHR ''t'' then Some (CHR 0x09)
      else None)"

text \<open>The four hex digits of a \<^verbatim>\<open>\u\<close> escape.\<close>

definition hex_unit :: "string \<Rightarrow> (nat \<times> string) option" where
  "hex_unit s = (case s of a # b # c # d # rest \<Rightarrow> map_option (\<lambda>u. (u, rest)) (hex4 a b c d)
                 | _ \<Rightarrow> None)"

text \<open>An escape after its backslash: the bytes it stands for and the input after it. A
  high surrogate followed by an escaped low surrogate is one code point.\<close>

definition parse_escape :: "string \<Rightarrow> (string \<times> string) option" where
  "parse_escape s =
     (case s of
        [] \<Rightarrow> None
      | e # cs \<Rightarrow>
          (case simple_escape e of
             Some x \<Rightarrow> Some ([x], cs)
           | None \<Rightarrow>
               if e \<noteq> CHR ''u'' then None
               else (case hex_unit cs of
                       None \<Rightarrow> None
                     | Some (u, rest) \<Rightarrow>
                         (case rest of
                            b1 # b2 # rest2 \<Rightarrow>
                              if 0xD800 \<le> u \<and> u < 0xDC00 \<and> b1 = CHR 0x5C \<and> b2 = CHR ''u'' then
                                (case hex_unit rest2 of
                                   Some (l, rest3) \<Rightarrow>
                                     if 0xDC00 \<le> l \<and> l < 0xE000
                                     then Some (utf8 (0x10000 + (u - 0xD800) * 1024 + (l - 0xDC00)), rest3)
                                     else Some (utf8 u, rest)
                                 | None \<Rightarrow> Some (utf8 u, rest))
                              else Some (utf8 u, rest)
                          | _ \<Rightarrow> Some (utf8 u, rest)))))"

text \<open>The characters of a string literal after its opening quote: the decoded string and
  the input after the closing quote. A raw control character is a syntax error.\<close>

function parse_chars :: "string \<Rightarrow> string \<Rightarrow> (string \<times> string) option" where
  "parse_chars acc [] = None"
| "parse_chars acc (c # cs) =
     (if c = CHR 0x22 then Some (acc, cs)
      else if c = CHR 0x5C then
        (case parse_escape cs of
           None \<Rightarrow> None
         | Some (x, rest) \<Rightarrow> parse_chars (acc @ x) rest)
      else if of_char c < (32::nat) then None
      else parse_chars (acc @ [c]) cs)"
  by pat_completeness auto
termination
  by (relation "measure (\<lambda>(acc, s). length s)")
    (auto simp: parse_escape_def hex_unit_def split: list.splits option.splits if_splits)

text \<open>The parts of a number literal
  \<^verbatim>\<open>-? (0 | [1-9][0-9]* ) (. [0-9]+)? ([eE] [+-]? [0-9]+)?\<close>.\<close>

definition lex_int :: "string \<Rightarrow> (string \<times> string) option" where
  "lex_int s =
     (let ip = takeWhile is_digit s
      in if ip = [] \<or> (hd ip = CHR ''0'' \<and> 1 < length ip) then None
         else Some (ip, dropWhile is_digit s))"

definition lex_frac :: "string \<Rightarrow> (string \<times> string) option" where
  "lex_frac s =
     (case s of
        c # cs \<Rightarrow>
          if c = CHR ''.'' then
            (if takeWhile is_digit cs = [] then None
             else Some (takeWhile is_digit cs, dropWhile is_digit cs))
          else Some ([], s)
      | [] \<Rightarrow> Some ([], s))"

definition lex_exp :: "string \<Rightarrow> (int \<times> string) option" where
  "lex_exp s =
     (case s of
        c # cs \<Rightarrow>
          if c = CHR ''e'' \<or> c = CHR ''E'' then
            (let (sg, cs1) = (case cs of x # xs \<Rightarrow> if x = CHR ''-'' then (-1, xs)
                                                  else if x = CHR ''+'' then (1, xs) else (1, cs)
                                       | [] \<Rightarrow> (1, cs));
                 ed = takeWhile is_digit cs1
             in if ed = [] then None else Some (sg * int (digits_val ed), dropWhile is_digit cs1))
          else Some (0, s)
      | [] \<Rightarrow> Some (0, s))"

definition parse_number :: "string \<Rightarrow> (json \<times> string) option" where
  "parse_number s =
     (let (neg, s1) = (case s of c # cs \<Rightarrow> if c = CHR ''-'' then (True, cs) else (False, s)
                                | [] \<Rightarrow> (False, s))
      in case lex_int s1 of
           None \<Rightarrow> None
         | Some (ip, s2) \<Rightarrow>
             (case lex_frac s2 of
                None \<Rightarrow> None
              | Some (fp, s3) \<Rightarrow>
                  (case lex_exp s3 of
                     None \<Rightarrow> None
                   | Some (ex, s4) \<Rightarrow>
                       Some (JNum ((if neg then -1 else 1) * int (digits_val (ip @ fp)))
                                  (ex - int (length fp)), s4))))"

definition parse_literal :: "string \<Rightarrow> (json \<times> string) option" where
  "parse_literal s =
     (if take 4 s = ''true'' then Some (JBool True, drop 4 s)
      else if take 5 s = ''false'' then Some (JBool False, drop 5 s)
      else if take 4 s = ''null'' then Some (JNull, drop 4 s)
      else None)"

subsection \<open>The parser\<close>

fun parse_value :: "nat \<Rightarrow> string \<Rightarrow> (json \<times> string) pres"
and parse_elems :: "nat \<Rightarrow> string \<Rightarrow> json list \<Rightarrow> (json list \<times> string) pres"
and parse_members :: "nat \<Rightarrow> string \<Rightarrow> (string \<times> json) list \<Rightarrow> ((string \<times> json) list \<times> string) pres"
where
  "parse_value 0 s = PFuel"
| "parse_value (Suc n) s =
     (case skip_ws s of
        [] \<Rightarrow> PErr
      | c # cs \<Rightarrow>
          if c = CHR ''['' then
            (case skip_ws cs of
               d # ds \<Rightarrow> if d = CHR '']'' then POk (JArr [], ds)
                        else (case parse_elems n cs [] of
                                POk (vs, r) \<Rightarrow> POk (JArr vs, r) | PErr \<Rightarrow> PErr | PFuel \<Rightarrow> PFuel)
             | [] \<Rightarrow> PErr)
          else if c = CHR ''{'' then
            (case skip_ws cs of
               d # ds \<Rightarrow> if d = CHR ''}'' then POk (JObj [], ds)
                        else (case parse_members n cs [] of
                                POk (kvs, r) \<Rightarrow> POk (JObj kvs, r) | PErr \<Rightarrow> PErr | PFuel \<Rightarrow> PFuel)
             | [] \<Rightarrow> PErr)
          else if c = CHR 0x22 then
            (case parse_chars [] cs of Some (str, r) \<Rightarrow> POk (JStr str, r) | None \<Rightarrow> PErr)
          else if c = CHR ''-'' \<or> is_digit c then
            (case parse_number (c # cs) of Some vr \<Rightarrow> POk vr | None \<Rightarrow> PErr)
          else (case parse_literal (c # cs) of Some vr \<Rightarrow> POk vr | None \<Rightarrow> PErr))"
| "parse_elems 0 s acc = PFuel"
| "parse_elems (Suc n) s acc =
     (case parse_value n s of
        PErr \<Rightarrow> PErr
      | PFuel \<Rightarrow> PFuel
      | POk (v, r) \<Rightarrow>
          (case skip_ws r of
             c # cs \<Rightarrow> if c = CHR '','' then parse_elems n cs (acc @ [v])
                      else if c = CHR '']'' then POk (acc @ [v], cs) else PErr
           | [] \<Rightarrow> PErr))"
| "parse_members 0 s acc = PFuel"
| "parse_members (Suc n) s acc =
     (case skip_ws s of
        c # cs \<Rightarrow>
          if c \<noteq> CHR 0x22 then PErr
          else (case parse_chars [] cs of
                  None \<Rightarrow> PErr
                | Some (k, r) \<Rightarrow>
                    (case skip_ws r of
                       d # ds \<Rightarrow>
                         if d \<noteq> CHR '':'' then PErr
                         else (case parse_value n ds of
                                 PErr \<Rightarrow> PErr
                               | PFuel \<Rightarrow> PFuel
                               | POk (v, r') \<Rightarrow>
                                   (case skip_ws r' of
                                      e # es \<Rightarrow> if e = CHR '','' then parse_members n es (acc @ [(k, v)])
                                               else if e = CHR ''}'' then POk (acc @ [(k, v)], es) else PErr
                                    | [] \<Rightarrow> PErr))
                     | [] \<Rightarrow> PErr))
      | [] \<Rightarrow> PErr)"

text \<open>\<^verbatim>\<open>JSON.parse(text)\<close>: \<open>None\<close> is the \<^verbatim>\<open>SyntaxError\<close> it throws.\<close>

definition json_parse :: "string \<Rightarrow> json option" where
  "json_parse s =
     (case parse_value (2 * length s + 1) s of
        POk (v, r) \<Rightarrow> if skip_ws r = [] then Some v else None
      | _ \<Rightarrow> None)"

subsection \<open>Using a parsed value\<close>

text \<open>
  \<^verbatim>\<open>v.key\<close>: on \<^verbatim>\<open>null\<close> a \<^verbatim>\<open>TypeError\<close> (\<open>None\<close>); on an object the value of
  the last member with that key; on any other value \<^verbatim>\<open>undefined\<close> (\<open>Some None\<close>),
  neither strings, numbers, booleans nor arrays having the properties the script reads.
\<close>

definition json_member :: "json \<Rightarrow> string \<Rightarrow> json option option" where
  "json_member v k =
     (case v of
        JNull \<Rightarrow> None
      | JObj kvs \<Rightarrow> Some (map_of (rev kvs) k)
      | _ \<Rightarrow> Some None)"

definition json_truthy :: "json \<Rightarrow> bool" where
  "json_truthy v =
     (case v of JNull \<Rightarrow> False | JBool b \<Rightarrow> b | JNum m e \<Rightarrow> m \<noteq> 0 | JStr s \<Rightarrow> s \<noteq> []
      | JArr _ \<Rightarrow> True | JObj _ \<Rightarrow> True)"

text \<open>\<^verbatim>\<open>Number.prototype.toString\<close> of \<open>m \<cdot> 10\<^sup>e\<close>, by ECMAScript's rule: with the
  digits \<open>ds\<close> of \<open>|m|\<close> without trailing zeros, \<open>k\<close> their number and \<open>p\<close> the
  position of the decimal point.\<close>

fun strip_zeros :: "nat \<Rightarrow> int \<Rightarrow> nat \<times> int" where
  "strip_zeros m e = (if m \<noteq> 0 \<and> m mod 10 = 0 then strip_zeros (m div 10) (e + 1) else (m, e))"

definition num_string :: "int \<Rightarrow> int \<Rightarrow> string" where
  "num_string m e =
     (if m = 0 then ''0''
      else
        let (a, e') = strip_zeros (nat \<bar>m\<bar>) e; ds = dec_string a; k = int (length ds);
            p = k + e'; sign = (if m < 0 then ''-'' else '''')
        in sign @
          (if k \<le> p \<and> p \<le> 21 then ds @ replicate (nat (p - k)) CHR ''0''
           else if 0 < p \<and> p \<le> 21 then take (nat p) ds @ ''.'' @ drop (nat p) ds
           else if -6 < p \<and> p \<le> 0 then ''0.'' @ replicate (nat (- p)) CHR ''0'' @ ds
           else (take 1 ds @ (if k = 1 then [] else ''.'' @ drop 1 ds)) @ ''e'' @
                (if 0 \<le> p - 1 then ''+'' else ''-'') @ dec_string (nat \<bar>p - 1\<bar>)))"

text \<open>\<^verbatim>\<open>Array.prototype.join(',')\<close> on strings.\<close>

fun join_comma :: "string list \<Rightarrow> string" where
  "join_comma [] = []"
| "join_comma [x] = x"
| "join_comma (x # xs) = x @ '','' @ join_comma xs"

text \<open>\<^verbatim>\<open>String(v)\<close>, as string concatenation applies it.\<close>

fun json_string :: "json \<Rightarrow> string" where
  "json_string JNull = ''null''"
| "json_string (JBool b) = (if b then ''true'' else ''false'')"
| "json_string (JNum m e) = num_string m e"
| "json_string (JStr s) = s"
| "json_string (JArr vs) =
     join_comma (map (\<lambda>v. if v = JNull then [] else json_string v) vs)"
| "json_string (JObj kvs) = ''[object Object]''"


subsection \<open>Termination of the parser\<close>

text \<open>
  Every call consumes input before it recurses: a value, an element list or a member list
  parsed successfully leaves a strictly shorter rest (\<open>parse_consumes\<close>). Hence a
  value of a string of length \<open>l\<close> needs at most \<open>2 * l + 1\<close> units of fuel and a
  list \<open>2 * l + 2\<close> (\<open>parse_enough_fuel\<close>), and \<open>json_parse\<close> never runs out.
\<close>

lemma length_skip_ws: "length (skip_ws s) \<le> length s"
  by (simp add: skip_ws_def length_dropWhile_le)

lemma length_dropWhile_takeWhile:
  "length (dropWhile P xs) = length xs - length (takeWhile P xs)"
  by (metis add_diff_cancel_left' length_append takeWhile_dropWhile_id)

lemma parse_escape_shorter: "parse_escape s = Some (x, r) \<Longrightarrow> length r < length s"
  by (auto simp: parse_escape_def hex_unit_def split: list.splits option.splits if_splits)

lemma parse_chars_shorter: "parse_chars acc s = Some (k, r) \<Longrightarrow> length r < length s"
proof (induction acc s rule: parse_chars.induct)
  case (1 acc)
  then show ?case by simp
next
  case (2 acc c cs)
  show ?case
  proof (cases "c = CHR 0x22")
    case True
    with "2.prems" show ?thesis by simp
  next
    case q: False
    show ?thesis
    proof (cases "c = CHR 0x5C")
      case True
      with q "2.prems" obtain x rest where e: "parse_escape cs = Some (x, rest)"
        and p: "parse_chars (acc @ x) rest = Some (k, r)"
        by (auto split: option.splits)
      from "2.IH"(1) [OF q True e refl p] parse_escape_shorter [OF e] show ?thesis by simp
    next
      case False
      with q "2.prems" have "parse_chars (acc @ [c]) cs = Some (k, r)"
        by (simp split: if_splits)
      from "2.IH"(2) [OF q False _ this] "2.prems" q False show ?thesis
        by (simp split: if_splits)
    qed
  qed
qed

lemma length_dropWhile_less: "takeWhile P s \<noteq> [] \<Longrightarrow> length (dropWhile P s) < length s"
  by (induction s) (auto simp: length_dropWhile_le less_Suc_eq_le split: if_splits)

lemma lex_int_shorter: "lex_int s = Some (ip, r) \<Longrightarrow> length r < length s"
  by (auto simp: lex_int_def Let_def length_dropWhile_less split: if_splits)

lemma lex_frac_shorter: "lex_frac s = Some (fp, r) \<Longrightarrow> length r \<le> length s"
  by (auto simp: lex_frac_def length_dropWhile_takeWhile split: list.splits if_splits)

lemma lex_exp_shorter: "lex_exp s = Some (ex, r) \<Longrightarrow> length r \<le> length s"
  by (auto simp: lex_exp_def Let_def length_dropWhile_takeWhile split: list.splits if_splits prod.splits)

lemma parse_number_shorter: "parse_number s = Some (v, r) \<Longrightarrow> length r < length s"
  unfolding parse_number_def
  by (auto split: list.splits if_splits prod.splits option.splits
      dest!: lex_int_shorter lex_frac_shorter lex_exp_shorter)

lemma take_eq_le: "take n s = w \<Longrightarrow> length w = n \<Longrightarrow> n \<le> length s"
  by (metis length_take min.absorb_iff2 min.commute)

lemma parse_literal_shorter: "parse_literal s = Some (v, r) \<Longrightarrow> length r < length s"
proof -
  assume a: "parse_literal s = Some (v, r)"
  then consider "take 4 s = ''true''" "r = drop 4 s" | "take 5 s = ''false''" "r = drop 5 s"
    | "take 4 s = ''null''" "r = drop 4 s"
    by (auto simp: parse_literal_def split: if_splits)
  then show ?thesis
  proof cases
    case 1
    then have "4 \<le> length s" by (intro take_eq_le [of 4 s "''true''"]) simp_all
    with 1 show ?thesis by simp
  next
    case 2
    then have "5 \<le> length s" by (intro take_eq_le [of 5 s "''false''"]) simp_all
    with 2 show ?thesis by simp
  next
    case 3
    then have "4 \<le> length s" by (intro take_eq_le [of 4 s "''null''"]) simp_all
    with 3 show ?thesis by simp
  qed
qed


lemma skip_ws_Cons_le: "skip_ws s = c # cs \<Longrightarrow> length cs < length s"
  using length_skip_ws [of s] by simp

lemma parse_consumes:
  "parse_value n s = POk vr \<Longrightarrow> length (snd vr) < length s"
  "parse_elems n s acc = POk vs \<Longrightarrow> length (snd vs) < length s"
  "parse_members n s macc = POk kvs \<Longrightarrow> length (snd kvs) < length s"
proof (induction n s and n s acc and n s macc arbitrary: vr and vs and kvs
    rule: parse_value_parse_elems_parse_members.induct)
  case (2 n s)
  then show ?case
    by (fastforce split: list.splits if_splits option.splits pres.splits prod.splits
        dest!: skip_ws_Cons_le parse_chars_shorter parse_number_shorter parse_literal_shorter)
next
  case (4 n s acc)
  from "4.prems" obtain v r c cs where pv: "parse_value n s = POk (v, r)"
    and sk: "skip_ws r = c # cs"
    and rest: "(c = CHR '','' \<and> parse_elems n cs (acc @ [v]) = POk vs)
               \<or> (c = CHR '']'' \<and> vs = (acc @ [v], cs))"
    by (auto split: list.splits if_splits pres.splits prod.splits)
  have "length cs < length s"
    using "4.IH"(1) [OF pv] skip_ws_Cons_le [OF sk] by simp
  show ?case
  proof (cases "c = CHR '',''")
    case True
    with rest have "parse_elems n cs (acc @ [v]) = POk vs" by simp
    from "4.IH"(2) [OF pv refl sk True this] \<open>length cs < length s\<close> show ?thesis by simp
  next
    case False
    with rest \<open>length cs < length s\<close> show ?thesis by auto
  qed
next
  case (6 n s macc)
  from "6.prems" obtain cs k r d ds v r' e es where sk: "skip_ws s = CHR 0x22 # cs"
    and pc: "parse_chars [] cs = Some (k, r)" and sk2: "skip_ws r = d # ds" and d: "d = CHR '':''"
    and pv: "parse_value n ds = POk (v, r')" and sk3: "skip_ws r' = e # es"
    and rest: "(e = CHR '','' \<and> parse_members n es (macc @ [(k, v)]) = POk kvs)
               \<or> (e = CHR ''}'' \<and> kvs = (macc @ [(k, v)], es))"
    by (auto split: list.splits if_splits option.splits pres.splits prod.splits)
  have q: "\<not> CHR 0x22 \<noteq> CHR 0x22" and d': "\<not> d \<noteq> CHR '':''" using d by simp_all
  have "length es < length s"
    using skip_ws_Cons_le [OF sk] parse_chars_shorter [OF pc] skip_ws_Cons_le [OF sk2]
      "6.IH"(1) [OF sk q pc refl sk2 d' pv] skip_ws_Cons_le [OF sk3] by simp
  show ?case
  proof (cases "e = CHR '',''")
    case True
    with rest have "parse_members n es (macc @ [(k, v)]) = POk kvs" by simp
    from "6.IH"(2) [OF sk q pc refl sk2 d' pv refl sk3 True this] \<open>length es < length s\<close>
    show ?thesis by simp
  next
    case False
    with rest \<open>length es < length s\<close> show ?thesis by auto
  qed
qed simp_all


lemma parse_enough_fuel:
  "2 * length s + 1 \<le> n \<Longrightarrow> parse_value n s \<noteq> PFuel"
  "2 * length s + 2 \<le> n \<Longrightarrow> parse_elems n s acc \<noteq> PFuel"
  "2 * length s + 2 \<le> n \<Longrightarrow> parse_members n s macc \<noteq> PFuel"
proof (induction n s and n s acc and n s macc rule: parse_value_parse_elems_parse_members.induct)
  case (2 n s)
  show ?case
  proof (cases "skip_ws s")
    case Nil
    then show ?thesis by simp
  next
    case sk: (Cons c cs)
    have l: "2 * length cs + 2 \<le> n" using skip_ws_Cons_le [OF sk] "2.prems" by simp
    show ?thesis
    proof (cases "skip_ws cs")
      case Nil
      with sk show ?thesis by (simp split: option.splits)
    next
      case sk2: (Cons d ds)
      show ?thesis
      proof (cases "c = CHR ''['' \<and> d \<noteq> CHR '']''")
        case True
        with sk sk2 "2.IH"(1) [OF sk _ sk2 _ l] show ?thesis by (simp split: pres.splits)
      next
        case nb: False
        show ?thesis
        proof (cases "c = CHR ''{'' \<and> d \<noteq> CHR ''}''")
          case True
          with sk sk2 "2.IH"(2) [OF sk _ _ sk2 _ l] show ?thesis by (simp split: pres.splits)
        next
          case False
          with nb sk sk2 show ?thesis by (auto split: option.splits)
        qed
      qed
    qed
  qed
next
  case (4 n s acc)
  have pv: "parse_value n s \<noteq> PFuel" using "4.IH"(1) "4.prems" by simp
  show ?case
  proof (cases "parse_value n s")
    case (POk vr)
    then obtain v r where pv': "parse_value n s = POk (v, r)" by (cases vr) auto
    have lr: "length r < length s" using parse_consumes(1) [OF pv'] by simp
    show ?thesis
    proof (cases "skip_ws r")
      case sk: (Cons c cs)
      have l: "2 * length cs + 2 \<le> n" using skip_ws_Cons_le [OF sk] lr "4.prems" by simp
      show ?thesis using "4.IH"(2) [OF pv' refl sk _ l] pv' sk by simp
    qed (simp add: pv')
  qed (use pv in simp_all)
next
  case (6 n s macc)
  show ?case
  proof (cases "skip_ws s")
    case sk: (Cons c cs)
    show ?thesis
    proof (cases "c = CHR 0x22 \<and> parse_chars [] cs \<noteq> None")
      case True
      then obtain k r where q: "\<not> c \<noteq> CHR 0x22" and pc: "parse_chars [] cs = Some (k, r)" by auto
      show ?thesis
      proof (cases "skip_ws r")
        case sk2: (Cons d ds)
        show ?thesis
        proof (cases "d = CHR '':''")
          case True
          then have d': "\<not> d \<noteq> CHR '':''" by simp
          have lds: "length ds < length s"
            using skip_ws_Cons_le [OF sk] parse_chars_shorter [OF pc] skip_ws_Cons_le [OF sk2] by simp
          have pv: "parse_value n ds \<noteq> PFuel"
            using "6.IH"(1) [OF sk q pc refl sk2 d'] lds "6.prems" by simp
          show ?thesis
          proof (cases "parse_value n ds")
            case (POk vr)
            then obtain v r' where pv': "parse_value n ds = POk (v, r')" by (cases vr) auto
            show ?thesis
            proof (cases "skip_ws r'")
              case sk3: (Cons e es)
              have l: "2 * length es + 2 \<le> n"
                using skip_ws_Cons_le [OF sk3] parse_consumes(1) [OF pv'] lds "6.prems" by simp
              show ?thesis
                using "6.IH"(2) [OF sk q pc refl sk2 d' pv' refl sk3 _ l] sk q pc sk2 d' pv' sk3
                by simp
            qed (use sk q pc sk2 d' pv' in simp)
          qed (use sk q pc sk2 d' pv in simp_all)
        qed (use sk q pc sk2 in simp)
      qed (use sk q pc in simp)
    next
      case False
      with sk show ?thesis by (auto split: option.splits)
    qed
  qed simp
qed simp_all


lemma json_parse_fuel: "parse_value (2 * length s + 1) s \<noteq> PFuel"
  by (rule parse_enough_fuel(1)) simp

end
