(* ===== verification/Responses.thy ===== *)
theory Responses
  imports QuoteForm Json
begin

text \<open>
  The pure part of the delivery path of \<^verbatim>\<open>part.js\<close>: the payloads of
  \<^verbatim>\<open>sendEmail\<close> (lines 408--432) and \<^verbatim>\<open>fallbackEmailMethod\<close> (lines 435--493),
  the decision of the AJAX \<^verbatim>\<open>success\<close> callback on the response (lines 456--473),
  the message of the \<^verbatim>\<open>error\<close> callback (lines 474--492), and the HTML of the two
  banners of \<^verbatim>\<open>showSuccessMessage\<close> and \<^verbatim>\<open>showErrorMessage\<close> (lines 506--519 and
  540--549). The stateful handlers that use them are in \<open>FormController\<close>.
\<close>

subsection \<open>Payloads\<close>

definition support_email :: string where
  "support_email = ''info@oneauto-salvage.com''"

text \<open>The parameters of \<^verbatim>\<open>emailjs.send('YOUR_SERVICE_ID', 'YOUR_TEMPLATE_ID', ...)\<close>.\<close>

definition emailjs_params :: "quote_request \<Rightarrow> string \<Rightarrow> string \<Rightarrow> (string \<times> string) list" where
  "emailjs_params d subject body =
     [(''to_email'', support_email), (''subject'', subject), (''message'', body),
      (''from_name'', name d), (''from_email'', email d), (''reply_to'', email d)]"

text \<open>The form-encoded fields of the \<^verbatim>\<open>POST send_email.php\<close> request.\<close>

definition post_data :: "quote_request \<Rightarrow> string \<Rightarrow> string \<Rightarrow> (string \<times> string) list" where
  "post_data d subject body =
     [(''year'', year d), (''model'', model d), (''part_name'', part_name d),
      (''purchase'', purchase d), (''vin'', vin d), (''name'', name d), (''email'', email d),
      (''mobile'', mobile d), (''zip_code'', zip_code d), (''comment'', comment d),
      (''email_subject'', subject), (''email_body'', body), (''to_email'', support_email)]"

subsection \<open>The AJAX success callback\<close>

text \<open>
  What the \<^verbatim>\<open>success\<close> callback ends with: one of the two banners, or an exception
  that escapes it. The argument \<^verbatim>\<open>response\<close> is a JavaScript value: a text body is
  a string (\<open>JStr\<close>); a body jQuery has already parsed, because the server declared it
  JSON, is the parsed value.
\<close>

datatype reply = ShowSuccess | ShowError string | ThrowTypeError

text \<open>The \<^verbatim>\<open>catch\<close> block: \<^verbatim>\<open>response.toLowerCase()\<close> exists only on strings.\<close>

definition sniff_response :: "json \<Rightarrow> reply" where
  "sniff_response response =
     (case response of
        JStr s \<Rightarrow>
          if js_includes (js_lower s) ''success'' \<or> js_includes (js_lower s) ''sent''
          then ShowSuccess
          else ShowError ''Email sent but received unexpected response format.''
      | _ \<Rightarrow> ThrowTypeError)"

text \<open>\<^verbatim>\<open>result.error || 'Unknown error'\<close>, converted to a string by the concatenation.\<close>

definition error_or_unknown :: "json option \<Rightarrow> string" where
  "error_or_unknown e =
     (case e of Some v \<Rightarrow> if json_truthy v then json_string v else ''Unknown error''
      | None \<Rightarrow> ''Unknown error'')"

text \<open>
  The \<^verbatim>\<open>try\<close> block: \<^verbatim>\<open>JSON.parse(response)\<close> converts its argument to a string
  first; a \<^verbatim>\<open>SyntaxError\<close>, and the \<^verbatim>\<open>TypeError\<close> of reading \<^verbatim>\<open>result.success\<close>
  of \<^verbatim>\<open>null\<close>, go to the \<^verbatim>\<open>catch\<close> block.
\<close>

definition ajax_reply :: "json \<Rightarrow> reply" where
  "ajax_reply response =
     (case json_parse (json_string response) of
        None \<Rightarrow> sniff_response response
      | Some result \<Rightarrow>
          (case json_member result ''success'' of
             None \<Rightarrow> sniff_response response
           | Some ok \<Rightarrow>
               if ok \<noteq> None \<and> json_truthy (the ok) then ShowSuccess
               else ShowError (''Failed to send email: '' @
                               error_or_unknown (the (json_member result ''error'')))))"

subsection \<open>The AJAX error callback\<close>

text \<open>The message built from the text status, \<^verbatim>\<open>xhr.status\<close> and the error text.\<close>

definition ajax_error_message :: "string \<Rightarrow> nat \<Rightarrow> string \<Rightarrow> string" where
  "ajax_error_message status code err =
     ''Failed to send email. '' @
     (if status = ''timeout'' then ''Request timed out. Please try again.''
      else if code = 0 then ''Network connection error. Please check your connection.''
      else if code = 404 then ''Email service not found. Please contact support.''
      else if 500 \<le> code then ''Server error. Please try again later.''
      else ''Error: '' @ err)"

subsection \<open>Banners\<close>

text \<open>
  The two template literals, line by line as written: each starts with a newline and ends
  with the four spaces before the closing backquote; the emoji are their UTF-8 bytes.
\<close>

definition success_html :: string where
  "success_html =
     ''\<newline>'' @ text_lines
     [''        <div class=\"success-message\" style=\"background-color: #d4edda; color: #155724; padding: 20px; border: 1px solid #c3e6cb; border-radius: 5px; margin: 20px 0; text-align: center;\">'',
      ''            <h3>'' @ utf8 0x1F389 @ '' Thank You for Your Request!</h3>'',
      ''            <p><strong>Your auto parts quote request has been successfully submitted.</strong></p>'',
      ''            <p>Our team will review your request and contact you within 24 hours with:</p>'',
      ''            <ul style=\"text-align: left; display: inline-block;\">'',
      ''                <li>Available parts matching your requirements</li>'',
      ''                <li>Competitive pricing information</li>'',
      ''                <li>Shipping and warranty details</li>'',
      ''            </ul>'',
      ''            <p><strong>Need immediate assistance?</strong><br>'',
      ''            Call us at <a href=\"tel:+18776118211\" style=\"color: #155724; font-weight: bold;\">+1 (307) 302-8308</a></p>'',
      ''        </div>'']
     @ ''    ''"

definition error_html :: "string \<Rightarrow> string" where
  "error_html message =
     ''\<newline>'' @ text_lines
     [''        <div class=\"error-message\" style=\"background-color: #f8d7da; color: #721c24; padding: 20px; border: 1px solid #f5c6cb; border-radius: 5px; margin: 20px 0; text-align: center;\">'',
      ''            <h3>'' @ utf8 0x274C @ '' Submission Error</h3>'',
      ''            <p><strong>We encountered an issue while processing your request.</strong></p>'',
      ''            <p>'' @ message @ ''</p>'',
      ''            <p><strong>Please try again or contact us directly:</strong><br>'',
      ''            Call us at <a href=\"tel:+18776118211\" style=\"color: #721c24; font-weight: bold;\">+1 (307) 302-8308</a><br>'',
      ''            Email us at <a href=\"mailto:info@oneauto-salvage.com\" style=\"color: #721c24; font-weight: bold;\">info@oneauto-salvage.com</a></p>'',
      ''        </div>'']
     @ ''    ''"


subsection \<open>Facts about the decision\<close>

text \<open>A reply that parses to a value with a \<^verbatim>\<open>success\<close> property is decided by it.\<close>

lemma ajax_reply_parsed:
  "json_parse (json_string r) = Some v \<Longrightarrow> json_member v ''success'' = Some ok \<Longrightarrow>
   ajax_reply r = (if ok \<noteq> None \<and> json_truthy (the ok) then ShowSuccess
                   else ShowError (''Failed to send email: '' @ error_or_unknown (the (json_member v ''error''))))"
  by (simp add: ajax_reply_def)

text \<open>\<^verbatim>\<open>String({...})\<close> is \<^verbatim>\<open>[object Object]\<close>, which is not JSON.\<close>

lemma object_string_not_json: "json_parse ''[object Object]'' = None"
  by code_simp

lemma reply_sent: "ajax_reply (JStr ''sent'') = ShowSuccess"
  by code_simp

lemma error_html_includes: "js_includes (error_html m) m"
proof -
  have "js_includes (error_html m) (''            <p>'' @ m @ ''</p>'')"
    unfolding error_html_def
    by (intro js_includes_append_left js_includes_append_right text_lines_includes) simp
  then show ?thesis by (rule js_includes_trans) (rule js_includes_middle)
qed


text \<open>A string without quote, backslash or control character is read back verbatim.\<close>

lemma parse_chars_plain:
  "\<forall>c \<in> set x. c \<noteq> CHR 0x22 \<and> c \<noteq> CHR 0x5C \<and> 32 \<le> (of_char c :: nat) \<Longrightarrow>
   parse_chars acc (x @ CHR 0x22 # rest) = Some (acc @ x, rest)"
  by (induction x arbitrary: acc) auto

lemma json_failure_parse:
  assumes "\<forall>c \<in> set x. c \<noteq> CHR 0x22 \<and> c \<noteq> CHR 0x5C \<and> 32 \<le> (of_char c :: nat)"
  shows "json_parse (''{\"success\":false,\"error\":\"'' @ x @ ''\"}'') =
           Some (JObj [(''success'', JBool False), (''error'', JStr x)])"
proof -
  let ?s = "''{\"success\":false,\"error\":\"'' @ x @ ''\"}''"
  obtain m where n: "2 * length ?s + 1 = Suc (Suc (Suc (Suc (Suc m))))" by simp
  have pc: "parse_chars [] (x @ CHR 0x22 # ''}'') = Some (x, ''}'')"
    using parse_chars_plain [OF assms] by simp
  show ?thesis
    unfolding json_parse_def n
    by (simp add: skip_ws_def is_ws_def is_digit_def parse_literal_def pc)
qed

subsection \<open>Properties\<close>

text \<open>
  C15: the server's error text comes back verbatim. For every non-empty text \<open>X\<close>
  without quote, backslash or control character, the answer
  \<^verbatim>\<open>{"success":false,"error":"X"}\<close> makes the success callback show the error
  message \<^verbatim>\<open>Failed to send email: X\<close>.
\<close>

theorem error_text_roundtrip:
  "\<forall>c \<in> set x. c \<noteq> CHR 0x22 \<and> c \<noteq> CHR 0x5C \<and> 32 \<le> (of_char c :: nat) \<Longrightarrow> x \<noteq> [] \<Longrightarrow>
   ajax_reply (JStr (''{\"success\":false,\"error\":\"'' @ x @ ''\"}'')) =
     ShowError (''Failed to send email: '' @ x)"
  by (drule json_failure_parse)
     (simp add: ajax_reply_def json_member_def json_truthy_def error_or_unknown_def)

theorem error_text_roundtrip_witness:
  "ajax_reply (JStr (''{\"success\":false,\"error\":\"'' @ ''Mailbox full'' @ ''\"}'')) =
     ShowError (''Failed to send email: Mailbox full'')"
proof -
  have p: "\<forall>c \<in> set ''Mailbox full''. c \<noteq> CHR 0x22 \<and> c \<noteq> CHR 0x5C \<and> 32 \<le> (of_char c :: nat)"
    by simp
  show ?thesis using error_text_roundtrip [OF p] by simp
qed

end
