(* ===== verification/FormController.thy ===== *)
theory FormController
  imports Prelude Responses
begin

text \<open>
  The quote form controller of \<^verbatim>\<open>part.js\<close> as a state machine: the page's state
  \<open>form_page\<close> (field values, field borders, loader, alerts shown, banners, requests in
  flight, timers), one definition per handler, and the browser as a step function
  \<open>form_step\<close> on user, network and timer events, with its runs \<open>form_run\<close> and the
  reachability relation \<open>form_reach\<close>.
\<close>

subsection \<open>State\<close>

datatype banner_kind = SuccessBanner | ErrorBanner

text \<open>A banner \<^verbatim>\<open>div\<close> inserted after the form: an identity, its class, its message.\<close>

record banner =
  bn_id :: nat
  bn_kind :: banner_kind
  bn_message :: string

datatype channel = EmailJS | Ajax

text \<open>
  A delivery attempt in flight, with the values its callbacks close over: the form data,
  subject and body (\<^verbatim>\<open>fallbackEmailMethod\<close> is called with them after an EmailJS
  rejection).
\<close>

record request =
  rq_id :: nat
  rq_channel :: channel
  rq_form :: quote_request
  rq_subject :: string
  rq_body :: string

text \<open>
  The callbacks the controller leaves in the timer queue: the 10-second fade of
  \<^verbatim>\<open>showSuccessMessage\<close>, the 15-second fade of \<^verbatim>\<open>showErrorMessage\<close>, the
  \<^verbatim>\<open>remove()\<close> after a 500 ms \<^verbatim>\<open>fadeOut\<close>, and the 30-second timeout of a request.
\<close>

datatype form_cb = FadeAll | FadeErrors | RemoveBanner nat | AjaxTimeout nat

text \<open>
  \<open>borders\<close>: the inline \<^verbatim>\<open>border-bottom\<close> of each field group (\<open>None\<close>: the
  stylesheet's); \<open>sent\<close>: every delivery attempt made, in order (EmailJS calls and POSTs);
  \<open>uncaught\<close>: exceptions that escaped a callback; \<open>fnext\<close>: the next fresh identity;
  \<open>ready_bound\<close>: jQuery's ready callback has run and bound the \<^verbatim>\<open>change\<close> handlers
  of \<^verbatim>\<open>#model\<close> and \<^verbatim>\<open>#year\<close> (lines 6--16).
\<close>

record form_page =
  form :: quote_request
  borders :: "group \<Rightarrow> border option"
  loader :: bool
  alerts :: "string list"
  banners :: "banner list"
  pending :: "request list"
  sent :: "request list"
  ftimers :: "form_cb timers"
  fnow :: nat
  fnext :: nat
  emailjs_loaded :: bool
  uncaught :: "string list"
  ready_bound :: bool

definition initial_form :: "bool \<Rightarrow> form_page" where
  "initial_form ejs =
     \<lparr>form = empty_request, borders = (\<lambda>g. None), loader = False, alerts = [], banners = [],
      pending = [], sent = [], ftimers = [], fnow = 0, fnext = 0, emailjs_loaded = ejs,
      uncaught = [], ready_bound = False\<rparr>"

subsection \<open>Primitive effects\<close>

definition form_timeout :: "form_cb \<Rightarrow> nat \<Rightarrow> form_page \<Rightarrow> form_page" where
  "form_timeout cb ms s = s\<lparr>ftimers := add_timer (fnow s + ms, cb) (ftimers s)\<rparr>"

definition set_border :: "group \<Rightarrow> border \<Rightarrow> form_page \<Rightarrow> form_page" where
  "set_border g b s = s\<lparr>borders := (borders s)(g := Some b)\<rparr>"

text \<open>\<^verbatim>\<open>$('#regForm').after(html)\<close>: the new banner comes first after the form.\<close>

definition insert_banner :: "banner_kind \<Rightarrow> string \<Rightarrow> form_page \<Rightarrow> form_page" where
  "insert_banner k msg s =
     s\<lparr>banners := \<lparr>bn_id = fnext s, bn_kind = k, bn_message = msg\<rparr> # banners s,
       fnext := Suc (fnext s)\<rparr>"

definition remove_banner :: "nat \<Rightarrow> form_page \<Rightarrow> form_page" where
  "remove_banner i s = s\<lparr>banners := filter (\<lambda>b. bn_id b \<noteq> i) (banners s)\<rparr>"

text \<open>\<^verbatim>\<open>.fadeOut(500, function () { $(this).remove(); })\<close> on the banners \<open>ids\<close>.\<close>

definition fade_out :: "nat list \<Rightarrow> form_page \<Rightarrow> form_page" where
  "fade_out ids s = foldl (\<lambda>s i. form_timeout (RemoveBanner i) 500 s) s ids"

definition is_pending :: "nat \<Rightarrow> channel \<Rightarrow> form_page \<Rightarrow> bool" where
  "is_pending i c s = (\<exists>r \<in> set (pending s). rq_id r = i \<and> rq_channel r = c)"

definition find_pending :: "nat \<Rightarrow> form_page \<Rightarrow> request option" where
  "find_pending i s = find (\<lambda>r. rq_id r = i) (pending s)"

definition complete_request :: "nat \<Rightarrow> form_page \<Rightarrow> form_page" where
  "complete_request i s = s\<lparr>pending := filter (\<lambda>r. rq_id r \<noteq> i) (pending s)\<rparr>"

subsection \<open>Banners (lines 496--568)\<close>

text \<open>
  \<^verbatim>\<open>showSuccessMessage\<close>: reset the form, set every field group's border to grey,
  insert the success banner and arm the 10-second fade of all banners. The scrolling
  animation is not modelled.
\<close>

definition showSuccessMessage :: "form_page \<Rightarrow> form_page" where
  "showSuccessMessage s =
     form_timeout FadeAll 10000
       (insert_banner SuccessBanner [] (s\<lparr>form := empty_request, borders := (\<lambda>g. Some BorderGrey1)\<rparr>))"

text \<open>
  \<^verbatim>\<open>showErrorMessage(message)\<close>: remove every banner, insert the error banner, arm the
  15-second fade of the error banners.
\<close>

definition showErrorMessage :: "string \<Rightarrow> form_page \<Rightarrow> form_page" where
  "showErrorMessage msg s =
     form_timeout FadeErrors 15000 (insert_banner ErrorBanner msg (s\<lparr>banners := []\<rparr>))"

subsection \<open>Delivery (lines 408--493)\<close>

definition new_request :: "channel \<Rightarrow> quote_request \<Rightarrow> string \<Rightarrow> string \<Rightarrow> form_page \<Rightarrow> request" where
  "new_request c d subject body s =
     \<lparr>rq_id = fnext s, rq_channel = c, rq_form = d, rq_subject = subject, rq_body = body\<rparr>"

definition start_request :: "request \<Rightarrow> form_page \<Rightarrow> form_page" where
  "start_request r s =
     s\<lparr>pending := pending s @ [r], sent := sent s @ [r], fnext := Suc (fnext s)\<rparr>"

text \<open>\<^verbatim>\<open>fallbackEmailMethod\<close>: the POST to \<^verbatim>\<open>send_email.php\<close>, with jQuery's timer of
  30 seconds.\<close>

definition fallbackEmailMethod :: "quote_request \<Rightarrow> string \<Rightarrow> string \<Rightarrow> form_page \<Rightarrow> form_page" where
  "fallbackEmailMethod d subject body s =
     (let r = new_request Ajax d subject body s
      in form_timeout (AjaxTimeout (rq_id r)) 30000 (start_request r s))"

definition sendEmail :: "quote_request \<Rightarrow> string \<Rightarrow> string \<Rightarrow> form_page \<Rightarrow> form_page" where
  "sendEmail d subject body s =
     (if emailjs_loaded s then start_request (new_request EmailJS d subject body s) s
      else fallbackEmailMethod d subject body s)"

text \<open>The EmailJS promise of request \<open>i\<close> settles.\<close>

definition emailjs_resolved :: "nat \<Rightarrow> form_page \<Rightarrow> form_page" where
  "emailjs_resolved i s = showSuccessMessage ((complete_request i s)\<lparr>loader := False\<rparr>)"

definition emailjs_rejected :: "nat \<Rightarrow> form_page \<Rightarrow> form_page" where
  "emailjs_rejected i s =
     (case find_pending i s of
        Some r \<Rightarrow> fallbackEmailMethod (rq_form r) (rq_subject r) (rq_body r) (complete_request i s)
      | None \<Rightarrow> s)"

text \<open>The \<^verbatim>\<open>success\<close> callback of request \<open>i\<close> with the value \<^verbatim>\<open>response\<close>.\<close>

definition ajax_success :: "nat \<Rightarrow> json \<Rightarrow> form_page \<Rightarrow> form_page" where
  "ajax_success i response s =
     (let s' = (complete_request i s)\<lparr>loader := False\<rparr>
      in case ajax_reply response of
           ShowSuccess \<Rightarrow> showSuccessMessage s'
         | ShowError msg \<Rightarrow> showErrorMessage msg s'
         | ThrowTypeError \<Rightarrow> s'\<lparr>uncaught := uncaught s' @ [''TypeError'']\<rparr>)"

text \<open>The \<^verbatim>\<open>error\<close> callback of request \<open>i\<close>.\<close>

definition ajax_error :: "nat \<Rightarrow> string \<Rightarrow> nat \<Rightarrow> string \<Rightarrow> form_page \<Rightarrow> form_page" where
  "ajax_error i status code err s =
     showErrorMessage (ajax_error_message status code err) ((complete_request i s)\<lparr>loader := False\<rparr>)"

subsection \<open>Field handlers (lines 6--16, 230--245, 571--573)\<close>

text \<open>\<^verbatim>\<open>focus\<close> and \<^verbatim>\<open>change\<close> of a field: its \<^verbatim>\<open>.input-field\<close> wrapper turns grey.\<close>

definition focus_change :: "field \<Rightarrow> form_page \<Rightarrow> form_page" where
  "focus_change f s = set_border (InputField f) BorderGrey1 s"

text \<open>
  The part of jQuery's ready callback (lines 2--22) that belongs to the form: it binds the
  \<^verbatim>\<open>change\<close> handlers of \<^verbatim>\<open>#model\<close> and \<^verbatim>\<open>#year\<close> (the one of
  \<^verbatim>\<open>#part_name\<close> is empty). Its other part, scheduling \<^verbatim>\<open>initializeCounters\<close>, is
  \<open>jquery_ready\<close> of the counter engine.
\<close>

definition bind_ready_handlers :: "form_page \<Rightarrow> form_page" where
  "bind_ready_handlers s = s\<lparr>ready_bound := True\<rparr>"

text \<open>
  The user changes a field: the value changes, then the handlers run in the order they
  were bound: the \<^verbatim>\<open>focus change\<close> handler, bound when the script runs, then, once
  jQuery's ready callback has bound them, the \<^verbatim>\<open>change\<close> handlers of \<^verbatim>\<open>#model\<close>
  and \<^verbatim>\<open>#year\<close>.
\<close>

definition field_change :: "field \<Rightarrow> string \<Rightarrow> form_page \<Rightarrow> form_page" where
  "field_change f v s =
     (let s1 = focus_change f (s\<lparr>form := set_field f v (form s)\<rparr>)
      in if ready_bound s \<and> f = FModel then set_border ModelF BorderGrey1 s1
         else if ready_bound s \<and> f = FYear then set_border YearF BorderGrey1 s1
         else s1)"

text \<open>A click on a select: opening part name or year with no model marks the model red.\<close>

definition select_click :: "field \<Rightarrow> form_page \<Rightarrow> form_page" where
  "select_click f s =
     (if (f = FPartName \<or> f = FYear) \<and> model (form s) = [] then set_border ModelF BorderRed1 s
      else s)"

subsection \<open>Submit (lines 248--326)\<close>

text \<open>
  The submit handler: show the loader, read the form, mark the group of every missing
  required field red; if one is missing, hide the loader and alert all the messages;
  otherwise build subject and body and call \<^verbatim>\<open>sendEmail\<close>. \<open>date\<close> is the
  browser's date string at the time.
\<close>

definition submit :: "string \<Rightarrow> form_page \<Rightarrow> form_page" where
  "submit date s =
     (let s1 = s\<lparr>loader := True\<rparr>; d = form s1;
          s2 = foldl (\<lambda>s g. set_border g BorderRed2 s) s1 (invalid_groups d)
      in if \<not> is_valid d then s2\<lparr>loader := False, alerts := alerts s2 @ [error_message d]\<rparr>
         else sendEmail d (email_subject d) (createEmailTableContent d date) s2)"

subsection \<open>Timers\<close>

definition run_form_callback :: "form_cb \<Rightarrow> form_page \<Rightarrow> form_page" where
  "run_form_callback cb s =
     (case cb of
        FadeAll \<Rightarrow> fade_out (map bn_id (banners s)) s
      | FadeErrors \<Rightarrow> fade_out (map bn_id (filter (\<lambda>b. bn_kind b = ErrorBanner) (banners s))) s
      | RemoveBanner i \<Rightarrow> remove_banner i s
      | AjaxTimeout i \<Rightarrow>
          if is_pending i Ajax s then ajax_error i ''timeout'' 0 ''timeout'' s else s)"

subsection \<open>The browser\<close>

text \<open>
  Events: the user focuses or changes a field, clicks a select, submits; an EmailJS
  promise settles; the server answers request \<open>i\<close> (the \<^verbatim>\<open>success\<close> callback) or
  the request fails (the \<^verbatim>\<open>error\<close> callback, with a text status other than
  \<^verbatim>\<open>timeout\<close>, which only jQuery's timer produces); the next timer fires; time
  passes. Events that cannot happen in the state give \<open>None\<close>.
\<close>

datatype form_event = Focus field | Change field string | SelectClick field | Submit string
  | EmailJsResolve nat | EmailJsReject nat | AjaxSuccess nat json | AjaxError nat string nat string
  | FTick | FWait nat | JQueryReady

fun form_step :: "form_page \<Rightarrow> form_event \<Rightarrow> form_page option" where
  "form_step s (Focus f) = Some (focus_change f s)"
| "form_step s (Change f v) = Some (field_change f v s)"
| "form_step s (SelectClick f) = Some (select_click f s)"
| "form_step s (Submit date) = Some (submit date s)"
| "form_step s (EmailJsResolve i) =
     (if is_pending i EmailJS s then Some (emailjs_resolved i s) else None)"
| "form_step s (EmailJsReject i) =
     (if is_pending i EmailJS s then Some (emailjs_rejected i s) else None)"
| "form_step s (AjaxSuccess i response) =
     (if is_pending i Ajax s then Some (ajax_success i response s) else None)"
| "form_step s (AjaxError i status code err) =
     (if is_pending i Ajax s \<and> status \<noteq> ''timeout'' then Some (ajax_error i status code err s)
      else None)"
| "form_step s FTick =
     (case ftimers s of
        [] \<Rightarrow> None
      | (t, cb) # rest \<Rightarrow> Some (run_form_callback cb (s\<lparr>ftimers := rest, fnow := max t (fnow s)\<rparr>)))"
| "form_step s (FWait n) =
     (if list_all (\<lambda>(t, cb). fnow s + n \<le> t) (ftimers s) then Some (s\<lparr>fnow := fnow s + n\<rparr>)
      else None)"
| "form_step s JQueryReady = Some (bind_ready_handlers s)"

fun form_run :: "form_page \<Rightarrow> form_event list \<Rightarrow> form_page option" where
  "form_run s [] = Some s"
| "form_run s (e # es) = (case form_step s e of None \<Rightarrow> None | Some s' \<Rightarrow> form_run s' es)"

inductive form_reach :: "form_page \<Rightarrow> form_page \<Rightarrow> bool" where
  freach_refl: "form_reach s s"
| freach_step: "form_reach s0 s \<Longrightarrow> form_step s e = Some s' \<Longrightarrow> form_reach s0 s'"


subsection \<open>Proof notions\<close>

text \<open>
  The invariant of every reachable page: the loader is shown only while a delivery attempt
  is in flight; there is at most one error banner; and every AJAX request in flight has its
  timeout timer in the queue.
\<close>

definition form_inv :: "form_page \<Rightarrow> bool" where
  "form_inv s =
     ((loader s \<longrightarrow> pending s \<noteq> []) \<and>
      length (filter (\<lambda>b. bn_kind b = ErrorBanner) (banners s)) \<le> 1 \<and>
      (\<forall>r \<in> set (pending s). rq_channel r = Ajax \<longrightarrow>
         (\<exists>t. (t, AjaxTimeout (rq_id r)) \<in> set (ftimers s))))"

text \<open>
  A measure of the work left in the timer queue, which every timer firing decreases: a
  removal counts 1, a fade \<open>1 + b\<close> (it arms at most \<open>b\<close> removals) and a request
  timeout \<open>3 + b\<close> (it arms a fade), with \<open>b\<close> the number of banners, at least 1.
\<close>

definition banner_bound :: "form_page \<Rightarrow> nat" where
  "banner_bound s = max (length (banners s)) 1"

fun cb_weight :: "nat \<Rightarrow> form_cb \<Rightarrow> nat" where
  "cb_weight b (RemoveBanner i) = 1"
| "cb_weight b FadeAll = Suc b"
| "cb_weight b FadeErrors = Suc b"
| "cb_weight b (AjaxTimeout i) = 3 + b"

definition timer_weight :: "form_page \<Rightarrow> nat" where
  "timer_weight s = sum_list (map (\<lambda>x. cb_weight (banner_bound s) (snd x)) (ftimers s))"

text \<open>The page as loaded with Jane Doe's request typed in.\<close>

definition jane_page :: "bool \<Rightarrow> form_page" where
  "jane_page ejs = (initial_form ejs)\<lparr>form := jane\<rparr>"

subsection \<open>Closed forms of the handlers\<close>

lemma fade_out_eq:
  "fade_out ids s =
     s\<lparr>ftimers := foldl (\<lambda>ts i. add_timer (fnow s + 500, RemoveBanner i) ts) (ftimers s) ids\<rparr>"
  unfolding fade_out_def by (induction ids arbitrary: s) (simp_all add: form_timeout_def)

lemma set_foldl_add_timer:
  "set (foldl (\<lambda>ts i. add_timer (f i) ts) ts ids) = set ts \<union> f ` set ids"
  by (induction ids arbitrary: ts) auto

lemma fold_set_border_eq:
  "foldl (\<lambda>s g. set_border g b s) s gs = s\<lparr>borders := foldl (\<lambda>f g. f(g := Some b)) (borders s) gs\<rparr>"
  unfolding set_border_def by (induction gs arbitrary: s) simp_all

lemma foldl_fun_upd_Some:
  "foldl (\<lambda>f g. f(g := Some b)) f gs g' = (if g' \<in> set gs then Some b else f g')"
  by (induction gs arbitrary: f) auto

lemmas form_defs = form_timeout_def set_border_def insert_banner_def remove_banner_def
  complete_request_def new_request_def start_request_def showSuccessMessage_def showErrorMessage_def
  fallbackEmailMethod_def sendEmail_def emailjs_resolved_def emailjs_rejected_def
  ajax_success_def ajax_error_def focus_change_def field_change_def select_click_def
  bind_ready_handlers_def
  fade_out_eq fold_set_border_eq Let_def

lemma submit_invalid:
  "\<not> is_valid (form s) \<Longrightarrow>
   submit date s = s\<lparr>borders := foldl (\<lambda>f g. f(g := Some BorderRed2)) (borders s) (invalid_groups (form s)),
                     loader := False, alerts := alerts s @ [error_message (form s)]\<rparr>"
  by (simp add: submit_def fold_set_border_eq Let_def)

lemma submit_valid:
  "is_valid (form s) \<Longrightarrow>
   submit date s = sendEmail (form s) (email_subject (form s)) (createEmailTableContent (form s) date)
                     (s\<lparr>loader := True\<rparr>)"
  by (simp add: submit_def fold_set_border_eq Let_def is_valid_def invalid_groups_def)

lemma ajax_success_eq:
  "ajax_success i r s =
     (case ajax_reply r of
        ShowSuccess \<Rightarrow> showSuccessMessage ((complete_request i s)\<lparr>loader := False\<rparr>)
      | ShowError msg \<Rightarrow> showErrorMessage msg ((complete_request i s)\<lparr>loader := False\<rparr>)
      | ThrowTypeError \<Rightarrow> (complete_request i s)\<lparr>loader := False, uncaught := uncaught s @ [''TypeError'']\<rparr>)"
  by (simp add: ajax_success_def complete_request_def split: reply.splits)

lemma form_reach_induct:
  "form_reach s0 s \<Longrightarrow> P s0 \<Longrightarrow> (\<And>s e s'. P s \<Longrightarrow> form_step s e = Some s' \<Longrightarrow> P s') \<Longrightarrow> P s"
  by (induction rule: form_reach.induct) blast+

lemma form_reach_run: "form_reach s0 s \<Longrightarrow> form_run s es = Some s' \<Longrightarrow> form_reach s0 s'"
  by (induction es arbitrary: s) (auto split: option.splits intro: freach_step)

subsection \<open>The invariant\<close>

lemma form_inv_showSuccess: "form_inv s \<Longrightarrow> \<not> loader s \<Longrightarrow> form_inv (showSuccessMessage s)"
  by (auto simp: form_inv_def form_defs)

lemma form_inv_showError: "form_inv s \<Longrightarrow> \<not> loader s \<Longrightarrow> form_inv (showErrorMessage m s)"
  by (auto simp: form_inv_def form_defs)

lemma form_inv_complete: "form_inv s \<Longrightarrow> form_inv ((complete_request i s)\<lparr>loader := False\<rparr>)"
  by (auto simp: form_inv_def complete_request_def intro: order.trans [OF filter_map_fst_le])

lemma form_inv_submit: "form_inv s \<Longrightarrow> form_inv (submit date s)"
  unfolding submit_def fold_set_border_eq by (auto simp: form_inv_def form_defs)

lemma form_inv_rejected: "form_inv s \<Longrightarrow> form_inv (emailjs_rejected i s)"
  by (auto simp: form_inv_def emailjs_rejected_def form_defs split: option.splits)

lemma form_inv_ajax_success: "form_inv s \<Longrightarrow> form_inv (ajax_success i v s)"
proof -
  assume "form_inv s"
  then have c: "form_inv ((complete_request i s)\<lparr>loader := False\<rparr>)" by (rule form_inv_complete)
  show ?thesis
  proof (cases "ajax_reply v")
    case ShowSuccess
    with c show ?thesis by (simp add: ajax_success_def form_inv_showSuccess)
  next
    case (ShowError m)
    with c show ?thesis by (simp add: ajax_success_def form_inv_showError)
  next
    case ThrowTypeError
    with c show ?thesis by (simp add: ajax_success_def form_inv_def)
  qed
qed

lemma form_inv_ajax_error: "form_inv s \<Longrightarrow> form_inv (ajax_error i st c e s)"
  unfolding ajax_error_def by (rule form_inv_showError [OF form_inv_complete]) simp_all

text \<open>The timer invariant after the head timer \<open>(t, cb)\<close> is popped and run.\<close>

lemma form_inv_tick:
  assumes inv: "form_inv s" and ts: "ftimers s = (t, cb) # rest"
  shows "form_inv (run_form_callback cb (s\<lparr>ftimers := rest, fnow := max t (fnow s)\<rparr>))"
proof (cases cb)
  case (AjaxTimeout i)
  let ?s = "s\<lparr>ftimers := rest, fnow := max t (fnow s)\<rparr>"
  show ?thesis
  proof (cases "is_pending i Ajax ?s")
    case True
    have "form_inv ((complete_request i ?s)\<lparr>loader := False\<rparr>)"
      using inv ts AjaxTimeout by (auto simp: form_inv_def complete_request_def intro: order.trans [OF filter_map_fst_le])
    then have "form_inv (ajax_error i ''timeout'' 0 ''timeout'' ?s)"
      unfolding ajax_error_def by (rule form_inv_showError) simp
    with True AjaxTimeout show ?thesis by (simp add: run_form_callback_def)
  next
    case False
    with inv ts AjaxTimeout show ?thesis
      by (fastforce simp: run_form_callback_def form_inv_def is_pending_def)
  qed
qed (use inv ts in \<open>auto simp: run_form_callback_def form_inv_def form_defs set_foldl_add_timer
        intro: order.trans [OF length_filter_conj_le]\<close>)

lemma form_inv_step: "form_inv s \<Longrightarrow> form_step s e = Some s' \<Longrightarrow> form_inv s'"
proof (induction s e rule: form_step.induct)
  case (4 s date)
  then show ?case by (auto intro: form_inv_submit)
next
  case (5 s i)
  then show ?case
    by (auto simp: emailjs_resolved_def intro: form_inv_showSuccess form_inv_complete split: if_splits)
next
  case (6 s i)
  then show ?case by (auto intro: form_inv_rejected split: if_splits)
next
  case (7 s i v)
  then show ?case by (auto intro: form_inv_ajax_success split: if_splits)
next
  case (8 s i st c e)
  then show ?case by (auto intro: form_inv_ajax_error split: if_splits)
next
  case (9 s)
  then show ?case by (auto split: list.splits intro: form_inv_tick)
qed (auto simp: form_inv_def form_defs split: if_splits)

lemma form_inv_reach: "form_reach ((initial_form ejs)\<lparr>form := d\<rparr>) s \<Longrightarrow> form_inv s"
  by (erule form_reach_induct) (simp add: form_inv_def initial_form_def, blast intro: form_inv_step)

subsection \<open>Every AJAX request settles\<close>

lemma sum_list_add_timer:
  "sum_list (map (f :: _ \<Rightarrow> 'b :: comm_monoid_add) (add_timer x ts)) = f x + sum_list (map f ts)"
  by (induction ts) (auto simp: add_ac)

lemma sum_list_foldl_add_timer:
  "sum_list (map (f :: _ \<Rightarrow> 'b :: comm_monoid_add) (foldl (\<lambda>ts i. add_timer (g i) ts) ts ids)) =
     sum_list (map f ts) + sum_list (map (f \<circ> g) ids)"
  by (induction ids arbitrary: ts) (auto simp: sum_list_add_timer add_ac)

lemma cb_weight_mono: "b \<le> b' \<Longrightarrow> cb_weight b cb \<le> cb_weight b' cb"
  by (cases cb) auto

lemma weight_sum_mono:
  "b \<le> b' \<Longrightarrow> sum_list (map (\<lambda>x. cb_weight b (snd x)) ts) \<le> sum_list (map (\<lambda>x. cb_weight b' (snd x)) ts)"
  by (induction ts) (auto intro: add_mono cb_weight_mono)

lemma timer_weight_tick:
  assumes ts: "ftimers s = (t, cb) # rest"
  shows "timer_weight (run_form_callback cb (s\<lparr>ftimers := rest, fnow := max t (fnow s)\<rparr>)) < timer_weight s"
proof -
  let ?s = "s\<lparr>ftimers := rest, fnow := max t (fnow s)\<rparr>"
  let ?W = "\<lambda>b. sum_list (map (\<lambda>x. cb_weight b (snd x)) rest)"
  have old: "timer_weight s = cb_weight (banner_bound s) cb + ?W (banner_bound s)"
    by (simp add: timer_weight_def ts)
  show ?thesis
  proof (cases cb)
    case FadeAll
    have "length (banners s) \<le> banner_bound s" by (simp add: banner_bound_def)
    with old FadeAll show ?thesis
      by (simp add: run_form_callback_def fade_out_eq timer_weight_def banner_bound_def
          sum_list_foldl_add_timer comp_def sum_list_triv)
  next
    case FadeErrors
    have "length (filter (\<lambda>b. bn_kind b = ErrorBanner) (banners s)) \<le> banner_bound s"
      by (simp add: banner_bound_def le_max_iff_disj)
    with old FadeErrors show ?thesis
      by (simp add: run_form_callback_def fade_out_eq timer_weight_def banner_bound_def
          sum_list_foldl_add_timer comp_def sum_list_triv)
  next
    case (RemoveBanner i)
    have "banner_bound (remove_banner i ?s) \<le> banner_bound s"
      by (simp add: banner_bound_def remove_banner_def max_def) (metis le_trans length_filter_le)
    then have "?W (banner_bound (remove_banner i ?s)) \<le> ?W (banner_bound s)"
      by (rule weight_sum_mono)
    with old RemoveBanner show ?thesis
      by (simp add: run_form_callback_def timer_weight_def remove_banner_def)
  next
    case (AjaxTimeout i)
    have "?W 1 \<le> ?W (banner_bound s)"
      by (rule weight_sum_mono) (simp add: banner_bound_def)
    with old AjaxTimeout show ?thesis
      by (auto simp: run_form_callback_def timer_weight_def banner_bound_def ajax_error_def
          form_defs sum_list_add_timer)
  qed
qed

lemma ajax_request_settles_inv:
  "form_inv s \<Longrightarrow> r \<in> set (pending s) \<Longrightarrow> rq_channel r = Ajax \<Longrightarrow>
   \<exists>k s'. form_run s (replicate k FTick) = Some s' \<and> r \<notin> set (pending s')"
proof (induction "timer_weight s" arbitrary: s rule: less_induct)
  case less
  from less.prems obtain t where "(t, AjaxTimeout (rq_id r)) \<in> set (ftimers s)"
    by (auto simp: form_inv_def)
  then obtain t0 cb rest where ts: "ftimers s = (t0, cb) # rest"
    by (cases "ftimers s") auto
  define s' where "s' = run_form_callback cb (s\<lparr>ftimers := rest, fnow := max t0 (fnow s)\<rparr>)"
  have step: "form_step s FTick = Some s'" by (simp add: ts s'_def)
  have inv': "form_inv s'" unfolding s'_def by (rule form_inv_tick [OF less.prems(1) ts])
  have lt: "timer_weight s' < timer_weight s" unfolding s'_def by (rule timer_weight_tick [OF ts])
  show ?case
  proof (cases "r \<in> set (pending s')")
    case True
    from less.hyps [OF lt inv' True less.prems(3)] obtain k s'' where
      "form_run s' (replicate k FTick) = Some s''" "r \<notin> set (pending s'')" by blast
    with step show ?thesis by (intro exI [where x = "Suc k"]) auto
  next
    case False
    with step show ?thesis by (intro exI [where x = "Suc 0"]) auto
  qed
qed

lemmas run_simps = reply_sent jane_page_def initial_form_def submit_valid jane_valid form_defs is_pending_def
  run_form_callback_def

subsection \<open>Properties\<close>

text \<open>
  C6: submitting with exactly one required field empty and the others filled makes no
  network call (no request is sent or pending), hides the loader, shows no banner, alerts
  exactly that field's message line once, and marks that field's group red.
\<close>

theorem invalid_submit_blocks:
  assumes "(f, msg, g) \<in> set required_checks" "is_valid d" "form s = set_field f [] d"
    and "form_step s (Submit date) = Some s'"
  shows "sent s' = sent s \<and> pending s' = pending s \<and> alerts s' = alerts s @ [msg] \<and>
         borders s' g = Some BorderRed2 \<and> \<not> loader s' \<and> banners s' = banners s"
proof -
  have e: "validation_errors (form s) = [(f, msg, g)]"
    using single_missing_errors [OF assms(1,2)] assms(3) by simp
  then have "\<not> is_valid (form s)" by (simp add: is_valid_def)
  with assms(4) e show ?thesis
    by (auto simp: submit_invalid foldl_fun_upd_Some invalid_groups_def error_message_def)
qed

theorem invalid_submit_blocks_witness:
  "let s = (initial_form False)\<lparr>form := set_field FEmail [] jane\<rparr>;
       s' = submit ''11/9/2026'' s
   in (FEmail, ''Email is required.\<newline>'', InputField FEmail) \<in> set required_checks \<and> is_valid jane \<and>
      form s = set_field FEmail [] jane \<and> form_step s (Submit ''11/9/2026'') = Some s' \<and>
      sent s' = sent s \<and> pending s' = pending s \<and> alerts s' = alerts s @ [''Email is required.\<newline>''] \<and>
      borders s' (InputField FEmail) = Some BorderRed2 \<and> \<not> loader s' \<and> banners s' = banners s"
proof -
  have v: "is_valid jane" by (simp add: is_valid_def validation_errors_def required_checks_def jane_def js_falsy_def)
  have m: "(FEmail, ''Email is required.\<newline>'', InputField FEmail) \<in> set required_checks"
    by (simp add: required_checks_def)
  show ?thesis
    using invalid_submit_blocks [OF m v, of "(initial_form False)\<lparr>form := set_field FEmail [] jane\<rparr>"
        "''11/9/2026''"] m v
    by (simp add: Let_def)
qed

text \<open>
  C7: when the server answers a POST with JSON whose \<^verbatim>\<open>success\<close> is truthy (such as
  \<^verbatim>\<open>{"success":true}\<close>), the form is reset, every field border is grey, the loader is
  hidden, the newest banner is the success banner and the request is no longer pending.
\<close>

theorem success_reply_resets:
  assumes "json_parse str = Some v" "json_member v ''success'' = Some (Some x)" "json_truthy x"
    and "form_step s (AjaxSuccess i (JStr str)) = Some s'"
  shows "form s' = empty_request \<and> (\<forall>g. borders s' g = Some BorderGrey1) \<and> \<not> loader s' \<and>
         bn_kind (hd (banners s')) = SuccessBanner \<and> \<not> is_pending i Ajax s'"
proof -
  have "ajax_reply (JStr str) = ShowSuccess" using assms(1-3) by (simp add: ajax_reply_parsed)
  with assms(4) show ?thesis
    by (auto simp: ajax_success_eq form_defs is_pending_def split: if_splits)
qed

theorem success_reply_resets_witness:
  "let s = start_request (new_request Ajax jane ''s'' ''b'' (initial_form False)) (initial_form False)
   in \<exists>s'. form_step s (AjaxSuccess 0 (JStr ''{\"success\":true}'')) = Some s' \<and>
      form s' = empty_request \<and> (\<forall>g. borders s' g = Some BorderGrey1) \<and> \<not> loader s' \<and>
      bn_kind (hd (banners s')) = SuccessBanner \<and> \<not> is_pending 0 Ajax s'"
proof -
  have p: "json_parse ''{\"success\":true}'' = Some (JObj [(''success'', JBool True)])" by code_simp
  let ?s = "start_request (new_request Ajax jane ''s'' ''b'' (initial_form False)) (initial_form False)"
  have "is_pending 0 Ajax ?s" by (simp add: is_pending_def form_defs initial_form_def)
  then obtain s' where st: "form_step ?s (AjaxSuccess 0 (JStr ''{\"success\":true}'')) = Some s'" by simp
  show ?thesis
    using success_reply_resets [OF p _ _ st, of "JBool True"] st
    by (simp add: json_member_def json_truthy_def Let_def)
qed

text \<open>
  C8: when the server answers with JSON whose \<^verbatim>\<open>success\<close> is falsy and whose
  \<^verbatim>\<open>error\<close> is a non-empty string \<open>X\<close> (such as
  \<^verbatim>\<open>{"success":false,"error":"X"}\<close>), the only banner is an error banner with the
  message \<^verbatim>\<open>Failed to send email: X\<close>, its HTML contains \<open>X\<close>, and the loader is hidden.
\<close>

theorem failure_reply_banner:
  assumes "json_parse str = Some v" "json_member v ''success'' = Some (Some x)" "\<not> json_truthy x"
    and "json_member v ''error'' = Some (Some (JStr e))" "e \<noteq> []"
    and "form_step s (AjaxSuccess i (JStr str)) = Some s'"
  shows "banners s' = [\<lparr>bn_id = fnext s, bn_kind = ErrorBanner, bn_message = ''Failed to send email: '' @ e\<rparr>] \<and>
         js_includes (error_html (bn_message (hd (banners s')))) e \<and> \<not> loader s'"
proof -
  have "ajax_reply (JStr str) = ShowError (''Failed to send email: '' @ e)"
    using assms(1-5) by (simp add: ajax_reply_parsed error_or_unknown_def json_truthy_def)
  moreover have "js_includes (error_html (''Failed to send email: '' @ e)) e"
    by (rule js_includes_trans [OF error_html_includes]) (rule js_includes_append_left [OF js_includes_refl])
  ultimately show ?thesis using assms(6)
    by (auto simp: ajax_success_eq form_defs split: if_splits)
qed

theorem failure_reply_banner_witness:
  "let s = start_request (new_request Ajax jane ''s'' ''b'' (initial_form False)) (initial_form False)
   in \<exists>s'. form_step s (AjaxSuccess 0 (JStr ''{\"success\":false,\"error\":\"X\"}'')) = Some s' \<and>
      banners s' = [\<lparr>bn_id = 1, bn_kind = ErrorBanner, bn_message = ''Failed to send email: X''\<rparr>] \<and>
      js_includes (error_html (bn_message (hd (banners s')))) ''X'' \<and> \<not> loader s'"
proof -
  have p: "json_parse ''{\"success\":false,\"error\":\"X\"}'' =
             Some (JObj [(''success'', JBool False), (''error'', JStr ''X'')])" by code_simp
  let ?s = "start_request (new_request Ajax jane ''s'' ''b'' (initial_form False)) (initial_form False)"
  have "is_pending 0 Ajax ?s" by (simp add: is_pending_def form_defs initial_form_def)
  then obtain s' where st: "form_step ?s (AjaxSuccess 0 (JStr ''{\"success\":false,\"error\":\"X\"}'')) = Some s'"
    by simp
  show ?thesis
    using failure_reply_banner [OF p _ _ _ _ st, of "JBool False" "''X''"] st
    by (auto simp: json_member_def json_truthy_def Let_def form_defs initial_form_def)
qed

text \<open>
  C28 (finding): when jQuery hands the success callback an already parsed object (a server
  answering with a JSON content type), \<^verbatim>\<open>JSON.parse\<close> of it fails, the
  \<^verbatim>\<open>catch\<close> block calls \<^verbatim>\<open>toLowerCase\<close> on a non-string, and the
  \<^verbatim>\<open>TypeError\<close> escapes: the loader is hidden but neither banner is shown and the form
  is not reset.
\<close>

theorem parsed_object_throws:
  "form_step s (AjaxSuccess i (JObj kvs)) = Some s' \<Longrightarrow>
   banners s' = banners s \<and> form s' = form s \<and> \<not> loader s' \<and> uncaught s' = uncaught s @ [''TypeError'']"
  by (auto simp: ajax_success_eq ajax_reply_def object_string_not_json sniff_response_def
      complete_request_def split: if_splits)

theorem parsed_object_throws_witness:
  "let s = start_request (new_request Ajax jane ''s'' ''b'' (initial_form False)) (initial_form False)
   in \<exists>s'. form_step s (AjaxSuccess 0 (JObj [(''success'', JBool True)])) = Some s' \<and>
      banners s' = [] \<and> \<not> loader s' \<and> uncaught s' = [''TypeError'']"
proof -
  let ?s = "start_request (new_request Ajax jane ''s'' ''b'' (initial_form False)) (initial_form False)"
  have "is_pending 0 Ajax ?s" by (simp add: is_pending_def form_defs initial_form_def)
  then obtain s' where st: "form_step ?s (AjaxSuccess 0 (JObj [(''success'', JBool True)])) = Some s'"
    by simp
  show ?thesis using parsed_object_throws [OF st] st by (simp add: Let_def form_defs initial_form_def)
qed

text \<open>
  C9: a request the server never answers times out. In every state whose next timer is the
  30-second timeout of an AJAX request still in flight, firing it ends that request, hides the
  loader and leaves exactly one error banner, saying that the request timed out, a message
  distinct from those of a 404 and of a server error.
\<close>

theorem timeout_banner:
  assumes "ftimers s = (t, AjaxTimeout i) # rest" and "is_pending i Ajax s"
    and "form_step s FTick = Some s'"
  shows "fnow s' = max t (fnow s) \<and> \<not> loader s' \<and> pending s' = filter (\<lambda>r. rq_id r \<noteq> i) (pending s) \<and>
         banners s' = [\<lparr>bn_id = fnext s, bn_kind = ErrorBanner,
                        bn_message = ''Failed to send email. Request timed out. Please try again.''\<rparr>] \<and>
         (\<forall>st code err. st \<noteq> ''timeout'' \<and> (code = 404 \<or> 500 \<le> code) \<longrightarrow>
            bn_message (hd (banners s')) \<noteq> ajax_error_message st code err)"
  using assms
  by (auto simp: run_form_callback_def is_pending_def ajax_error_def showErrorMessage_def insert_banner_def
      form_timeout_def complete_request_def ajax_error_message_def)

theorem timeout_banner_witness:
  "case form_run (jane_page False) [Submit ''11/9/2026''] of
     Some s \<Rightarrow> \<exists>s'. form_step s FTick = Some s' \<and> fnow s' = 30000 \<and> pending s' = [] \<and>
       map bn_message (banners s') = [''Failed to send email. Request timed out. Please try again.'']
   | None \<Rightarrow> False"
proof (cases "form_run (jane_page False) [Submit ''11/9/2026'']")
  case None
  then show ?thesis by (simp add: run_simps)
next
  case (Some s)
  have ts: "ftimers s = [(30000, AjaxTimeout 0)]" and p: "is_pending 0 Ajax s"
    and q: "map rq_id (pending s) = [0]" "fnow s = 0"
    using Some by (auto simp: run_simps)
  obtain s' where st: "form_step s FTick = Some s'" using ts by simp
  from timeout_banner [OF ts p st] q Some st show ?thesis by (auto simp: filter_empty_conv)
qed

text \<open>
  C16: every AJAX error callback is reported. In every state, when the \<^verbatim>\<open>error\<close>
  callback of a request in flight runs (connection error, 404, server error or any other
  status), the request ends, the loader is hidden, every banner is removed and one error
  banner carries the message of that error's class, its 15-second fade armed; the form
  keeps the user's values.
\<close>

theorem error_callback_banner:
  "form_step s (AjaxError i status code err) = Some s' \<Longrightarrow>
   \<not> loader s' \<and> pending s' = filter (\<lambda>r. rq_id r \<noteq> i) (pending s) \<and>
   banners s' = [\<lparr>bn_id = fnext s, bn_kind = ErrorBanner, bn_message = ajax_error_message status code err\<rparr>] \<and>
   (fnow s + 15000, FadeErrors) \<in> set (ftimers s') \<and> form s' = form s"
  by (auto simp: ajax_error_def showErrorMessage_def insert_banner_def form_timeout_def
      complete_request_def set_add_timer split: if_splits)

theorem error_callback_banner_witness:
  "case form_run (jane_page False) [Submit ''11/9/2026''] of
     Some s \<Rightarrow> \<exists>s'. form_step s (AjaxError 0 ''error'' 404 ''Not Found'') = Some s' \<and> pending s' = [] \<and>
       banners s' = [\<lparr>bn_id = 1, bn_kind = ErrorBanner,
         bn_message = ''Failed to send email. Email service not found. Please contact support.''\<rparr>]
   | None \<Rightarrow> False"
proof (cases "form_run (jane_page False) [Submit ''11/9/2026'']")
  case None
  then show ?thesis by (simp add: run_simps)
next
  case (Some s)
  have st: "form_step s (AjaxError 0 ''error'' 404 ''Not Found'') = Some (ajax_error 0 ''error'' 404 ''Not Found'' s)"
    and q: "map rq_id (pending s) = [0]" "fnext s = 1"
    using Some by (auto simp: run_simps)
  from error_callback_banner [OF st] q show ?thesis
    using Some st by (auto simp: ajax_error_message_def filter_empty_conv)
qed

text \<open>
  C12: in every page reachable from the loaded page, whatever the user typed, the loader is
  hidden whenever no delivery attempt is in flight.
\<close>

theorem loader_hidden_when_idle:
  "form_reach ((initial_form ejs)\<lparr>form := d\<rparr>) s \<Longrightarrow> pending s = [] \<Longrightarrow> \<not> loader s"
  using form_inv_reach by (auto simp: form_inv_def)

theorem loader_hidden_when_idle_witness:
  "case form_run (jane_page False) [Submit ''11/9/2026'', AjaxSuccess 0 (JStr ''sent'')] of
     Some s \<Rightarrow> pending s = [] \<and> \<not> loader s | None \<Rightarrow> False"
proof (cases "form_run (jane_page False) [Submit ''11/9/2026'', AjaxSuccess 0 (JStr ''sent'')]")
  case None
  then show ?thesis by (simp add: run_simps)
next
  case (Some s)
  have "form_reach ((initial_form False)\<lparr>form := jane\<rparr>) s"
    using form_reach_run [OF freach_refl Some] by (simp add: jane_page_def)
  moreover have "pending s = []" using Some by (auto simp: run_simps)
  ultimately show ?thesis using Some loader_hidden_when_idle by auto
qed

text \<open>
  C14: in every reachable page there is at most one error banner.
\<close>

theorem one_error_banner:
  "form_reach ((initial_form ejs)\<lparr>form := d\<rparr>) s \<Longrightarrow>
   length (filter (\<lambda>b. bn_kind b = ErrorBanner) (banners s)) \<le> 1"
  using form_inv_reach by (auto simp: form_inv_def)

theorem one_error_banner_witness:
  "case form_run (jane_page False) [Submit ''11/9/2026'', FTick] of
     Some s \<Rightarrow> length (filter (\<lambda>b. bn_kind b = ErrorBanner) (banners s)) \<le> 1 | None \<Rightarrow> False"
proof (cases "form_run (jane_page False) [Submit ''11/9/2026'', FTick]")
  case None
  then show ?thesis by (simp add: run_simps)
next
  case (Some s)
  have "form_reach ((initial_form False)\<lparr>form := jane\<rparr>) s"
    using form_reach_run [OF freach_refl Some] by (simp add: jane_page_def)
  with Some show ?thesis using one_error_banner by auto
qed

text \<open>
  C13: every AJAX request settles: from any reachable page, letting the timers fire a finite
  number of times (and nothing else happen) ends each request in flight, by its answer or by
  jQuery's 30-second timeout.
\<close>

theorem ajax_request_settles:
  "form_reach ((initial_form ejs)\<lparr>form := d\<rparr>) s \<Longrightarrow> r \<in> set (pending s) \<Longrightarrow> rq_channel r = Ajax \<Longrightarrow>
   \<exists>k s'. form_run s (replicate k FTick) = Some s' \<and> r \<notin> set (pending s')"
  using form_inv_reach ajax_request_settles_inv by blast

theorem ajax_request_settles_witness:
  "case form_run (jane_page False) [Submit ''11/9/2026''] of
     Some s \<Rightarrow> \<exists>k s'. form_run s (replicate k FTick) = Some s' \<and> hd (pending s) \<notin> set (pending s')
   | None \<Rightarrow> False"
proof (cases "form_run (jane_page False) [Submit ''11/9/2026'']")
  case None
  then show ?thesis by (simp add: run_simps)
next
  case (Some s)
  have "form_reach ((initial_form False)\<lparr>form := jane\<rparr>) s"
    using form_reach_run [OF freach_refl Some] by (simp add: jane_page_def)
  moreover have "hd (pending s) \<in> set (pending s) \<and> rq_channel (hd (pending s)) = Ajax"
    using Some by (auto simp: run_simps)
  ultimately show ?thesis using Some ajax_request_settles by auto
qed

text \<open>
  C19: when an EmailJS call is rejected, the same form data, subject and body are posted to
  \<^verbatim>\<open>send_email.php\<close> as a new request with its 30-second timeout; the rejection is not
  shown to the user (banners and loader are unchanged).
\<close>

theorem emailjs_reject_falls_back:
  assumes "find_pending i s = Some r" "form_step s (EmailJsReject i) = Some s'"
  shows "sent s' = sent s @ [r\<lparr>rq_id := fnext s, rq_channel := Ajax\<rparr>] \<and> loader s' = loader s \<and>
         banners s' = banners s \<and> (fnow s + 30000, AjaxTimeout (fnext s)) \<in> set (ftimers s')"
  using assms by (auto simp: emailjs_rejected_def form_defs split: if_splits)

theorem emailjs_reject_falls_back_witness:
  "case form_run (jane_page True) [Submit ''11/9/2026''] of
     Some s \<Rightarrow> find_pending 0 s = Some (hd (pending s)) \<and>
       (\<exists>s'. form_step s (EmailJsReject 0) = Some s' \<and> map rq_channel (sent s') = [EmailJS, Ajax] \<and>
         loader s' \<and> (30000, AjaxTimeout 1) \<in> set (ftimers s'))
   | None \<Rightarrow> False"
proof (cases "form_run (jane_page True) [Submit ''11/9/2026'']")
  case None
  then show ?thesis by (simp add: run_simps)
next
  case (Some s)
  have f: "find_pending 0 s = Some (hd (pending s))" and p: "is_pending 0 EmailJS s"
    and v: "map rq_channel (sent s) = [EmailJS] \<and> loader s \<and> fnow s = 0 \<and> fnext s = 1"
    using Some by (auto simp: run_simps find_pending_def)
  then obtain s' where st: "form_step s (EmailJsReject 0) = Some s'" by simp
  show ?thesis using emailjs_reject_falls_back [OF f st] Some f st v by auto
qed

text \<open>
  C29 (finding): the 10-second timer of \<^verbatim>\<open>showSuccessMessage\<close> fades out every
  banner on the page, not only the success banner: in every state whose next timer is that
  fade, firing it arms the 500 ms removal of every banner present, including error banners
  shown after the success, which then vanish long before their own 15 seconds.
\<close>

theorem success_fade_cuts_error:
  assumes "ftimers s = (t, FadeAll) # rest" and "form_step s FTick = Some s'"
  shows "banners s' = banners s \<and>
         (\<forall>b \<in> set (banners s). (max t (fnow s) + 500, RemoveBanner (bn_id b)) \<in> set (ftimers s'))"
  using assms by (auto simp: run_form_callback_def fade_out_eq set_foldl_add_timer)

theorem success_fade_cuts_error_witness:
  "case form_run (jane_page False)
          [Submit ''11/9/2026'', Submit ''11/9/2026'', AjaxSuccess 0 (JStr ''sent''), FWait 9000,
           AjaxError 1 ''error'' 500 ''Internal Server Error''] of
     Some s \<Rightarrow> map bn_kind (banners s) = [ErrorBanner] \<and>
       (\<exists>s'. form_step s FTick = Some s' \<and> (10500, RemoveBanner (bn_id (hd (banners s)))) \<in> set (ftimers s'))
   | None \<Rightarrow> False"
proof (cases "form_run (jane_page False)
          [Submit ''11/9/2026'', Submit ''11/9/2026'', AjaxSuccess 0 (JStr ''sent''), FWait 9000,
           AjaxError 1 ''error'' 500 ''Internal Server Error'']")
  case None
  then show ?thesis by (simp add: run_simps)
next
  case (Some s)
  have k: "map bn_kind (banners s) = [ErrorBanner]" and n: "fnow s = 9000" and b: "banners s \<noteq> []"
    and h: "hd (ftimers s) = (10000, FadeAll)" and ne: "ftimers s \<noteq> []"
    using Some by (auto simp: run_simps)
  from h ne obtain rest where ts: "ftimers s = (10000, FadeAll) # rest" by (cases "ftimers s") auto
  obtain s' where st: "form_step s FTick = Some s'" by (simp add: ts)
  have "hd (banners s) \<in> set (banners s)" using b by simp
  with success_fade_cuts_error [OF ts st] n
  have "(10500, RemoveBanner (bn_id (hd (banners s)))) \<in> set (ftimers s')" by auto
  with k st Some show ?thesis by auto
qed

text \<open>
  C30 (finding): nothing guards a submit while an earlier request is in flight. In every
  state with a valid form, a submit sends one more request and shows the loader; the success
  of any request then hides the loader, while the other requests stay pending.
\<close>

theorem double_submit_two_requests:
  assumes "is_valid (form s)" and "form_step s (Submit date) = Some s1"
    and "form_step s1 (AjaxSuccess i r) = Some s2"
  shows "map rq_id (pending s1) = map rq_id (pending s) @ [fnext s] \<and> loader s1 \<and>
         pending s2 = filter (\<lambda>q. rq_id q \<noteq> i) (pending s1) \<and> \<not> loader s2"
  using assms
  by (auto simp: submit_def fold_set_border_eq sendEmail_def fallbackEmailMethod_def start_request_def
      new_request_def form_timeout_def Let_def ajax_success_def complete_request_def showSuccessMessage_def
      showErrorMessage_def insert_banner_def split: reply.splits if_splits)

theorem double_submit_two_requests_witness:
  "case form_run (jane_page False) [Submit ''11/9/2026''] of
     Some s \<Rightarrow> \<exists>s1 s2. form_step s (Submit ''11/9/2026'') = Some s1 \<and>
       form_step s1 (AjaxSuccess 0 (JStr ''sent'')) = Some s2 \<and> map rq_id (pending s2) = [1] \<and> \<not> loader s2
   | None \<Rightarrow> False"
proof (cases "form_run (jane_page False) [Submit ''11/9/2026'']")
  case None
  then show ?thesis by (simp add: run_simps)
next
  case (Some s)
  have v: "is_valid (form s)" and q: "map rq_id (pending s) = [0]" "fnext s = 1"
    and ch: "map rq_channel (pending s) = [Ajax]"
    using Some by (auto simp: run_simps)
  obtain s1 where s1: "form_step s (Submit ''11/9/2026'') = Some s1" by simp
  have "is_pending 0 Ajax s1"
    using Some s1 by (auto simp: run_simps)
  then obtain s2 where s2: "form_step s1 (AjaxSuccess 0 (JStr ''sent'')) = Some s2" by simp
  from double_submit_two_requests [OF v s1 s2] q
  have "map rq_id (pending s2) = [1]" "\<not> loader s2"
    by (auto simp: filter_map [symmetric] comp_def)
  with s1 s2 Some show ?thesis by auto
qed

end
