(* ===== verification/Queues.thy ===== *)
theory Queues
  imports Counters FormController
begin

text \<open>
  The timer queues of both parts of the script stay well formed (\<open>timers_wf\<close> of
  \<open>Prelude\<close>): every handler registers its callbacks at \<open>now + ms\<close> with
  \<^verbatim>\<open>setTimeout\<close>, and the event loop runs the head of the queue, so the queue stays
  ordered by due time, nothing in it is due before the clock, and the clock never goes
  back.
\<close>

subsection \<open>The counter engine\<close>

lemma timers_wf_set_timeout:
  "timers_wf (cnow s) (ctimers s) \<Longrightarrow> timers_wf (cnow (set_timeout cb ms s)) (ctimers (set_timeout cb ms s))"
  by (simp add: timers_wf_add)

lemma timers_wf_foldl:
  assumes "\<And>s x. cnow (f s x) = cnow s \<and> ctimers (f s x) = ctimers s"
  shows "cnow (foldl f s xs) = cnow s \<and> ctimers (foldl f s xs) = ctimers s"
  by (induction xs arbitrary: s) (simp_all add: assms)

lemma clock_on_entry: "cnow (on_entry i s e) = cnow s \<and> ctimers (on_entry i s e) = ctimers s"
  by (auto simp: on_entry_def Let_def split: prod.splits option.splits)

lemma clock_trigger_one: "cnow (trigger_one s c) = cnow s \<and> ctimers (trigger_one s c) = ctimers s"
  by (auto simp: trigger_one_def split: prod.splits option.splits)

lemma clock_trigger:
  "cnow (triggerCountersImmediately s) = cnow s \<and> ctimers (triggerCountersImmediately s) = ctimers s"
  unfolding triggerCountersImmediately_def by (rule timers_wf_foldl [OF clock_trigger_one])

lemma timers_wf_initialize:
  "timers_wf (cnow s) (ctimers s) \<Longrightarrow> timers_wf (cnow (initializeCounters s)) (ctimers (initializeCounters s))"
  by (simp add: initializeCounters_def clock_trigger timers_wf_add)

lemma timers_wf_run_callback:
  "timers_wf (cnow s) (ctimers s) \<Longrightarrow> timers_wf (cnow (run_callback cb s)) (ctimers (run_callback cb s))"
  by (cases cb) (simp_all add: run_callback_def timers_wf_initialize counter_fallback_def clock_trigger
      jquery_ready_def timers_wf_add)

lemma timers_wf_counter_step:
  assumes "timers_wf (cnow s) (ctimers s)" "counter_step s e = Some s'"
  shows "timers_wf (cnow s') (ctimers s')"
proof (cases e)
  case DomContentLoaded
  have "timers_wf (cnow (set_timeout CbInit 100 (s\<lparr>dcl_pending := False\<rparr>)))
                  (ctimers (set_timeout CbInit 100 (s\<lparr>dcl_pending := False\<rparr>)))"
    using assms(1) by (simp add: timers_wf_add)
  then have "timers_wf (cnow (initializeCounters (set_timeout CbInit 100 (s\<lparr>dcl_pending := False\<rparr>))))
              (ctimers (initializeCounters (set_timeout CbInit 100 (s\<lparr>dcl_pending := False\<rparr>))))"
    by (rule timers_wf_initialize)
  then show ?thesis using assms(2) DomContentLoaded
    by (auto simp: dom_content_loaded_def timers_wf_add split: if_splits)
next
  case Tick
  with assms(2) obtain t cb rest where ts: "ctimers s = (t, cb) # rest"
    and s': "s' = run_callback cb (s\<lparr>ctimers := rest, cnow := max t (cnow s)\<rparr>)"
    by (auto split: list.splits)
  have "timers_wf (max t (cnow s)) rest" using assms(1) ts by (metis timers_wf_pop)
  then show ?thesis unfolding s' by (intro timers_wf_run_callback) simp
next
  case (Wait n)
  with assms show ?thesis by (auto simp: timers_wf_def list_all_iff split: if_splits)
next
  case (Intersect i es)
  with assms show ?thesis
    by (auto simp: onIntersection_def timers_wf_foldl [OF clock_on_entry] split: if_splits)
qed (use assms clock_trigger in auto)

lemma counter_reach_wf:
  "counter_reach s0 s \<Longrightarrow> timers_wf (cnow s0) (ctimers s0) \<Longrightarrow> timers_wf (cnow s) (ctimers s)"
  by (induction rule: counter_reach.induct) (auto intro: timers_wf_counter_step)

subsection \<open>The form controller\<close>

lemma fade_out_timers:
  "timers_wf (fnow s) (ftimers s) \<Longrightarrow> timers_wf (fnow (fade_out ids s)) (ftimers (fade_out ids s))"
  unfolding fade_out_def
  by (induction ids arbitrary: s) (simp_all add: form_timeout_def timers_wf_add)


abbreviation form_wf :: "form_page \<Rightarrow> bool" where
  "form_wf s \<equiv> timers_wf (fnow s) (ftimers s)"

lemma form_wf_showSuccess: "form_wf s \<Longrightarrow> form_wf (showSuccessMessage s)"
  by (simp add: form_defs timers_wf_add)

lemma form_wf_showError: "form_wf s \<Longrightarrow> form_wf (showErrorMessage m s)"
  by (simp add: form_defs timers_wf_add)

lemma form_wf_fallback: "form_wf s \<Longrightarrow> form_wf (fallbackEmailMethod d subj body s)"
  by (simp add: form_defs timers_wf_add)

lemma form_wf_submit: "form_wf s \<Longrightarrow> form_wf (submit date s)"
  unfolding submit_def fold_set_border_eq
  by (simp add: sendEmail_def Let_def form_wf_fallback start_request_def)

lemma form_wf_ajax_success: "form_wf s \<Longrightarrow> form_wf (ajax_success i r s)"
  by (cases "ajax_reply r")
     (simp_all add: ajax_success_eq form_wf_showSuccess form_wf_showError complete_request_def)

lemma form_wf_ajax_error: "form_wf s \<Longrightarrow> form_wf (ajax_error i st c e s)"
  by (simp add: ajax_error_def form_wf_showError complete_request_def)

lemma form_wf_callback: "form_wf s \<Longrightarrow> form_wf (run_form_callback cb s)"
  by (cases cb) (simp_all add: run_form_callback_def fade_out_timers form_wf_ajax_error remove_banner_def)

lemma form_wf_step: "form_wf s \<Longrightarrow> form_step s e = Some s' \<Longrightarrow> form_wf s'"
proof (induction s e rule: form_step.induct)
  case (4 s date)
  then show ?case by (auto intro: form_wf_submit)
next
  case (7 s i r)
  then show ?case by (auto intro: form_wf_ajax_success split: if_splits)
next
  case (8 s i st c e)
  then show ?case by (auto intro: form_wf_ajax_error split: if_splits)
next
  case (9 s)
  then show ?case
    by (auto split: list.splits intro!: form_wf_callback dest: timers_wf_pop)
next
  case (10 s n)
  then show ?case by (auto split: if_splits intro: timers_wf_wait)
qed (auto split: if_splits option.splits simp: form_defs timers_wf_add form_wf_submit form_wf_ajax_success
       form_wf_ajax_error emailjs_rejected_def form_wf_fallback complete_request_def
       intro: form_wf_showSuccess)


subsection \<open>Properties\<close>

end
