(* ===== verification/ClaimOnce.thy ===== *)
theory ClaimOnce
  imports Counters
begin

text \<open>
  The claim-once registry of the specification (section 9): each counter has a claimed
  flag, and claiming is an atomic check-and-set that only the first caller passes; a
  caller that passes may start the counter's animation. This theory states that registry
  as an abstract machine, \<open>claim_step\<close>, and shows that the counter engine of
  \<open>Counters\<close> refines it: the abstraction \<open>registry_of\<close> of a page (its
  \<^verbatim>\<open>counted\<close> classes and the containers of its started animations) moves, at every
  step of the browser, by a finite sequence of abstract claims.
\<close>

subsection \<open>The abstract machine\<close>

record registry =
  claimed :: "dom_id \<Rightarrow> bool"
  animated :: "dom_id list"

text \<open>
  A claim of an unclaimed counter, which either starts its animation or, as the engine
  does for an \<^verbatim>\<open>h2\<close> id outside its table, starts nothing.
\<close>

inductive claim_step :: "registry \<Rightarrow> registry \<Rightarrow> bool" where
  claim_animate: "\<not> claimed a d \<Longrightarrow>
    claim_step a \<lparr>claimed = (claimed a)(d := True), animated = animated a @ [d]\<rparr>"
| claim_silent: "\<not> claimed a d \<Longrightarrow>
    claim_step a \<lparr>claimed = (claimed a)(d := True), animated = animated a\<rparr>"

abbreviation claims :: "registry \<Rightarrow> registry \<Rightarrow> bool" where
  "claims \<equiv> claim_step\<^sup>*\<^sup>*"

text \<open>The abstract invariant: animated counters are distinct and claimed.\<close>

definition registry_inv :: "registry \<Rightarrow> bool" where
  "registry_inv a = (distinct (animated a) \<and> (\<forall>d \<in> set (animated a). claimed a d))"

subsection \<open>The abstraction\<close>

definition registry_of :: "counter_page \<Rightarrow> registry" where
  "registry_of s = \<lparr>claimed = is_counted s, animated = map fst (started s)\<rparr>"

subsection \<open>The abstract machine keeps its invariant\<close>

lemma registry_inv_step: "claim_step a a' \<Longrightarrow> registry_inv a \<Longrightarrow> registry_inv a'"
  by (induction rule: claim_step.induct) (auto simp: registry_inv_def)

lemma registry_inv_claims: "claims a a' \<Longrightarrow> registry_inv a \<Longrightarrow> registry_inv a'"
  by (induction rule: rtranclp_induct) (auto intro: registry_inv_step)

subsection \<open>Each handler is a sequence of claims\<close>

lemma registry_of_stutter [simp]:
  "registry_of (set_timeout cb ms s) = registry_of s"
  "registry_of (s\<lparr>observers := os\<rparr>) = registry_of s"
  "registry_of (s\<lparr>ctimers := ts\<rparr>) = registry_of s"
  "registry_of (s\<lparr>cnow := n\<rparr>) = registry_of s"
  "registry_of (s\<lparr>dcl_pending := b\<rparr>) = registry_of s"
  by (simp_all add: registry_of_def)

lemma is_counted_Some: "divs s d = Some x \<Longrightarrow> is_counted s d = counted x"
  by (simp add: is_counted_def)

lemma mark_counted_claimed:
  "divs s d \<noteq> None \<Longrightarrow> is_counted (mark_counted d s) = (is_counted s)(d := True)"
  by (auto simp: fun_eq_iff)

lemma animated_start_count [simp]:
  "map fst (started (start_count d h t suf s)) = map fst (started s) @ [d]"
  by (simp add: start_count_def countUp_def)

lemma claim_start_mark:
  assumes "divs s d = Some x" "\<not> counted x"
  shows "claim_step (registry_of s) (registry_of (mark_counted d (start_count d h t suf s)))"
proof -
  have "registry_of (mark_counted d (start_count d h t suf s)) =
        \<lparr>claimed = (claimed (registry_of s))(d := True), animated = animated (registry_of s) @ [d]\<rparr>"
    using assms by (auto simp: registry_of_def fun_eq_iff)
  moreover have "\<not> claimed (registry_of s) d" using assms by (simp add: registry_of_def is_counted_Some)
  ultimately show ?thesis by (simp add: claim_animate)
qed

lemma claim_mark:
  assumes "divs s d = Some x" "\<not> counted x"
  shows "claim_step (registry_of s) (registry_of (mark_counted d s))"
proof -
  have "registry_of (mark_counted d s) =
        \<lparr>claimed = (claimed (registry_of s))(d := True), animated = animated (registry_of s)\<rparr>"
    using assms by (auto simp: registry_of_def fun_eq_iff)
  moreover have "\<not> claimed (registry_of s) d" using assms by (simp add: registry_of_def is_counted_Some)
  ultimately show ?thesis by (simp add: claim_silent)
qed

lemma claims_on_entry: "claims (registry_of s) (registry_of (on_entry i s entry))"
proof -
  obtain d b where e: "entry = (d, b)" by (cases entry)
  show ?thesis
  proof (cases "b \<and> \<not> is_counted s d")
    case True
    show ?thesis
    proof (cases "divs s d")
      case (Some x)
      with True have nc: "\<not> counted x" by (simp add: is_counted_Some)
      show ?thesis
      proof (cases "h2_id x")
        case (Some h)
        show ?thesis
        proof (cases "intersection_config h")
          case None
          with e True \<open>divs s d = Some x\<close> Some claim_mark [OF \<open>divs s d = Some x\<close> nc] show ?thesis
            by (simp add: on_entry_def)
        next
          case (Some c)
          with e True \<open>divs s d = Some x\<close> \<open>h2_id x = Some h\<close>
            claim_start_mark [OF \<open>divs s d = Some x\<close> nc, of h "fst c" "snd c"] show ?thesis
            by (cases c) (simp add: on_entry_def)
        qed
      qed (use e True Some in \<open>simp add: on_entry_def\<close>)
    qed (use e True in \<open>simp add: on_entry_def\<close>)
  qed (use e in \<open>auto simp: on_entry_def\<close>)
qed

lemma claims_trigger_one: "claims (registry_of s) (registry_of (trigger_one s cfg))"
  by (auto simp: trigger_one_def split: prod.splits option.splits intro: claim_start_mark)

lemma claims_foldl:
  assumes "\<And>s x. claims (registry_of s) (registry_of (f s x))"
  shows "claims (registry_of s) (registry_of (foldl f s xs))"
proof (induction xs arbitrary: s)
  case (Cons x xs)
  from assms [of s x] Cons.IH [of "f s x"] show ?case by simp
qed simp

lemma claims_initialize: "claims (registry_of s) (registry_of (initializeCounters s))"
  by (simp add: initializeCounters_def triggerCountersImmediately_def claims_foldl claims_trigger_one)

lemma claims_run_callback: "claims (registry_of s) (registry_of (run_callback cb s))"
  by (cases cb) (simp_all add: run_callback_def claims_initialize counter_fallback_def
      triggerCountersImmediately_def claims_foldl claims_trigger_one jquery_ready_def)

lemma claims_step: "counter_step s e = Some s' \<Longrightarrow> claims (registry_of s) (registry_of s')"
proof (cases e)
  case Tick
  moreover assume "counter_step s e = Some s'"
  ultimately obtain t cb rest where "ctimers s = (t, cb) # rest"
    and "s' = run_callback cb (s\<lparr>ctimers := rest, cnow := max t (cnow s)\<rparr>)"
    by (auto split: list.splits)
  then show ?thesis using claims_run_callback [of "s\<lparr>ctimers := rest, cnow := max t (cnow s)\<rparr>" cb]
    by simp
next
  case DomContentLoaded
  moreover assume "counter_step s e = Some s'"
  ultimately show ?thesis
    using claims_initialize [of "set_timeout CbInit 100 (s\<lparr>dcl_pending := False\<rparr>)"]
    by (auto simp: dom_content_loaded_def split: if_splits)
qed (auto split: if_splits simp: dom_content_loaded_def claims_initialize onIntersection_def
       triggerCountersImmediately_def intro: claims_foldl claims_on_entry claims_trigger_one)


lemma claims_reach: "counter_reach s0 s \<Longrightarrow> claims (registry_of s0) (registry_of s)"
  by (induction rule: counter_reach.induct) (auto intro: rtranclp_trans claims_step)

text \<open>Through the refinement, the registry's invariant holds of every reachable page.\<close>

lemma reach_registry_inv:
  "counter_reach s0 s \<Longrightarrow> registry_inv (registry_of s0) \<Longrightarrow> registry_inv (registry_of s)"
  by (blast intro: registry_inv_claims claims_reach)

subsection \<open>Properties\<close>

text \<open>
  C11: the counter engine refines the claim-once registry of the specification. From the
  page as the script is loaded, on any markup and in any browser, every reachable page is
  reached, in the abstraction that keeps only the \<^verbatim>\<open>counted\<close> classes and the
  containers of the started animations, by a finite sequence of atomic claims, each of an
  unclaimed counter, each starting at most that counter's animation.
\<close>

theorem engine_refines_claim_once:
  "counter_reach (script_load loading (initial_page dv io)) s \<Longrightarrow>
   claims (registry_of (script_load loading (initial_page dv io))) (registry_of s)"
  by (rule claims_reach)

theorem engine_refines_claim_once_witness:
  "\<exists>s. counter_reach (script_load False (initial_page page_divs True)) s \<and>
       animated (registry_of s) = counterDivs \<and>
       claims (registry_of (script_load False (initial_page page_divs True))) (registry_of s)"
proof -
  have "map_option (\<lambda>s. map fst (started s))
          (counter_run (script_load False (initial_page page_divs True)) [Tick, Tick, Tick, Tick, Tick])
        = Some counterDivs"
    by (simp add: page_simps)
  then obtain s where r: "counter_run (script_load False (initial_page page_divs True))
      [Tick, Tick, Tick, Tick, Tick] = Some s" and st: "map fst (started s) = counterDivs"
    by auto
  from r have reach: "counter_reach (script_load False (initial_page page_divs True)) s"
    by (rule counter_run_reach)
  have "claims (registry_of (script_load False (initial_page page_divs True))) (registry_of s)"
    by (rule engine_refines_claim_once [OF reach])
  with reach st show ?thesis by (intro exI [of _ s]) (simp add: registry_of_def)
qed

end
