(* ===== verification/Page.thy ===== *)
theory Page
  imports Queues ClaimOnce
begin

text \<open>
  The whole page. \<^verbatim>\<open>part.js\<close> runs its two parts, the counter engine (lines 2--226)
  and the quote form controller (lines 230--573), in one window: one JavaScript event
  loop, one clock (\<^verbatim>\<open>Date.now()\<close>), one timer list for every \<^verbatim>\<open>setTimeout\<close> of
  either part. The parts share no variable, so the page is the product of the counter
  page of \<open>Counters\<close> and the form page of \<open>FormController\<close>; what the product adds
  is the event loop, which interleaves the parts' events and runs the earliest pending
  timer of both queues, moving the other part's clock to the same time. The lemmas show
  that each part sees a run of its own engine (\<open>page_reach_projects\<close>, so that every
  property of the component theories holds on the page), that the two clocks agree
  (\<open>page_reach_sync\<close>), that firing runs the earliest timer of both queues
  (\<open>fire_earliest\<close>); the claim is that the counter part cannot starve the form's
  AJAX timeout.
\<close>

subsection \<open>The page and its event loop\<close>

record page =
  pc :: counter_page
  pf :: form_page

text \<open>
  Events of the page: an event of one part (page load, observer report, debug call, user
  or network event), the next timer of the page firing, and time passing with no timer
  due.
\<close>

datatype page_event = Counter counter_event | Form form_event | Fire | Elapse nat

text \<open>
  The events of each part that the page's loop drives instead: the clock events, and the
  form's half of jQuery's ready callback, which runs when the counter engine's half does.
\<close>

fun counter_loop_event :: "counter_event \<Rightarrow> bool" where
  "counter_loop_event Tick = True"
| "counter_loop_event (Wait n) = True"
| "counter_loop_event e = False"

fun form_loop_event :: "form_event \<Rightarrow> bool" where
  "form_loop_event FTick = True"
| "form_loop_event (FWait n) = True"
| "form_loop_event JQueryReady = True"
| "form_loop_event e = False"

text \<open>
  Whether the counter queue's head is the page's next timer. Of two timers due at the
  same time the counter's runs first: the parts touch disjoint state, so their order does
  not change either part.
\<close>

fun counter_first :: "'a timers \<Rightarrow> 'b timers \<Rightarrow> bool" where
  "counter_first [] us = False"
| "counter_first ((t, a) # ts) [] = True"
| "counter_first ((t, a) # ts) ((u, b) # us) = (t \<le> u)"

text \<open>
  Firing the page's next timer: the part that owns it takes its \<open>Tick\<close> step, the
  other part waits until the clock the first one reached.
\<close>

text \<open>
  jQuery's ready callback (lines 2--22) is one callback: when the counter engine runs its
  \<open>CbJQueryReady\<close>, the form's change handlers are bound in the same task.
\<close>

definition ready_hook :: "counter_cb \<Rightarrow> form_page \<Rightarrow> form_page" where
  "ready_hook cb f = (if cb = CbJQueryReady then bind_ready_handlers f else f)"

definition fire_counter :: "page \<Rightarrow> page option" where
  "fire_counter p =
     (case ctimers (pc p) of
        [] \<Rightarrow> None
      | (t, cb) # rest \<Rightarrow>
          (case counter_step (pc p) Tick of
             None \<Rightarrow> None
           | Some c \<Rightarrow> map_option (\<lambda>f. \<lparr>pc = c, pf = ready_hook cb f\<rparr>)
                          (form_step (pf p) (FWait (cnow c - fnow (pf p))))))"

definition fire_form :: "page \<Rightarrow> page option" where
  "fire_form p =
     (case form_step (pf p) FTick of
        None \<Rightarrow> None
      | Some f \<Rightarrow> map_option (\<lambda>c. \<lparr>pc = c, pf = f\<rparr>) (counter_step (pc p) (Wait (fnow f - cnow (pc p)))))"

fun page_step :: "page \<Rightarrow> page_event \<Rightarrow> page option" where
  "page_step p (Counter e) =
     (if counter_loop_event e then None else map_option (\<lambda>c. p\<lparr>pc := c\<rparr>) (counter_step (pc p) e))"
| "page_step p (Form e) =
     (if form_loop_event e then None else map_option (\<lambda>f. p\<lparr>pf := f\<rparr>) (form_step (pf p) e))"
| "page_step p Fire =
     (if counter_first (ctimers (pc p)) (ftimers (pf p)) then fire_counter p else fire_form p)"
| "page_step p (Elapse n) =
     (case (counter_step (pc p) (Wait n), form_step (pf p) (FWait n)) of
        (Some c, Some f) \<Rightarrow> Some \<lparr>pc = c, pf = f\<rparr>
      | _ \<Rightarrow> None)"

fun page_run :: "page \<Rightarrow> page_event list \<Rightarrow> page option" where
  "page_run p [] = Some p"
| "page_run p (e # es) = (case page_step p e of None \<Rightarrow> None | Some p' \<Rightarrow> page_run p' es)"

inductive page_reach :: "page \<Rightarrow> page \<Rightarrow> bool" where
  preach_refl: "page_reach p p"
| preach_step: "page_reach p0 p \<Longrightarrow> page_step p e = Some p' \<Longrightarrow> page_reach p0 p'"

text \<open>The page as loaded: the script evaluated, the form holding the request \<open>d\<close>.\<close>

text \<open>
  The work the counter queue holds before time \<open>T\<close>: a timer due at \<open>t \<le> T\<close>
  counts \<open>T + 1 - t\<close>. Every counter callback arms at most one timer, at least 500 ms
  later, so firing a counter timer due before \<open>T\<close> decreases it.
\<close>

definition due_weight :: "nat \<Rightarrow> 'cb timers \<Rightarrow> nat" where
  "due_weight T ts = sum_list (map (\<lambda>(t, cb). T + 1 - t) ts)"

definition page_load :: "bool \<Rightarrow> (dom_id \<Rightarrow> counter_div option) \<Rightarrow> bool \<Rightarrow> bool \<Rightarrow> quote_request \<Rightarrow> page" where
  "page_load loading dv io ejs d =
     \<lparr>pc = script_load loading (initial_page dv io), pf = (initial_form ejs)\<lparr>form := d\<rparr>\<rparr>"

subsection \<open>Handlers do not move the clock\<close>

lemma ready_hook_keeps [simp]:
  "fnow (ready_hook cb f) = fnow f" "ftimers (ready_hook cb f) = ftimers f"
  "pending (ready_hook cb f) = pending f" "timer_weight (ready_hook cb f) = timer_weight f"
  by (simp_all add: ready_hook_def bind_ready_handlers_def timer_weight_def banner_bound_def)

lemma ready_hook_reach: "form_reach f0 f \<Longrightarrow> form_reach f0 (ready_hook cb f)"
  using freach_step [of f0 f JQueryReady] by (simp add: ready_hook_def)

lemma ready_hook_step: "form_step f e = Some f' \<Longrightarrow> form_reach f (ready_hook cb f')"
  by (rule ready_hook_reach) (rule freach_step [OF freach_refl])

lemma cnow_run_callback [simp]: "cnow (run_callback cb s) = cnow s"
  by (cases cb) (simp_all add: run_callback_def initializeCounters_def counter_fallback_def
      jquery_ready_def clock_trigger set_timeout_def)

lemma counter_step_cnow:
  "counter_step s e = Some s' \<Longrightarrow> \<not> counter_loop_event e \<Longrightarrow> cnow s' = cnow s"
  by (cases e) (auto simp: dom_content_loaded_def initializeCounters_def clock_trigger set_timeout_def
      onIntersection_def timers_wf_foldl [OF clock_on_entry] split: if_splits)

lemma fnow_fade_out [simp]: "fnow (fade_out ids s) = fnow s"
  unfolding fade_out_def by (induction ids arbitrary: s) (simp_all add: form_timeout_def)

lemma fnow_handlers [simp]:
  "fnow (showSuccessMessage s) = fnow s"
  "fnow (showErrorMessage m s) = fnow s"
  "fnow (fallbackEmailMethod dt subj body s) = fnow s"
  "fnow (complete_request i s) = fnow s"
  by (simp_all add: form_defs complete_request_def)

lemma fnow_submit [simp]: "fnow (submit date s) = fnow s"
  unfolding submit_def fold_set_border_eq
  by (simp add: sendEmail_def Let_def start_request_def)

lemma fnow_ajax [simp]:
  "fnow (ajax_success i r s) = fnow s"
  "fnow (ajax_error i st c e s) = fnow s"
  by (cases "ajax_reply r") (simp_all add: ajax_success_eq ajax_error_def)

lemma fnow_run_form_callback [simp]: "fnow (run_form_callback cb s) = fnow s"
  by (cases cb) (simp_all add: run_form_callback_def remove_banner_def)

lemma form_step_fnow:
  "form_step s e = Some s' \<Longrightarrow> \<not> form_loop_event e \<Longrightarrow> fnow s' = fnow s"
  by (induction s e rule: form_step.induct)
     (auto simp: form_defs split: if_splits option.splits reply.splits)

lemma counter_clock_steps:
  "counter_step s Tick = Some s' \<Longrightarrow> cnow s \<le> cnow s'"
  "counter_step s (Wait n) = Some s' \<Longrightarrow> cnow s' = cnow s + n"
  by (auto split: list.splits if_splits)

lemma form_clock_steps:
  "form_step s FTick = Some s' \<Longrightarrow> fnow s \<le> fnow s'"
  "form_step s (FWait n) = Some s' \<Longrightarrow> fnow s' = fnow s + n"
  by (auto split: list.splits if_splits)

subsection \<open>Each part sees a run of its own engine\<close>

lemma counter_reach_trans: "counter_reach s1 s2 \<Longrightarrow> counter_reach s0 s1 \<Longrightarrow> counter_reach s0 s2"
  by (induction rule: counter_reach.induct) (auto intro: counter_reach.reach_step)

lemma form_reach_trans: "form_reach s1 s2 \<Longrightarrow> form_reach s0 s1 \<Longrightarrow> form_reach s0 s2"
  by (induction rule: form_reach.induct) (auto intro: freach_step)

lemmas one_step_reach =
  counter_reach.reach_step [OF counter_reach.reach_refl] freach_step [OF freach_refl]

lemma page_step_projects:
  "page_step p e = Some p' \<Longrightarrow> counter_reach (pc p) (pc p') \<and> form_reach (pf p) (pf p')"
  by (cases e)
     (auto simp: fire_counter_def fire_form_def simp del: counter_step.simps form_step.simps
       split: if_splits option.splits prod.splits list.splits
       intro: one_step_reach ready_hook_step counter_reach.reach_refl freach_refl)

lemma page_reach_projects:
  "page_reach p0 p \<Longrightarrow> counter_reach (pc p0) (pc p) \<and> form_reach (pf p0) (pf p)"
  by (induction rule: page_reach.induct) (auto dest: page_step_projects intro: counter_reach_trans form_reach_trans counter_reach.reach_refl freach_refl)

subsection \<open>One clock\<close>

lemma page_step_sync:
  assumes "page_step p e = Some p'" and "cnow (pc p) = fnow (pf p)"
  shows "cnow (pc p') = fnow (pf p')"
proof (cases e)
  case Fire
  with assms show ?thesis
    by (auto simp: fire_counter_def fire_form_def simp del: counter_step.simps form_step.simps
        split: if_splits option.splits list.splits dest!: counter_clock_steps form_clock_steps)
next
  case (Elapse n)
  with assms show ?thesis
    by (auto simp del: counter_step.simps form_step.simps split: option.splits
        dest!: counter_clock_steps form_clock_steps)
qed (use assms counter_step_cnow form_step_fnow in \<open>auto split: if_splits\<close>)

lemma page_reach_sync:
  "page_reach p0 p \<Longrightarrow> cnow (pc p0) = fnow (pf p0) \<Longrightarrow> cnow (pc p) = fnow (pf p)"
  by (induction rule: page_reach.induct) (auto intro: page_step_sync)

subsection \<open>The earliest timer of the page fires\<close>

lemma timers_wf_bound:
  "timers_wf now ((t, a) # rest) \<Longrightarrow> now \<le> t \<and> list_all (\<lambda>(v, c). t \<le> v) ((t, a) # rest)"
  by (auto simp: timers_wf_def list_all_iff)

lemma list_all_bound_Min:
  "list_all (\<lambda>(v, c). t \<le> v) xs \<Longrightarrow> list_all (\<lambda>(v, c). t \<le> v) ys \<Longrightarrow>
   t \<in> fst ` set xs \<union> fst ` set ys \<Longrightarrow> Min (fst ` set xs \<union> fst ` set ys) = t"
  by (rule Min_eqI) (auto simp: list_all_iff)

lemma counter_first_head:
  assumes "counter_first ts us" "timers_wf n ts" "timers_wf m us"
  obtains t a rest where "ts = (t, a) # rest" "n \<le> t" "list_all (\<lambda>(v, c). t \<le> v) ts"
    "list_all (\<lambda>(v, c). t \<le> v) us"
proof -
  from assms(1) obtain t a rest where ts: "ts = (t, a) # rest" by (cases ts) auto
  have "list_all (\<lambda>(v, c). t \<le> v) us"
  proof (cases us)
    case (Cons y ys)
    with assms ts show ?thesis by (cases y) (force dest!: timers_wf_bound simp: list_all_iff split_def)
  qed simp
  with that ts timers_wf_bound [OF assms(2) [unfolded ts]] show ?thesis by simp
qed

lemma form_first_head:
  assumes "\<not> counter_first ts us" "ts \<noteq> [] \<or> us \<noteq> []" "timers_wf n ts" "timers_wf m us"
  obtains u b rest where "us = (u, b) # rest" "m \<le> u" "list_all (\<lambda>(v, c). u \<le> v) ts"
    "list_all (\<lambda>(v, c). u \<le> v) us"
proof -
  from assms(1,2) obtain u b rest where us: "us = (u, b) # rest"
    by (cases us; cases ts) auto
  have "list_all (\<lambda>(v, c). u \<le> v) ts"
  proof (cases ts)
    case (Cons x xs)
    with assms us show ?thesis by (cases x) (force dest!: timers_wf_bound simp: list_all_iff split_def)
  qed simp
  with that us timers_wf_bound [OF assms(4) [unfolded us]] show ?thesis by simp
qed

lemma fire_earliest:
  assumes sync: "cnow (pc p) = fnow (pf p)"
    and wc: "timers_wf (cnow (pc p)) (ctimers (pc p))"
    and wf: "timers_wf (fnow (pf p)) (ftimers (pf p))"
    and ne: "ctimers (pc p) \<noteq> [] \<or> ftimers (pf p) \<noteq> []"
  shows "\<exists>p'. page_step p Fire = Some p' \<and>
           cnow (pc p') = Min (fst ` set (ctimers (pc p)) \<union> fst ` set (ftimers (pf p)))"
proof (cases "counter_first (ctimers (pc p)) (ftimers (pf p))")
  case True
  then obtain t a rest where ct: "ctimers (pc p) = (t, a) # rest" and le: "cnow (pc p) \<le> t"
    and b1: "list_all (\<lambda>(v, c). t \<le> v) (ctimers (pc p))"
    and b2: "list_all (\<lambda>(v, c). t \<le> v) (ftimers (pf p))"
    using wc wf by (rule counter_first_head)
  let ?c = "run_callback a ((pc p)\<lparr>ctimers := rest, cnow := max t (cnow (pc p))\<rparr>)"
  have c: "counter_step (pc p) Tick = Some ?c" and t: "cnow ?c = t" using ct le by simp_all
  have "form_step (pf p) (FWait (t - fnow (pf p))) = Some ((pf p)\<lparr>fnow := t\<rparr>)"
    using b2 sync le by (auto simp: list_all_iff)
  with c t True ct have "page_step p Fire = Some \<lparr>pc = ?c, pf = ready_hook a ((pf p)\<lparr>fnow := t\<rparr>)\<rparr>"
    by (simp add: fire_counter_def del: counter_step.simps form_step.simps)
  moreover have "Min (fst ` set (ctimers (pc p)) \<union> fst ` set (ftimers (pf p))) = t"
    using b1 b2 ct by (intro list_all_bound_Min) auto
  ultimately show ?thesis using t by auto
next
  case False
  then obtain u b rest where ft: "ftimers (pf p) = (u, b) # rest" and le: "fnow (pf p) \<le> u"
    and b1: "list_all (\<lambda>(v, c). u \<le> v) (ctimers (pc p))"
    and b2: "list_all (\<lambda>(v, c). u \<le> v) (ftimers (pf p))"
    using ne wc wf by (rule form_first_head)
  let ?f = "run_form_callback b ((pf p)\<lparr>ftimers := rest, fnow := max u (fnow (pf p))\<rparr>)"
  have f: "form_step (pf p) FTick = Some ?f" and u: "fnow ?f = u" using ft le by simp_all
  have "counter_step (pc p) (Wait (u - cnow (pc p))) = Some ((pc p)\<lparr>cnow := u\<rparr>)"
    using b1 sync le by (auto simp: list_all_iff)
  with f u False have "page_step p Fire = Some \<lparr>pc = (pc p)\<lparr>cnow := u\<rparr>, pf = ?f\<rparr>"
    by (simp add: fire_form_def del: counter_step.simps form_step.simps)
  moreover have "Min (fst ` set (ctimers (pc p)) \<union> fst ` set (ftimers (pf p))) = u"
    using b1 b2 ft by (intro list_all_bound_Min) auto
  ultimately show ?thesis by auto
qed

subsection \<open>The loaded page\<close>

lemma page_run_reach: "page_reach p0 p \<Longrightarrow> page_run p es = Some p' \<Longrightarrow> page_reach p0 p'"
  by (induction es arbitrary: p) (auto split: option.splits intro: preach_step)

lemma page_load_reach_inv:
  assumes "page_reach (page_load loading dv io ejs d) p"
  shows "cnow (pc p) = fnow (pf p) \<and> timers_wf (cnow (pc p)) (ctimers (pc p)) \<and>
         timers_wf (fnow (pf p)) (ftimers (pf p))"
proof -
  from page_reach_projects [OF assms]
  have c: "counter_reach (script_load loading (initial_page dv io)) (pc p)"
    and f: "form_reach ((initial_form ejs)\<lparr>form := d\<rparr>) (pf p)"
    by (simp_all add: page_load_def)
  have "timers_wf (cnow (pc p)) (ctimers (pc p))"
    by (rule counter_reach_wf [OF c]) (simp add: script_load_def initial_page_def set_timeout_def timers_wf_def)
  moreover have "timers_wf (fnow (pf p)) (ftimers (pf p))"
    using f by (rule form_reach_induct) (simp add: initial_form_def timers_wf_def, rule form_wf_step)
  moreover have "cnow (pc p) = fnow (pf p)"
    using assms by (rule page_reach_sync)
      (simp add: page_load_def script_load_def initial_page_def set_timeout_def initial_form_def)
  ultimately show ?thesis by blast
qed

lemmas page_run_simps = page_load_def fire_counter_def fire_form_def ready_hook_def page_simps run_simps

text \<open>
  The page with the specification's Jane Doe request: the jQuery ready callback (due at 0)
  and the first \<^verbatim>\<open>initializeCounters\<close> (due at 100) fire, then the request is
  submitted, which leaves the retry of \<^verbatim>\<open>initializeCounters\<close> (due at 500), the
  counters' fallback (due at 10100) and the AJAX timeout (due at 30100) pending.
\<close>

lemma jane_submit_two_fires:
  "\<exists>p. page_reach (page_load False page_divs True False jane) p \<and> cnow (pc p) = 100 \<and>
       map fst (ctimers (pc p)) = [500, 10100] \<and> map fst (ftimers (pf p)) = [30100] \<and>
       map rq_channel (pending (pf p)) = [Ajax]"
proof -
  have "map_option (\<lambda>p. (cnow (pc p), map fst (ctimers (pc p)), map fst (ftimers (pf p)),
                             map rq_channel (pending (pf p))))
          (page_run (page_load False page_divs True False jane) [Fire, Fire, Form (Submit ''11/9/2026'')])
        = Some (100, [500, 10100], [30100], [Ajax])"
    by (simp add: page_run_simps)
  then obtain p where r: "page_run (page_load False page_divs True False jane)
          [Fire, Fire, Form (Submit ''11/9/2026'')] = Some p"
    and q: "cnow (pc p) = 100" "map fst (ctimers (pc p)) = [500, 10100]" "map fst (ftimers (pf p)) = [30100]"
      "map rq_channel (pending (pf p)) = [Ajax]"
    by (auto simp del: page_run.simps)
  from page_run_reach [OF preach_refl r] q show ?thesis by auto
qed

subsection \<open>The counter part cannot starve the form\<close>

lemma run_callback_timers:
  "ctimers (run_callback cb s) = ctimers s \<or>
   (\<exists>ms cb'. 500 \<le> ms \<and> ctimers (run_callback cb s) = add_timer (cnow s + ms, cb') (ctimers s))"
proof (cases cb)
  case CbInit
  have "ctimers (run_callback cb s) = add_timer (cnow s + 1000, CbInit) (ctimers s) \<or>
        ctimers (run_callback cb s) = ctimers s \<or>
        ctimers (run_callback cb s) = add_timer (cnow s + 10000, CbFallback) (ctimers s)"
    using CbInit by (simp add: run_callback_def initializeCounters_def set_timeout_def clock_trigger)
  moreover have "500 \<le> (1000::nat)" "500 \<le> (10000::nat)" by simp_all
  ultimately show ?thesis by blast
next
  case CbJQueryReady
  then show ?thesis by (auto simp: run_callback_def jquery_ready_def set_timeout_def)
qed (simp add: run_callback_def counter_fallback_def clock_trigger)

lemma due_weight_tick:
  assumes ts: "ctimers s = (t, cb) # rest" and le: "cnow s \<le> t" "t \<le> T"
  shows "due_weight T (ctimers (run_callback cb (s\<lparr>ctimers := rest, cnow := max t (cnow s)\<rparr>)))
         < due_weight T (ctimers s)"
proof -
  let ?s = "s\<lparr>ctimers := rest, cnow := max t (cnow s)\<rparr>"
  have old: "due_weight T (ctimers s) = (T + 1 - t) + due_weight T rest"
    by (simp add: due_weight_def ts)
  from run_callback_timers [of cb ?s] show ?thesis
  proof
    assume "ctimers (run_callback cb ?s) = ctimers ?s"
    with old le show ?thesis by (simp add: due_weight_def)
  next
    assume "\<exists>ms cb'. 500 \<le> ms \<and> ctimers (run_callback cb ?s) = add_timer (cnow ?s + ms, cb') (ctimers ?s)"
    then obtain ms cb' where "500 \<le> ms"
      and "ctimers (run_callback cb ?s) = add_timer (max t (cnow s) + ms, cb') rest" by auto
    with old le show ?thesis by (simp add: due_weight_def sum_list_add_timer)
  qed
qed

lemma timer_weight_fnow [simp]: "timer_weight (s\<lparr>fnow := n\<rparr>) = timer_weight s"
  by (simp add: timer_weight_def banner_bound_def)

lemma fire_counter_cases:
  "fire_counter p = Some p' \<Longrightarrow> \<exists>t a rest. ctimers (pc p) = (t, a) # rest \<and>
     pc p' = run_callback a ((pc p)\<lparr>ctimers := rest, cnow := max t (cnow (pc p))\<rparr>) \<and>
     pf p' = ready_hook a ((pf p)\<lparr>fnow := fnow (pf p')\<rparr>)"
  by (auto simp: fire_counter_def split: option.splits list.splits if_splits)

lemma fire_form_cases:
  "fire_form p = Some p' \<Longrightarrow> \<exists>u b rest n. ftimers (pf p) = (u, b) # rest \<and>
     pf p' = run_form_callback b ((pf p)\<lparr>ftimers := rest, fnow := max u (fnow (pf p))\<rparr>) \<and>
     pc p' = (pc p)\<lparr>cnow := n\<rparr>"
  by (auto simp: fire_form_def split: option.splits list.splits if_splits)

text \<open>
  The measure of the page's pending work: the form's \<open>timer_weight\<close>, then the counter
  work due before the form's next timer.
\<close>

lemma fire_decreases:
  assumes wc: "timers_wf (cnow (pc p)) (ctimers (pc p))"
    and ne: "ftimers (pf p) \<noteq> []" and step: "page_step p Fire = Some p'"
  shows "(p', p) \<in> measures [\<lambda>p. timer_weight (pf p), \<lambda>p. due_weight (fst (hd (ftimers (pf p)))) (ctimers (pc p))]"
proof (cases "counter_first (ctimers (pc p)) (ftimers (pf p))")
  case True
  with step have "fire_counter p = Some p'" by simp
  then obtain t a rest where ct: "ctimers (pc p) = (t, a) # rest"
    and c': "pc p' = run_callback a ((pc p)\<lparr>ctimers := rest, cnow := max t (cnow (pc p))\<rparr>)"
    and f': "pf p' = ready_hook a ((pf p)\<lparr>fnow := fnow (pf p')\<rparr>)"
    by (blast dest: fire_counter_cases)
  obtain u b us where ft: "ftimers (pf p) = (u, b) # us" using ne by (cases "ftimers (pf p)") auto
  have "t \<le> u" using True ct ft by simp
  moreover have "cnow (pc p) \<le> t" using timers_wf_bound [OF wc [unfolded ct]] by simp
  ultimately have "due_weight u (ctimers (pc p')) < due_weight u (ctimers (pc p))"
    unfolding c' using due_weight_tick [OF ct] by blast
  moreover have "ftimers (pf p') = ftimers (pf p)" "timer_weight (pf p') = timer_weight (pf p)"
    by (subst f', simp)+
  ultimately show ?thesis using ft by simp
next
  case False
  with step have "fire_form p = Some p'" by simp
  then obtain u b rest n where ft: "ftimers (pf p) = (u, b) # rest"
    and f': "pf p' = run_form_callback b ((pf p)\<lparr>ftimers := rest, fnow := max u (fnow (pf p))\<rparr>)"
    by (blast dest: fire_form_cases)
  have "timer_weight (pf p') < timer_weight (pf p)" unfolding f' by (rule timer_weight_tick [OF ft])
  then show ?thesis by simp
qed

lemma page_settles:
  assumes "page_reach (page_load loading dv io ejs d) p" "r \<in> set (pending (pf p))" "rq_channel r = Ajax"
  shows "\<exists>k p'. page_run p (replicate k Fire) = Some p' \<and> r \<notin> set (pending (pf p'))"
  using assms
proof (induction p rule: wf_induct_rule [OF wf_measures
    [of "[\<lambda>p. timer_weight (pf p), \<lambda>p. due_weight (fst (hd (ftimers (pf p)))) (ctimers (pc p))]"]])
  case (1 p)
  have inv: "cnow (pc p) = fnow (pf p) \<and> timers_wf (cnow (pc p)) (ctimers (pc p)) \<and>
             timers_wf (fnow (pf p)) (ftimers (pf p))"
    using 1(2) by (rule page_load_reach_inv)
  have "form_reach ((initial_form ejs)\<lparr>form := d\<rparr>) (pf p)"
    using page_reach_projects [OF 1(2)] by (simp add: page_load_def)
  then have "form_inv (pf p)" by (rule form_inv_reach)
  with 1(3,4) obtain t where "(t, AjaxTimeout (rq_id r)) \<in> set (ftimers (pf p))"
    by (auto simp: form_inv_def)
  then have ne: "ftimers (pf p) \<noteq> []" by auto
  from inv ne fire_earliest [of p] obtain p' where step: "page_step p Fire = Some p'" by blast
  have reach': "page_reach (page_load loading dv io ejs d) p'" by (rule preach_step [OF 1(2) step])
  have dec: "(p', p) \<in> measures [\<lambda>p. timer_weight (pf p), \<lambda>p. due_weight (fst (hd (ftimers (pf p)))) (ctimers (pc p))]"
    using inv ne step by (blast intro: fire_decreases)
  show ?case
  proof (cases "r \<in> set (pending (pf p'))")
    case True
    from 1(1) [OF dec reach' True 1(4)] obtain k p'' where
      "page_run p' (replicate k Fire) = Some p''" "r \<notin> set (pending (pf p''))" by blast
    with step show ?thesis by (intro exI [where x = "Suc k"]) (auto simp del: page_step.simps)
  next
    case False
    with step show ?thesis by (intro exI [where x = "Suc 0"]) (auto simp del: page_step.simps)
  qed
qed

subsection \<open>Properties\<close>

text \<open>
  C17: the counter part cannot starve the form. In every page reachable from the load, on
  any markup (also one on which \<^verbatim>\<open>initializeCounters\<close> retries forever), an AJAX
  request in flight ends, by its answer or by jQuery's timeout, after the event loop fires
  a finite number of timers of either part.
\<close>

theorem page_ajax_settles:
  "page_reach (page_load loading dv io ejs d) p \<Longrightarrow> r \<in> set (pending (pf p)) \<Longrightarrow> rq_channel r = Ajax \<Longrightarrow>
   \<exists>k p'. page_run p (replicate k Fire) = Some p' \<and> r \<notin> set (pending (pf p'))"
  by (rule page_settles)

theorem page_ajax_settles_witness:
  "\<exists>p k p'. page_reach (page_load False page_divs True False jane) p \<and> pending (pf p) \<noteq> [] \<and>
     page_run p (replicate k Fire) = Some p' \<and> hd (pending (pf p)) \<notin> set (pending (pf p'))"
proof -
  obtain p where reach: "page_reach (page_load False page_divs True False jane) p"
    and ch: "map rq_channel (pending (pf p)) = [Ajax]"
    using jane_submit_two_fires by auto
  then obtain r where r: "pending (pf p) = [r]" "rq_channel r = Ajax" by auto
  then have "r \<in> set (pending (pf p))" by simp
  from page_ajax_settles [OF reach this r(2)] obtain k p' where
    "page_run p (replicate k Fire) = Some p'" "r \<notin> set (pending (pf p'))" by blast
  with reach r show ?thesis by (intro exI [of _ p] exI [of _ k] exI [of _ p'] conjI) simp_all
qed

end
