(* ===== verification/BannerIds.thy ===== *)
theory BannerIds
  imports FormController
begin

text \<open>
  Identities of the elements the controller creates. The model names each banner
  \<^verbatim>\<open>div\<close> and each request in flight by a number drawn from the counter
  \<open>fnext\<close>; removing a banner and ending a request then act on that number, as
  \<^verbatim>\<open>$(this).remove()\<close> and a request's own callbacks act on their own object. The
  numbers are fresh and distinct in every reachable page, so that this naming is exact:
  each removal removes one banner and each answer ends one request. With distinct request
  identities, a timer can only end the AJAX request it was armed for, so an EmailJS request
  in flight outlives every sequence of timers.
\<close>

definition ids_fresh :: "form_page \<Rightarrow> bool" where
  "ids_fresh s =
     (distinct (map bn_id (banners s)) \<and> list_all (\<lambda>b. bn_id b < fnext s) (banners s) \<and>
      distinct (map rq_id (pending s)) \<and> list_all (\<lambda>r. rq_id r < fnext s) (pending s))"

lemma ids_fresh_showSuccess: "ids_fresh s \<Longrightarrow> ids_fresh (showSuccessMessage s)"
  by (auto simp: ids_fresh_def form_defs list_all_iff)

lemma ids_fresh_showError: "ids_fresh s \<Longrightarrow> ids_fresh (showErrorMessage m s)"
  by (auto simp: ids_fresh_def form_defs list_all_iff)

lemma ids_fresh_complete: "ids_fresh s \<Longrightarrow> ids_fresh (complete_request i s)"
  by (auto simp: ids_fresh_def complete_request_def list_all_iff distinct_map_filter)

lemma ids_fresh_updates [simp]:
  "ids_fresh (s\<lparr>loader := b\<rparr>) = ids_fresh s"
  "ids_fresh (s\<lparr>ftimers := ts, fnow := n\<rparr>) = ids_fresh s"
  by (simp_all add: ids_fresh_def)

lemma ids_fresh_fallback: "ids_fresh s \<Longrightarrow> ids_fresh (fallbackEmailMethod d subj body s)"
  by (auto simp: ids_fresh_def form_defs list_all_iff)

lemma ids_fresh_submit: "ids_fresh s \<Longrightarrow> ids_fresh (submit date s)"
  unfolding submit_def fold_set_border_eq
  by (auto simp: ids_fresh_def form_defs list_all_iff)

lemma ids_fresh_rejected: "ids_fresh s \<Longrightarrow> ids_fresh (emailjs_rejected i s)"
  by (auto simp: emailjs_rejected_def split: option.splits intro!: ids_fresh_fallback ids_fresh_complete)

lemma ids_fresh_ajax_success: "ids_fresh s \<Longrightarrow> ids_fresh (ajax_success i r s)"
  by (cases "ajax_reply r")
     (simp_all add: ajax_success_eq ids_fresh_showSuccess ids_fresh_showError ids_fresh_complete,
      simp add: ids_fresh_def complete_request_def list_all_iff distinct_map_filter)

lemma ids_fresh_ajax_error: "ids_fresh s \<Longrightarrow> ids_fresh (ajax_error i st c e s)"
  by (simp add: ajax_error_def ids_fresh_showError ids_fresh_complete)

lemma ids_fresh_callback: "ids_fresh (run_form_callback cb s)" if "ids_fresh s"
proof (cases cb)
  case (AjaxTimeout i)
  then show ?thesis using that by (simp add: run_form_callback_def ids_fresh_ajax_error)
qed (use that in \<open>auto simp: run_form_callback_def fade_out_eq ids_fresh_def remove_banner_def
      list_all_iff distinct_map_filter\<close>)

lemma ids_fresh_step: "ids_fresh s \<Longrightarrow> form_step s e = Some s' \<Longrightarrow> ids_fresh s'"
proof (induction s e rule: form_step.induct)
  case (4 s date)
  then show ?case by (auto intro: ids_fresh_submit)
next
  case (5 s i)
  then show ?case
    by (auto simp: emailjs_resolved_def intro!: ids_fresh_showSuccess ids_fresh_complete split: if_splits)
next
  case (6 s i)
  then show ?case by (auto intro: ids_fresh_rejected split: if_splits)
next
  case (7 s i r)
  then show ?case by (auto intro: ids_fresh_ajax_success split: if_splits)
next
  case (8 s i st c e)
  then show ?case by (auto intro: ids_fresh_ajax_error split: if_splits)
next
  case (9 s)
  then show ?case
    by (auto split: list.splits intro!: ids_fresh_callback)
qed (auto simp: ids_fresh_def form_defs split: if_splits)


lemma ids_fresh_reach: "form_reach ((initial_form ejs)\<lparr>form := d\<rparr>) s \<Longrightarrow> ids_fresh s"
  by (erule form_reach_induct) (simp add: ids_fresh_def initial_form_def, rule ids_fresh_step)

subsection \<open>Properties\<close>

lemma timer_step_keeps_emailjs:
  assumes f: "ids_fresh s" and st: "form_step s e = Some s'" and e: "e = FTick \<or> (\<exists>n. e = FWait n)"
    and r: "r \<in> set (pending s)" "rq_channel r = EmailJS"
  shows "r \<in> set (pending s')"
proof (cases "e = FTick")
  case True
  with st obtain t cb rest where ts: "ftimers s = (t, cb) # rest"
    and s': "s' = run_form_callback cb (s\<lparr>ftimers := rest, fnow := max t (fnow s)\<rparr>)"
    by (auto split: list.splits)
  have "rq_id r \<noteq> i" if "is_pending i Ajax s" for i
  proof
    assume "rq_id r = i"
    from that obtain q where q: "q \<in> set (pending s)" "rq_id q = i" "rq_channel q = Ajax"
      by (auto simp: is_pending_def)
    from f have "distinct (map rq_id (pending s))" by (simp add: ids_fresh_def)
    with q r \<open>rq_id r = i\<close> have "q = r" by (metis distinct_map inj_onD)
    with q r show False by simp
  qed
  with r show ?thesis unfolding s'
    by (cases cb) (auto simp: run_form_callback_def fade_out_eq remove_banner_def ajax_error_def
        showErrorMessage_def insert_banner_def form_timeout_def complete_request_def is_pending_def)
next
  case False
  with e st r show ?thesis by (auto split: if_splits)
qed

lemma timer_run_keeps_emailjs:
  "ids_fresh s \<Longrightarrow> r \<in> set (pending s) \<Longrightarrow> rq_channel r = EmailJS \<Longrightarrow> set es \<subseteq> insert FTick (range FWait) \<Longrightarrow>
   form_run s es = Some s' \<Longrightarrow> r \<in> set (pending s')"
proof (induction es arbitrary: s)
  case Nil
  then show ?case by simp
next
  case (Cons e es)
  then obtain s1 where st: "form_step s e = Some s1" and rest: "form_run s1 es = Some s'"
    by (auto split: option.splits)
  have e: "e = FTick \<or> (\<exists>n. e = FWait n)" using Cons.prems(4) by auto
  have "r \<in> set (pending s1)" by (rule timer_step_keeps_emailjs [OF Cons.prems(1) st e Cons.prems(2,3)])
  moreover have "ids_fresh s1" by (rule ids_fresh_step [OF Cons.prems(1) st])
  ultimately show ?case using Cons.IH [OF _ _ Cons.prems(3) _ rest] Cons.prems(4) by auto
qed

text \<open>
  C31 (finding): with EmailJS loaded, the EmailJS call has no timeout. In every page reachable
  from the loaded page, an EmailJS request in flight stays pending across any sequence of timer
  firings and waits, however long: no timer ever ends it.
\<close>

theorem emailjs_never_times_out:
  "form_reach ((initial_form ejs)\<lparr>form := d\<rparr>) s \<Longrightarrow> r \<in> set (pending s) \<Longrightarrow> rq_channel r = EmailJS \<Longrightarrow>
   set es \<subseteq> insert FTick (range FWait) \<Longrightarrow> form_run s es = Some s' \<Longrightarrow> r \<in> set (pending s')"
  by (rule timer_run_keeps_emailjs [OF ids_fresh_reach])

theorem emailjs_never_times_out_witness:
  "case form_run (jane_page True) [Submit ''11/9/2026''] of
     Some s \<Rightarrow> set [FWait 100000] \<subseteq> insert FTick (range FWait) \<and> rq_channel (hd (pending s)) = EmailJS \<and>
       (\<exists>s'. form_run s [FWait 100000] = Some s' \<and> hd (pending s) \<in> set (pending s') \<and> loader s')
   | None \<Rightarrow> False"
proof (cases "form_run (jane_page True) [Submit ''11/9/2026'']")
  case None
  then show ?thesis by (simp add: run_simps)
next
  case (Some s)
  have reach: "form_reach ((initial_form True)\<lparr>form := jane\<rparr>) s"
    using form_reach_run [OF freach_refl Some] by (simp add: jane_page_def)
  have p: "pending s \<noteq> []" "rq_channel (hd (pending s)) = EmailJS" and tm: "ftimers s = []" and l: "loader s"
    using Some by (auto simp: run_simps)
  obtain s' where r: "form_run s [FWait 100000] = Some s'" and l': "loader s'" using tm l by simp
  have "hd (pending s) \<in> set (pending s')"
    by (rule emailjs_never_times_out [OF reach _ p(2) _ r]) (use p(1) in auto)
  with r l' p Some show ?thesis by auto
qed

end
