(* ===== verification/Spec2Isabelle.thy ===== *)
theory Spec2Isabelle
  imports Page BannerIds
begin

text \<open>
  \<^bold>\<open>A verification model of the landing page script of oneauto-salvage.\<close>

  The repository's behaviour is one script, \<^verbatim>\<open>src/assets/view/js/part.js\<close>. It has two
  parts that share no state: the \<^emph>\<open>counter engine\<close> (lines 2--226), which animates
  four statistics once each, when they scroll into view or after a 10-second fallback;
  and the \<^emph>\<open>quote form controller\<close> (lines 230--573), which validates the quote
  form, builds an HTML e-mail, sends it through EmailJS or a POST to
  \<^verbatim>\<open>send_email.php\<close>, and shows a success or error banner. Both are driven by the
  browser's events and timers; each is modelled as a record of the page state it reads
  and writes, one definition per handler, and a step function of the browser over
  events, with its runs and an inductive reachability relation.

  \<^bold>\<open>Theories.\<close>
  \<^item> \<open>Prelude\<close>: the timer queue \<open>add_timer\<close> (a \<^verbatim>\<open>setTimeout\<close> registration:
    callbacks run by due time, FIFO among equal times) and its well-formedness
    \<open>timers_wf\<close>; generic list lemmas.
  \<^item> \<open>JS_Base\<close>: models of the JavaScript built-ins the script calls, written from the
    ECMAScript definitions: \<^verbatim>\<open>Math.round\<close> (\<open>js_round\<close>, on rationals),
    \<open>String(n)\<close> (\<open>dec_string\<close>), \<^verbatim>\<open>toLocaleString()\<close> in en-US (\<open>group3\<close>,
    \<open>js_locale_string\<close>), \<^verbatim>\<open>toLowerCase\<close> (\<open>js_lower\<close>) and \<^verbatim>\<open>includes\<close>
    (\<open>js_includes\<close>), with their lemmas (rounding is monotone and an integer quotient
    on fractions, printed digits read back, commas stripped give the plain form,
    \<open>js_includes\<close> is the infix relation).
  \<^item> \<open>Json\<close>: \<^verbatim>\<open>JSON.parse\<close> as a recursive-descent parser with fuel, property
    access, truthiness and \<open>String(v)\<close>; every call consumes input, so fuel
    \<open>2 * length s + 1\<close> always suffices (\<open>parse_enough_fuel\<close>) and \<open>json_parse\<close>
    fails only on a syntax error.
  \<^item> \<open>Animation\<close>: \<^verbatim>\<open>countUp\<close> and its frame callback \<^verbatim>\<open>animate\<close> (lines
    25--71): \<open>progress\<close>, \<open>ease_out_quad\<close>, \<open>current_value\<close>,
    \<open>format_count\<close>, the frame \<open>animate\<close> and the frame loop \<open>run_frames\<close> over the
    timestamps at which the browser runs it.
  \<^item> \<open>Counters\<close>: the engine's state \<open>counter_page\<close> and its handlers
    \<open>onIntersection\<close> (\<open>on_entry\<close>), \<open>triggerCountersImmediately\<close>
    (\<open>trigger_one\<close>), \<open>initializeCounters\<close>, \<open>counter_fallback\<close>,
    \<open>script_load\<close>, \<open>dom_content_loaded\<close>, \<open>jquery_ready\<close>; the browser
    \<open>counter_step\<close>, \<open>counter_run\<close>, \<open>counter_reach\<close>.
  \<^item> \<open>ClaimOnce\<close>: the claim-once registry the specification asks for (section 9) as
    an abstract machine \<open>claim_step\<close>, and the refinement of the engine into it.
  \<^item> \<open>QuoteForm\<close>: the form data \<open>quote_request\<close>, the seven required checks
    (\<open>required_checks\<close>, \<open>validation_errors\<close>, \<open>is_valid\<close>, \<open>error_message\<close>,
    \<open>invalid_groups\<close>, and the handler's own sequence \<open>validate\<close>), the subject and
    the HTML body \<open>createEmailTableContent\<close>, line by line as the template writes it.
  \<^item> \<open>Responses\<close>: the payloads of \<^verbatim>\<open>emailjs.send\<close> and of the POST, the decision
    \<open>ajax_reply\<close> of the AJAX success callback (JSON success flag, error text, the
    \<^verbatim>\<open>catch\<close> block's substring test), the message \<open>ajax_error_message\<close> of the
    error callback, and the HTML of both banners.
  \<^item> \<open>FormController\<close>: the form page \<open>form_page\<close> (values, borders, loader,
    alerts, banners, requests in flight, sent requests, timers, uncaught exceptions) and
    the handlers \<open>field_change\<close>, \<open>focus_change\<close>, \<open>select_click\<close>,
    \<open>submit\<close>, \<open>sendEmail\<close>, \<open>fallbackEmailMethod\<close>, the EmailJS and AJAX
    callbacks, \<open>showSuccessMessage\<close>, \<open>showErrorMessage\<close> and the timer callbacks
    \<open>run_form_callback\<close>; the browser \<open>form_step\<close>, \<open>form_run\<close>,
    \<open>form_reach\<close>; the invariant \<open>form_inv\<close> and the measure \<open>timer_weight\<close>.
  \<^item> \<open>Queues\<close>: the timer queues of both parts stay well formed (lemmas used by
    \<open>Page\<close>).
  \<^item> \<open>BannerIds\<close>: the identities of banners and requests stay fresh and distinct;
    with it, an EmailJS request in flight survives every timer (C31).
  \<^item> \<open>Page\<close>: the two parts in one window: the product \<open>page\<close> of the counter page
    and the form page, with one event loop \<open>page_step\<close> that passes each part its own
    events and fires the earliest timer of both queues (\<open>counter_first\<close>,
    \<open>fire_counter\<close>, \<open>fire_form\<close>), moving the other part's clock along; jQuery's
    ready callback (lines 2--22), the one callback shared by the parts, schedules the
    counters and binds the form's \<^verbatim>\<open>#model\<close> and \<^verbatim>\<open>#year\<close> change handlers in
    one task (\<open>ready_hook\<close>, \<open>bind_ready_handlers\<close>); its runs \<open>page_run\<close>,
    reachability \<open>page_reach\<close> and the loaded page \<open>page_load\<close>.

  \<^bold>\<open>What is proved.\<close>
  For the engine: each counter animates at most once in every reachable page (C1); a
  counted container never starts again (C2); the fallback counts every counter when the
  markup is complete (C3); the engine refines the claim-once registry (C11); in every
  page reachable from the script's load, on any markup, every started animation ends on
  one of the four literal targets (C5, by the invariant \<open>spec_starts\<close>: each started
  animation has the duration 2500 and a target and suffix of the table); both trigger
  paths use one table (C21). Findings: the initialization retries forever when markup is
  missing (C25), and an unknown \<^verbatim>\<open>h2\<close> id silences its counter (C26).
  For the animation: the frame loop ends and its last frame shows the target (C4); a
  running frame's number is an integer quotient (C20), within bounds (C22) and
  non-decreasing (C23); the \<^verbatim>\<open>+\<close> display with its commas removed reads back (C24).
  Finding: before its start time (a clock gone back) every frame shows a negative or zero
  number and keeps animating (C27).
  For the form: an invalid submit sends nothing and alerts exactly the missing line (C6);
  the required fields are exactly the seven of the checks (C18), and the handler's check
  sequence \<open>validate\<close> equals the reference definitions (\<open>validate_equiv\<close>); JSON success
  resets the form (C7), JSON failure shows the server's text (C8), for every plain text
  verbatim (C15); in every state whose next timer is an AJAX timeout, firing it ends the
  request with the timeout banner (C9); in every state an AJAX error callback ends its
  request, hides the loader and replaces all banners by one error banner with the message
  of the error's class (C16); a rejected EmailJS call falls back to the POST (C19); for
  every request the subject names the customer and the body carries the model and part
  rows (C10); in every reachable page the loader is hidden when nothing is in flight
  (C12), there is at most one error banner (C14), and every AJAX request settles after
  finitely many timer firings (C13, by the decreasing \<open>timer_weight\<close>). The timer queues
  of both parts stay well formed and banner and request identities stay fresh
  (\<open>Queues\<close>, \<open>BannerIds\<close>); these invariants carry the proofs above. Findings: an
  already parsed JSON response escapes as a \<^verbatim>\<open>TypeError\<close> with no banner (C28); the
  success banner's fade removes every banner present, a later error banner included (C29);
  a submit while a request is in flight sends another one, and the first answer hides the
  loader (C30); an EmailJS request in flight is never ended by any timer (C31); user input
  is embedded in the e-mail's HTML unescaped (C32).
  For the page as a whole: each part of every reachable page is reachable by its own
  engine (\<open>page_reach_projects\<close>), so the properties above hold on the page whatever
  the interleaving; and every AJAX request settles after finitely many timer firings even
  on markup where the counter engine's retries never end (C17; a lexicographic measure:
  the form's \<open>timer_weight\<close>, then the counter work due before the form's next timer,
  \<open>due_weight\<close>, which falls because every counter callback arms at most one timer, at
  least 500 ms later).

  \<^bold>\<open>Modelling choices.\<close>
  Numbers the counter computes are exact rationals (\<open>rat\<close>), not IEEE doubles: the
  easing is a polynomial of a quotient of integers, and for the page's durations and
  targets the rounding of doubles does not change \<^verbatim>\<open>Math.round\<close>'s result. Times are
  integer milliseconds. The frame loop is a function of the list of frame timestamps, so
  it needs no fuel; the retry loop of \<^verbatim>\<open>initializeCounters\<close> is not bounded by the code,
  and the model does not bound it either: runs are finite event lists. The JSON parser's
  fuel is proved sufficient. The server and EmailJS are the environment: their answers
  are events (\<open>AjaxSuccess\<close> with the JavaScript value jQuery passes, \<open>AjaxError\<close>,
  \<open>EmailJsResolve\<close>, \<open>EmailJsReject\<close>), and jQuery's 30-second timeout is a timer.
  A form field's value is a string; a missing field or an empty select reads as the empty
  string, which is falsy like \<^verbatim>\<open>undefined\<close> and \<^verbatim>\<open>null\<close>. \<^verbatim>\<open>reset()\<close> empties
  every field. The date string of the e-mail is an input. Banners and requests are named
  by fresh numbers (shown distinct in \<open>BannerIds\<close>). The page's one timer list is
  kept as one queue per part; the loop takes the earlier head, and of two timers due at the
  same time the counter's (the parts share no state, so this order changes neither).
  \<^verbatim>\<open>countUp\<close> is called with the duration 2500 everywhere; the model's theorems on
  the animation assume a positive duration and say nothing of the \<^verbatim>\<open>Infinity\<close> or
  \<^verbatim>\<open>NaN\<close> a zero duration would give.

  \<^bold>\<open>Not modelled.\<close> Console logging; the scrolling animations
  (\<^verbatim>\<open>$('html, body').animate\<close>), which change no state the script reads; the empty
  \<^verbatim>\<open>#part_name\<close> change handler; jQuery, the DOM and the browser beyond the
  operations named above; CSS and the page markup (the fixtures \<open>page_divs\<close> and
  \<open>jane\<close> stand for them); the mail relay \<^verbatim>\<open>send_email.php\<close> and the EmailJS
  library, which are not in the repository. Every statement of \<^verbatim>\<open>part.js\<close> that
  changes state the script reads is modelled; the lines outside the map are blank lines
  and comments. What remains is the browser and the markup: where the script element
  stands relative to the form (the form's handlers are bound when the script is evaluated,
  so a form parsed later would have none) and the order of two timers of different parts
  due at the same millisecond depend on the page that includes the script, which is not
  in the repository.
\<close>

text \<open>
  C5: the final frames show the literal targets. In every page reachable from the loaded
  script, whatever the markup, every started counter, whether started by
  \<^verbatim>\<open>onIntersection\<close> or by \<^verbatim>\<open>triggerCountersImmediately\<close>, writes in
  its last frame one of \<^verbatim>\<open>40k\<close>, \<^verbatim>\<open>50,000+\<close>, \<^verbatim>\<open>Over 40\<close> and
  \<^verbatim>\<open>2,000+\<close>, and asks for no further frame.
\<close>

theorem final_frames_exact:
  assumes "counter_reach (script_load loading (initial_page dv io)) s" and "(d, cu) \<in> set (started s)"
    and "cu_start cu + cu_duration cu \<le> now"
  shows "animate cu now \<in> {(''40k'', False), (''50,000+'', False), (''Over 40'', False), (''2,000+'', False)}"
proof -
  have "spec_starts (script_load loading (initial_page dv io))"
    by (simp add: spec_starts_def script_load_def initial_page_def set_timeout_def)
  with assms(1) have "spec_starts s" by (rule spec_starts_reach)
  with assms(2) have d: "cu_duration cu = 2500" and c: "(cu_target cu, cu_suffix cu) \<in> set (map snd counterConfigs)"
    by (auto simp: spec_starts_def list_all_iff)
  from d assms(3) have "animate cu now = (final_text cu, False)" by (intro animate_final) simp_all
  with spec_config_final [OF c] show ?thesis by auto
qed

theorem final_frames_exact_witness:
  "\<exists>s cu. counter_reach (script_load False (initial_page page_divs True)) s \<and>
     (''engine-sale-div'', cu) \<in> set (started s) \<and> cu_start cu + cu_duration cu \<le> 12600 \<and>
     animate cu 12600 = (''40k'', False)"
proof -
  have "map_option (\<lambda>s. started s)
          (counter_run (script_load False (initial_page page_divs True)) [Tick, Tick, Tick, Tick, Tick])
        = Some [(''engine-sale-div'', \<lparr>cu_element = ''engine-sale'', cu_target = 40000, cu_duration = 2500,
                    cu_suffix = ''k'', cu_start = 10100\<rparr>),
                (''satisfied-customers-div'', \<lparr>cu_element = ''satisfied-customers'', cu_target = 50000,
                    cu_duration = 2500, cu_suffix = ''+'', cu_start = 10100\<rparr>),
                (''million-parts-div'', \<lparr>cu_element = ''million-parts'', cu_target = 40, cu_duration = 2500,
                    cu_suffix = ''over'', cu_start = 10100\<rparr>),
                (''inventory-yards-div'', \<lparr>cu_element = ''inventory-yards'', cu_target = 2000,
                    cu_duration = 2500, cu_suffix = ''+'', cu_start = 10100\<rparr>)]"
    by (simp add: page_simps)
  then obtain s where r: "counter_run (script_load False (initial_page page_divs True))
      [Tick, Tick, Tick, Tick, Tick] = Some s"
    and st: "(''engine-sale-div'', \<lparr>cu_element = ''engine-sale'', cu_target = 40000, cu_duration = 2500,
                    cu_suffix = ''k'', cu_start = 10100\<rparr>) \<in> set (started s)"
    by (auto simp del: counter_run.simps)
  have reach: "counter_reach (script_load False (initial_page page_divs True)) s"
    by (rule counter_run_reach [OF r])
  have "animate \<lparr>cu_element = ''engine-sale'', cu_target = 40000, cu_duration = 2500,
                    cu_suffix = ''k'', cu_start = 10100\<rparr> 12600 \<in>
        {(''40k'', False), (''50,000+'', False), (''Over 40'', False), (''2,000+'', False)}"
    by (rule final_frames_exact [OF reach st]) simp
  moreover have "fst (animate \<lparr>cu_element = ''engine-sale'', cu_target = 40000, cu_duration = 2500,
                    cu_suffix = ''k'', cu_start = 10100\<rparr> 12600) = ''40k''"
    by (simp add: animate_def current_value_def ease_out_quad_def progress_def format_simps)
  ultimately have "animate \<lparr>cu_element = ''engine-sale'', cu_target = 40000, cu_duration = 2500,
                    cu_suffix = ''k'', cu_start = 10100\<rparr> 12600 = (''40k'', False)" by auto
  with reach st show ?thesis by (intro exI conjI) simp_all
qed

end
